(* ===== verification/Numerics.thy ===== *)
theory Numerics
  imports Prelude Complex_Main
begin

text \<open>
  The arithmetic of the program. Money is Python's \<^verbatim>\<open>decimal.Decimal\<close> under the default
  context (28 significant digits, \<^verbatim>\<open>ROUND_HALF_EVEN\<close>), indicators and clocks are IEEE
  double precision floats (53 significant bits, ties to even). Both are the same scheme, base
  \<open>b\<close> and \<open>p\<close> significant digits, so the rounding function \<open>rsig b p\<close> is
  defined and analysed once: it is monotone, odd, and the identity exactly on the values that
  have a representation with \<open>p\<close> digits. Values are exact rationals and every arithmetic
  operation of the source rounds its exact result; comparisons, \<^verbatim>\<open>min\<close> and
  \<^verbatim>\<open>max\<close> do not round. Exponent limits (overflow, subnormal numbers), infinities and
  NaN are outside this model.

  The locale \<open>rounding\<close> is the interface the rest of the development uses: what a
  component may rely on about the arithmetic, whatever the base and precision are.
\<close>

section \<open>Rounding to a number of significant digits\<close>

definition rhe :: "rat \<Rightarrow> int" where
  "rhe x = (let f = \<lfloor>x\<rfloor>; d = x - of_int f in
     if d < 1/2 then f
     else if 1/2 < d then f + 1
     else if even f then f else f + 1)"

text \<open>The number of base-\<open>b\<close> digits of a positive integer.\<close>

function digit_count :: "int \<Rightarrow> int \<Rightarrow> nat" where
  "digit_count b n = (if n \<le> 0 \<or> b \<le> 1 then 0 else Suc (digit_count b (n div b)))"
  by pat_completeness auto
termination
proof (relation "measure (\<lambda>(b, n). nat n)", goal_cases)
  case (2 b n)
  then have "n div b < n" by (simp add: int_div_less_self)
  with 2 show ?case by simp
qed simp

declare digit_count.simps [simp del]

definition ilog :: "nat \<Rightarrow> rat \<Rightarrow> int" where
  "ilog b x = (let (p, q) = quotient_of x;
                   k = int (digit_count (int b) p) - int (digit_count (int b) q)
               in if of_nat b powi k \<le> x then k else k - 1)"

definition rsig :: "nat \<Rightarrow> nat \<Rightarrow> rat \<Rightarrow> rat" where
  "rsig b p x = (if x = 0 then 0
     else let u = of_nat b powi (ilog b \<bar>x\<bar> - (int p - 1))
          in of_int (rhe (x / u)) * u)"

definition representable :: "nat \<Rightarrow> nat \<Rightarrow> rat \<Rightarrow> bool" where
  "representable b p x \<longleftrightarrow> (\<exists>m k. \<bar>m\<bar> \<le> int (b ^ p) \<and> x = of_int m * of_nat b powi k)"

lemma rhe_floor_bounds: "\<lfloor>x\<rfloor> \<le> rhe x" "rhe x \<le> \<lfloor>x\<rfloor> + 1"
  by (simp_all add: rhe_def Let_def)

lemma rhe_of_int [simp]: "rhe (of_int n) = n"
  by (simp add: rhe_def)

lemma rhe_mono: assumes "x \<le> y" shows "rhe x \<le> rhe y"
proof (cases "\<lfloor>x\<rfloor> = \<lfloor>y\<rfloor>")
  case True
  with assms show ?thesis by (auto simp: rhe_def Let_def)
next
  case False
  with floor_mono [OF assms] have "\<lfloor>x\<rfloor> + 1 \<le> \<lfloor>y\<rfloor>" by simp
  with rhe_floor_bounds(2) [of x] rhe_floor_bounds(1) [of y] show ?thesis by linarith
qed

lemma rhe_minus: "rhe (- x) = - rhe x"
proof (cases "x = of_int \<lfloor>x\<rfloor>")
  case True
  then have "rhe (- x) = rhe (of_int (- \<lfloor>x\<rfloor>))" by simp
  also have "\<dots> = - \<lfloor>x\<rfloor>" by (simp only: rhe_of_int)
  also have "\<lfloor>x\<rfloor> = rhe x" by (subst (2) True) simp
  finally show ?thesis by simp
next
  case False
  then have f: "\<lfloor>- x\<rfloor> = - \<lfloor>x\<rfloor> - 1"
    by (intro floor_unique) (use floor_correct [of x] in \<open>auto simp: less_le\<close>)
  show ?thesis unfolding rhe_def Let_def f by (auto simp: field_simps)
qed

lemma digit_count_bounds:
  "0 < n \<Longrightarrow> 2 \<le> b \<Longrightarrow> 0 < digit_count b n \<and> b ^ (digit_count b n - 1) \<le> n \<and> n < b ^ digit_count b n"
proof (induction b n rule: digit_count.induct)
  case (1 b n)
  show ?case
  proof (cases "n < b")
    case True
    with 1 have "digit_count b n = 1" by (simp add: digit_count.simps [of b n] digit_count.simps [of b 0])
    with 1 True show ?thesis by simp
  next
    case False
    let ?m = "n div b" and ?l = "digit_count b (n div b)"
    have m: "0 < ?m" using False 1 by (simp add: pos_imp_zdiv_pos_iff)
    with 1 have IH: "0 < ?l" "b ^ (?l - 1) \<le> ?m" "?m < b ^ ?l" by auto
    have l: "digit_count b n = Suc ?l" using 1 by (simp add: digit_count.simps [of b n])
    have eq: "b * ?m + n mod b = n" by (rule mult_div_mod_eq)
    have "b ^ ?l = b * b ^ (?l - 1)" using IH(1) by (cases ?l) auto
    also have "\<dots> \<le> b * ?m" using IH(2) 1 by simp
    also have "\<dots> \<le> n" using eq 1 pos_mod_sign [of b n] by linarith
    finally have lo: "b ^ ?l \<le> n" .
    have "n mod b < b" using 1 by simp
    with eq have "n < b * (?m + 1)" unfolding distrib_left by linarith
    also have "\<dots> \<le> b * b ^ ?l" using IH(3) 1 by (intro mult_left_mono) auto
    finally show ?thesis using lo l by simp
  qed
qed

lemma ilog_bounds:
  assumes b: "2 \<le> b" and x: "0 < x"
  shows "of_nat b powi (ilog b x) \<le> x \<and> x < of_nat b powi (ilog b x + 1)"
proof -
  obtain p q where pq: "quotient_of x = (p, q)" by fastforce
  from pq have q: "0 < q" by (rule quotient_of_denom_pos)
  from pq have xpq: "x = of_int p / of_int q" by (rule quotient_of_div)
  with x q have p: "0 < p" by (simp add: zero_less_divide_iff)
  let ?i = "digit_count (int b) p" and ?j = "digit_count (int b) q" and ?B = "of_nat b :: rat"
  have i: "0 < ?i" "int b ^ (?i - 1) \<le> p" "p < int b ^ ?i"
    and j: "0 < ?j" "int b ^ (?j - 1) \<le> q" "q < int b ^ ?j"
    using digit_count_bounds [of p "int b"] digit_count_bounds [of q "int b"] p q b by auto
  have B: "1 < ?B" "0 < ?B" using b by auto
  have cast: "?B powi int n = of_int (int b ^ n)" for n by (simp add: power_int_of_nat)
  have P1: "?B powi (int ?i - 1) \<le> of_int p"
    using i(1,2) cast [of "?i - 1"] by (simp add: of_nat_diff Suc_le_eq del: of_int_power)
  have P2: "of_int p < ?B powi int ?i" unfolding cast using i(3) by (simp only: of_int_less_iff)
  have Q1: "?B powi (int ?j - 1) \<le> of_int q"
    using j(1,2) cast [of "?j - 1"] by (simp add: of_nat_diff Suc_le_eq del: of_int_power)
  have Q2: "of_int q < ?B powi int ?j" unfolding cast using j(3) by (simp only: of_int_less_iff)
  have lo: "?B powi (int ?i - 1 - int ?j) \<le> x"
  proof -
    have "?B powi (int ?i - 1 - int ?j) = ?B powi (int ?i - 1) / ?B powi int ?j"
      using B by (simp add: power_int_diff)
    also have "\<dots> \<le> of_int p / of_int q"
      using P1 Q2 q p B by (intro frac_le) auto
    finally show ?thesis by (simp add: xpq)
  qed
  have hi: "x < ?B powi (int ?i - int ?j + 1)"
  proof -
    have "of_int p / of_int q < ?B powi int ?i / ?B powi (int ?j - 1)"
      using P2 Q1 q p B by (intro frac_less) auto
    also have "\<dots> = ?B powi (int ?i - (int ?j - 1))"
      using B by (subst power_int_diff) auto
    finally show ?thesis by (simp add: xpq algebra_simps)
  qed
  show ?thesis
  proof (cases "?B powi (int ?i - int ?j) \<le> x")
    case True
    then show ?thesis using hi by (simp add: ilog_def pq)
  next
    case False
    then show ?thesis using lo by (simp add: ilog_def pq algebra_simps)
  qed
qed

lemma powi_mono_base:
  "2 \<le> b \<Longrightarrow> (of_nat b :: rat) powi i \<le> of_nat b powi j \<longleftrightarrow> i \<le> j"
  using power_int_increasing [of i j "of_nat b :: rat"] power_int_strict_increasing [of j i "of_nat b :: rat"]
  by (cases "i \<le> j") auto

lemma powi_pos_base: "2 \<le> b \<Longrightarrow> 0 < (of_nat b :: rat) powi i"
  by (simp add: zero_less_power_int)

lemma ilog_mono:
  assumes b: "2 \<le> b" and x: "0 < x" and xy: "x \<le> y"
  shows "ilog b x \<le> ilog b y"
proof -
  from x xy have y: "0 < y" by simp
  have "of_nat b powi ilog b x \<le> x" using ilog_bounds [OF b x] by simp
  also have "x \<le> y" by (rule xy)
  also have "y < of_nat b powi (ilog b y + 1)" using ilog_bounds [OF b y] by simp
  finally have "\<not> (of_nat b :: rat) powi (ilog b y + 1) \<le> of_nat b powi ilog b x" by simp
  then show ?thesis using b by (simp add: powi_mono_base)
qed

lemma rsig_0 [simp]: "rsig b p 0 = 0"
  by (simp add: rsig_def)

lemma rsig_minus: "rsig b p (- x) = - rsig b p x"
  by (simp add: rsig_def Let_def rhe_minus)

lemma rsig_scaled:
  assumes b: "2 \<le> b" and p: "1 \<le> p" and x: "0 < x"
  defines "e \<equiv> ilog b x - (int p - 1)"
  shows "int (b ^ (p - 1)) \<le> rhe (x / of_nat b powi e)" "rhe (x / of_nat b powi e) \<le> int (b ^ p)"
    and "rsig b p x = of_int (rhe (x / of_nat b powi e)) * of_nat b powi e"
proof -
  let ?B = "of_nat b :: rat"
  have u: "0 < ?B powi e" using b by (rule powi_pos_base)
  have bnd: "?B powi ilog b x \<le> x" "x < ?B powi (ilog b x + 1)" using ilog_bounds [OF b x] by auto
  have pw: "?B powi (int n) = of_int (int (b ^ n))" for n by (simp add: power_int_of_nat)
  have "?B powi (int (p - 1)) * ?B powi e = ?B powi ilog b x"
    using b p by (subst power_int_add [symmetric]) (auto simp: e_def of_nat_diff)
  with bnd(1) u have "?B powi (int (p - 1)) \<le> x / ?B powi e" by (simp add: pos_le_divide_eq)
  then have "rhe (of_int (int (b ^ (p - 1)))) \<le> rhe (x / ?B powi e)" unfolding pw by (rule rhe_mono)
  then show "int (b ^ (p - 1)) \<le> rhe (x / ?B powi e)" by (simp only: rhe_of_int)
  have "?B powi (int p) * ?B powi e = ?B powi (ilog b x + 1)"
    using b by (subst power_int_add [symmetric]) (auto simp: e_def)
  with bnd(2) u have "x / ?B powi e \<le> ?B powi (int p)" by (simp add: pos_divide_le_eq)
  then have "rhe (x / ?B powi e) \<le> rhe (of_int (int (b ^ p)))" unfolding pw by (rule rhe_mono)
  then show "rhe (x / ?B powi e) \<le> int (b ^ p)" by (simp only: rhe_of_int)
  show "rsig b p x = of_int (rhe (x / ?B powi e)) * ?B powi e"
    using x by (simp add: rsig_def e_def Let_def)
qed

lemma rsig_pos:
  assumes "2 \<le> b" "1 \<le> p" "0 < x" shows "0 < rsig b p x"
proof -
  have "0 < int (b ^ (p - 1))" using assms by simp
  then have "0 < rhe (x / of_nat b powi (ilog b x - (int p - 1)))"
    using rsig_scaled(1) [OF assms] by linarith
  then show ?thesis
    using rsig_scaled(3) [OF assms] powi_pos_base [OF assms(1)] by simp
qed

lemma rsig_nonneg: "2 \<le> b \<Longrightarrow> 1 \<le> p \<Longrightarrow> 0 \<le> x \<Longrightarrow> 0 \<le> rsig b p x"
  using rsig_pos [of b p x] by (cases "x = 0") auto

lemma rsig_mono_pos:
  assumes b: "2 \<le> b" and p: "1 \<le> p" and x: "0 < x" and xy: "x \<le> y"
  shows "rsig b p x \<le> rsig b p y"
proof -
  from x xy have y: "0 < y" by simp
  let ?B = "of_nat b :: rat"
  let ?ex = "ilog b x - (int p - 1)" and ?ey = "ilog b y - (int p - 1)"
  have u: "0 < ?B powi ?ex" "0 < ?B powi ?ey" using b by (simp_all add: powi_pos_base)
  show ?thesis
  proof (cases "ilog b x = ilog b y")
    case True
    have "x / ?B powi ?ex \<le> y / ?B powi ?ex" using xy u by (simp add: divide_right_mono)
    then have "rhe (x / ?B powi ?ex) \<le> rhe (y / ?B powi ?ex)" by (rule rhe_mono)
    then show ?thesis
      unfolding rsig_scaled(3) [OF b p x] rsig_scaled(3) [OF b p y] True [symmetric]
      using u by (intro mult_right_mono) auto
  next
    case False
    with ilog_mono [OF b x xy] have lt: "ilog b x + 1 \<le> ilog b y" by simp
    have "rsig b p x \<le> of_int (int (b ^ p)) * ?B powi ?ex"
      unfolding rsig_scaled(3) [OF b p x]
      using rsig_scaled(2) [OF b p x] u by (intro mult_right_mono) (auto simp only: of_int_le_iff)
    also have "\<dots> = ?B powi (int p + ?ex)"
      using b by (subst power_int_add) (auto simp: power_int_of_nat)
    also have "\<dots> \<le> ?B powi (int (p - 1) + ?ey)"
      using b p lt by (simp add: powi_mono_base of_nat_diff)
    also have "\<dots> = of_int (int (b ^ (p - 1))) * ?B powi ?ey"
      using b by (simp add: power_int_add power_int_of_nat)
    also have "\<dots> \<le> rsig b p y"
      unfolding rsig_scaled(3) [OF b p y]
      using rsig_scaled(1) [OF b p y] u by (intro mult_right_mono) (auto simp only: of_int_le_iff)
    finally show ?thesis .
  qed
qed

lemma rsig_mono:
  assumes b: "2 \<le> b" and p: "1 \<le> p" and xy: "x \<le> y"
  shows "rsig b p x \<le> rsig b p y"
proof -
  consider "0 < x" | "x \<le> 0" "0 \<le> y" | "y < 0" by linarith
  then show ?thesis
  proof cases
    case 1 then show ?thesis using b p xy by (intro rsig_mono_pos)
  next
    case 2
    then have "0 \<le> rsig b p (- x)" "0 \<le> rsig b p y" using b p by (auto intro: rsig_nonneg)
    then show ?thesis by (simp add: rsig_minus)
  next
    case 3
    then have "rsig b p (- y) \<le> rsig b p (- x)" using b p xy by (intro rsig_mono_pos) auto
    then show ?thesis by (simp add: rsig_minus)
  qed
qed

lemma rsig_representable_pos:
  assumes b: "2 \<le> b" and p: "1 \<le> p" and x: "0 < x"
    and m: "\<bar>m\<bar> \<le> int (b ^ p)" and xm: "x = of_int m * of_nat b powi k"
  shows "rsig b p x = x"
proof -
  let ?B = "of_nat b :: rat"
  let ?e = "ilog b x - (int p - 1)"
  have u: "0 < ?B powi j" for j using b by (rule powi_pos_base)
  have "\<exists>n. x = of_int n * ?B powi ?e"
  proof (cases "?e \<le> k")
    case True
    then have "?B powi k = of_int (int (b ^ nat (k - ?e))) * ?B powi ?e"
      using b by (subst of_int_of_nat_eq, subst of_nat_power, subst power_int_of_nat [symmetric],
        subst power_int_add [symmetric]) auto
    then have "x = of_int (m * int (b ^ nat (k - ?e))) * ?B powi ?e" using xm by simp
    then show ?thesis ..
  next
    case False
    have "of_int m \<le> (of_int (int (b ^ p)) :: rat)" using m by (simp only: of_int_le_iff)
    then have "x \<le> ?B powi (int p + k)"
      using b u [of k] unfolding xm by (simp add: power_int_add power_int_of_nat mult_right_mono)
    moreover have lo: "?B powi (ilog b x) \<le> x" using ilog_bounds [OF b x] by simp
    ultimately have "?B powi (ilog b x) \<le> ?B powi (int p + k)" by linarith
    then have "ilog b x \<le> int p + k" using b by (simp only: powi_mono_base)
    with False have k: "int p + k = ilog b x" by linarith
    with lo \<open>x \<le> ?B powi (int p + k)\<close> have "x = ?B powi (ilog b x)" by simp
    also have "\<dots> = ?B powi (int (p - 1) + ?e)" using p by (simp add: of_nat_diff)
    also have "\<dots> = of_int (int (b ^ (p - 1))) * ?B powi ?e"
      using b by (simp add: power_int_add power_int_of_nat)
    finally show ?thesis ..
  qed
  then obtain n where n: "x = of_int n * ?B powi ?e" ..
  then have "x / ?B powi ?e = of_int n" using u [of ?e] b by (simp add: divide_eq_eq)
  then show ?thesis using rsig_scaled(3) [OF b p x] n by simp
qed

lemma rsig_representable:
  assumes b: "2 \<le> b" and p: "1 \<le> p" and r: "representable b p x"
  shows "rsig b p x = x"
proof -
  from r obtain m k where m: "\<bar>m\<bar> \<le> int (b ^ p)" and x: "x = of_int m * of_nat b powi k"
    by (auto simp: representable_def)
  consider "x = 0" | "0 < x" | "0 < - x" by linarith
  then show ?thesis
  proof cases
    case 1 then show ?thesis by simp
  next
    case 2 then show ?thesis using b p m x by (intro rsig_representable_pos [of b p x m k])
  next
    case 3
    then have "rsig b p (- x) = - x" using b p m x by (intro rsig_representable_pos [of b p "- x" "- m" k]) auto
    then show ?thesis by (simp add: rsig_minus)
  qed
qed

lemma representable_rsig:
  assumes b: "2 \<le> b" and p: "1 \<le> p"
  shows "representable b p (rsig b p x)"
proof -
  have pos: "\<exists>m k. \<bar>m\<bar> \<le> int (b ^ p) \<and> rsig b p y = of_int m * of_nat b powi k" if "0 < y" for y
  proof (intro exI conjI)
    have "0 \<le> int (b ^ (p - 1))" by simp
    then show "\<bar>rhe (y / of_nat b powi (ilog b y - (int p - 1)))\<bar> \<le> int (b ^ p)"
      using rsig_scaled(1,2) [OF b p that] by linarith
  qed (rule rsig_scaled(3) [OF b p that])
  consider "x = 0" | "0 < x" | "0 < - x" by linarith
  then show ?thesis
  proof cases
    case 1 then show ?thesis by (auto simp: representable_def intro: exI [of _ 0])
  next
    case 2 then show ?thesis using pos by (simp add: representable_def)
  next
    case 3
    then obtain m k where "\<bar>m\<bar> \<le> int (b ^ p)" "rsig b p (- x) = of_int m * of_nat b powi k"
      using pos by blast
    then have "\<bar>- m\<bar> \<le> int (b ^ p) \<and> rsig b p x = of_int (- m) * of_nat b powi k"
      by (simp add: rsig_minus)
    then show ?thesis unfolding representable_def by blast
  qed
qed

section \<open>The rounding interface\<close>

locale rounding =
  fixes rnd :: "rat \<Rightarrow> rat"
  assumes rnd_mono: "x \<le> y \<Longrightarrow> rnd x \<le> rnd y"
    and rnd_0: "rnd 0 = 0"
    and rnd_minus: "rnd (- x) = - rnd x"
    and rnd_idem: "rnd (rnd x) = rnd x"
    and rnd_one: "rnd 1 = 1"
begin

lemma rnd_nonneg: "0 \<le> x \<Longrightarrow> 0 \<le> rnd x"
  using rnd_mono [of 0 x] by (simp add: rnd_0)

lemma rnd_nonpos: "x \<le> 0 \<Longrightarrow> rnd x \<le> 0"
  using rnd_mono [of x 0] by (simp add: rnd_0)

lemma rnd_diff_nonneg: "y \<le> x \<Longrightarrow> 0 \<le> rnd (x - y)"
  by (rule rnd_nonneg) simp

lemma rnd_upper: "rnd h = h \<Longrightarrow> x \<le> h \<Longrightarrow> rnd x \<le> h"
  using rnd_mono [of x h] by simp

lemma rnd_lower: "rnd l = l \<Longrightarrow> l \<le> x \<Longrightarrow> l \<le> rnd x"
  using rnd_mono [of l x] by simp

lemma rnd_scale_le: "0 \<le> x \<Longrightarrow> r \<le> 1 \<Longrightarrow> rnd x = x \<Longrightarrow> rnd (x * r) \<le> x"
  by (rule rnd_upper) (auto simp: mult_left_le)

lemma rnd_abs: "rnd \<bar>x\<bar> = \<bar>rnd x\<bar>"
  using rnd_nonneg [of x] rnd_nonpos [of x] by (cases "0 \<le> x") (auto simp: rnd_minus)

lemma rnd_minus_eq: "rnd x = x \<Longrightarrow> rnd (- x) = - x"
  by (simp add: rnd_minus)

end

lemma rounding_rsig: "2 \<le> b \<Longrightarrow> 1 \<le> p \<Longrightarrow> rounding (rsig b p)"
proof (unfold_locales, goal_cases)
  case 5
  have "representable b p 1"
    unfolding representable_def using 5 by (intro exI [of _ 1] exI [of _ 0]) auto
  with 5 show ?case by (auto intro: rsig_representable)
next
  case (4 x)
  then show ?case by (intro rsig_representable representable_rsig)
qed (auto intro: rsig_mono simp: rsig_minus)

section \<open>Decimals and floats\<close>

type_synonym decimal = rat
type_synonym pyfloat = rat

definition dround :: "rat \<Rightarrow> decimal" where
  "dround = rsig 10 28"

definition fl :: "rat \<Rightarrow> pyfloat" where
  "fl = rsig 2 53"

interpretation dec: rounding dround
  unfolding dround_def by (rule rounding_rsig) auto

interpretation flt: rounding fl
  unfolding fl_def by (rule rounding_rsig) auto

definition dadd :: "decimal \<Rightarrow> decimal \<Rightarrow> decimal" where "dadd x y = dround (x + y)"
definition dsub :: "decimal \<Rightarrow> decimal \<Rightarrow> decimal" where "dsub x y = dround (x - y)"
definition dmul :: "decimal \<Rightarrow> decimal \<Rightarrow> decimal" where "dmul x y = dround (x * y)"
definition ddiv :: "decimal \<Rightarrow> decimal \<Rightarrow> decimal" where "ddiv x y = dround (x / y)"
definition dabs :: "decimal \<Rightarrow> decimal" where "dabs x = dround \<bar>x\<bar>"

definition fadd :: "pyfloat \<Rightarrow> pyfloat \<Rightarrow> pyfloat" where "fadd x y = fl (x + y)"
definition fsub :: "pyfloat \<Rightarrow> pyfloat \<Rightarrow> pyfloat" where "fsub x y = fl (x - y)"
definition fmul :: "pyfloat \<Rightarrow> pyfloat \<Rightarrow> pyfloat" where "fmul x y = fl (x * y)"
definition fdiv :: "pyfloat \<Rightarrow> pyfloat \<Rightarrow> pyfloat" where "fdiv x y = fl (x / y)"

lemmas dops = dadd_def dsub_def dmul_def ddiv_def dabs_def
lemmas fops = fadd_def fsub_def fmul_def fdiv_def

text \<open>A value the decimal context represents without rounding.\<close>

definition dexact :: "rat \<Rightarrow> bool" where
  "dexact x \<longleftrightarrow> dround x = x"

lemma dround_dexact [simp]: "dexact (dround x)"
  by (simp add: dexact_def dec.rnd_idem)

lemma dround_pos: "0 < x \<Longrightarrow> 0 < dround x"
  by (simp add: dround_def rsig_pos)

lemma dexact_scaled:
  assumes "\<bar>m\<bar> \<le> 10 ^ 28" and "x * 10 ^ k = of_int m"
  shows "dexact x"
proof -
  have "x = of_int m * of_nat 10 powi (- int k)"
    using assms(2) by (simp add: power_int_minus power_int_of_nat field_simps)
  moreover have "\<bar>m\<bar> \<le> int (10 ^ 28)" using assms(1) by simp
  ultimately have "representable 10 28 x" unfolding representable_def by blast
  then show ?thesis by (simp add: dexact_def dround_def rsig_representable)
qed

lemma dexact_of_int: "\<bar>m\<bar> \<le> 10 ^ 28 \<Longrightarrow> dexact (of_int m)"
  by (rule dexact_scaled [of m _ 0]) auto

lemma dexact_0 [simp]: "dexact 0" and dexact_1 [simp]: "dexact 1"
  by (simp_all add: dexact_def dec.rnd_0 dec.rnd_one)

lemma dadd_exact: "dexact (x + y) \<Longrightarrow> dadd x y = x + y"
  and dsub_exact: "dexact (x - y) \<Longrightarrow> dsub x y = x - y"
  and dmul_exact: "dexact (x * y) \<Longrightarrow> dmul x y = x * y"
  and ddiv_exact: "dexact (x / y) \<Longrightarrow> ddiv x y = x / y"
  by (simp_all add: dexact_def dops)

lemma dops_dexact [simp]:
  "dexact (dadd x y)" "dexact (dsub x y)" "dexact (dmul x y)" "dexact (ddiv x y)" "dexact (dabs x)"
  by (simp_all add: dops)

lemma dadd_0 [simp]: "dexact x \<Longrightarrow> dadd x 0 = x"  "dexact x \<Longrightarrow> dadd 0 x = x"
  by (simp_all add: dexact_def dops)

lemma dmul_0 [simp]: "dmul x 0 = 0" "dmul 0 x = 0"
  by (simp_all add: dops dec.rnd_0)

lemma dmul_nonneg: "0 \<le> x \<Longrightarrow> 0 \<le> y \<Longrightarrow> 0 \<le> dmul x y"
  by (simp add: dops dec.rnd_nonneg)

lemma dmul_pos: "0 < x \<Longrightarrow> 0 < y \<Longrightarrow> 0 < dmul x y"
  by (simp add: dops dround_pos)

lemma dadd_nonneg: "0 \<le> x \<Longrightarrow> 0 \<le> y \<Longrightarrow> 0 \<le> dadd x y"
  by (simp add: dops dec.rnd_nonneg)

lemma dsub_nonneg: "y \<le> x \<Longrightarrow> 0 \<le> dsub x y"
  by (simp add: dops dec.rnd_diff_nonneg)

lemma dmul_le_left: "0 \<le> x \<Longrightarrow> r \<le> 1 \<Longrightarrow> dexact x \<Longrightarrow> dmul x r \<le> x"
  by (simp add: dops dexact_def dec.rnd_scale_le)

lemma dadd_mono: "x \<le> x' \<Longrightarrow> y \<le> y' \<Longrightarrow> dadd x y \<le> dadd x' y'"
  by (simp add: dops dec.rnd_mono add_mono)

lemmas dec_nonneg = dmul_nonneg dadd_nonneg dsub_nonneg

lemma fl_pos: "0 < x \<Longrightarrow> 0 < fl x"
  by (simp add: fl_def rsig_pos)

lemma fl_of_nat_power: "fl (of_int m) = of_int m" if "\<bar>m\<bar> \<le> 2 ^ 53"
proof -
  have "representable 2 53 (of_int m)"
    unfolding representable_def using that by (intro exI [of _ m] exI [of _ 0]) auto
  then show ?thesis by (simp add: fl_def rsig_representable)
qed

section \<open>Evaluation\<close>

text \<open>
  Code equations that recognise the common exact values (at most 18 decimals, or 20 binary places)
  before computing a rounding.
\<close>

lemma quotient_scaled:
  assumes "quotient_of x = (n, d)" and "d dvd k"
  shows "x * of_int k = of_int (n * (k div d))"
proof -
  have "x = of_int n / of_int d" "d \<noteq> 0"
    using quotient_of_div [OF assms(1)] quotient_of_denom_pos [OF assms(1)] by auto
  moreover have "k = d * (k div d)" using assms(2) by simp
  then have "(of_int k :: rat) = of_int d * of_int (k div d)" by (metis of_int_mult)
  ultimately show ?thesis by simp
qed

lemma dround_code [code]:
  "dround x = (let (n, d) = quotient_of x in
     if 1000000000000000000 mod d = 0 \<and> \<bar>n * (1000000000000000000 div d)\<bar> \<le> 10000000000000000000000000000
     then x else rsig 10 28 x)"
proof -
  obtain n d where q: "quotient_of x = (n, d)" by fastforce
  have "dround x = x" if "d dvd 1000000000000000000"
      "\<bar>n * (1000000000000000000 div d)\<bar> \<le> 10000000000000000000000000000"
  proof -
    have "x * 10 ^ 18 = of_int (n * (1000000000000000000 div d))"
      using quotient_scaled [OF q that(1)] by simp
    then show ?thesis using that(2) dexact_scaled [of "n * (1000000000000000000 div d)" x 18]
      by (simp add: dexact_def)
  qed
  then show ?thesis by (auto simp: q Let_def dround_def dvd_eq_mod_eq_0)
qed

lemma fl_code [code]:
  "fl x = (let (n, d) = quotient_of x in
     if 1048576 mod d = 0 \<and> \<bar>n * (1048576 div d)\<bar> \<le> 9007199254740992 then x else rsig 2 53 x)"
proof -
  obtain n d where q: "quotient_of x = (n, d)" by fastforce
  have "fl x = x" if "d dvd 1048576" "\<bar>n * (1048576 div d)\<bar> \<le> 9007199254740992"
  proof -
    have "x * of_int 1048576 = of_int (n * (1048576 div d))" by (rule quotient_scaled [OF q that(1)])
    then have "x = of_int (n * (1048576 div d)) * of_nat 2 powi (- 20)"
      by (simp add: power_int_minus field_simps)
    then have "representable 2 53 x" using that(2) unfolding representable_def by fastforce
    then show ?thesis by (simp add: fl_def rsig_representable)
  qed
  then show ?thesis by (auto simp: q Let_def fl_def dvd_eq_mod_eq_0)
qed

section \<open>Relative error of decimal operations\<close>

lemma rhe_error: "\<bar>of_int (rhe x) - x\<bar> \<le> 1/2"
proof -
  have "of_int \<lfloor>x\<rfloor> \<le> x" "x < of_int \<lfloor>x\<rfloor> + 1" by linarith+
  then show ?thesis by (auto simp: rhe_def Let_def abs_le_iff)
qed

lemma rsig_error_pos:
  assumes b: "2 \<le> b" and p: "1 \<le> p" and x: "0 < x"
  shows "\<bar>rsig b p x - x\<bar> \<le> x * of_nat b powi (1 - int p) / 2"
proof -
  define u :: rat where "u = of_nat b powi (ilog b x - (int p - 1))"
  have u: "0 < u" unfolding u_def by (rule powi_pos_base [OF b])
  have "rsig b p x = of_int (rhe (x / u)) * u"
    using x by (simp add: rsig_def u_def Let_def)
  then have "rsig b p x - x = (of_int (rhe (x / u)) - x / u) * u"
    using u by (simp add: left_diff_distrib)
  then have "\<bar>rsig b p x - x\<bar> = \<bar>of_int (rhe (x / u)) - x / u\<bar> * u"
    using u by (simp add: abs_mult)
  also have "\<dots> \<le> 1/2 * u" using rhe_error [of "x / u"] u by (intro mult_right_mono) auto
  also have "u = of_nat b powi (ilog b x) * of_nat b powi (1 - int p)"
    using b by (simp add: u_def power_int_add [symmetric] algebra_simps)
  also have "\<dots> \<le> x * of_nat b powi (1 - int p)"
    using ilog_bounds [OF b x] powi_pos_base [OF b, of "1 - int p"] by (intro mult_right_mono) auto
  finally show ?thesis by simp
qed

text \<open>
  Decimal operations lose at most half a unit of the 28th digit: \<open>below k x y\<close> says that
  \<open>x\<close> is at most \<open>y\<close> up to \<open>k\<close> roundings, \<open>close k x y\<close>
  that two positive values agree up to \<open>k\<close> roundings.
\<close>

definition dec_eps :: rat where "dec_eps = 1 / (2 * 10 ^ 27)"

definition below :: "nat \<Rightarrow> rat \<Rightarrow> rat \<Rightarrow> bool" where
  "below k x y \<longleftrightarrow> (1 - dec_eps) ^ k * x \<le> y"

definition close :: "nat \<Rightarrow> rat \<Rightarrow> rat \<Rightarrow> bool" where
  "close k x y \<longleftrightarrow> 0 < x \<and> 0 < y \<and> below k x y \<and> below k y x"

lemma dec_eps_bounds: "0 < dec_eps" "dec_eps < 1"
  by (simp_all add: dec_eps_def)

lemma close_round: assumes "0 < x" shows "close 1 (dround x) x"
proof -
  have "\<bar>dround x - x\<bar> \<le> x * dec_eps"
    using rsig_error_pos [of 10 28 x] assms by (simp add: dround_def dec_eps_def power_int_minus field_simps)
  then have lo: "(1 - dec_eps) * x \<le> dround x" and hi: "dround x \<le> (1 + dec_eps) * x"
    by (auto simp: abs_le_iff algebra_simps)
  have "(1 - dec_eps) * dround x \<le> (1 - dec_eps) * ((1 + dec_eps) * x)"
    using hi dec_eps_bounds by (intro mult_left_mono) auto
  also have "\<dots> = x - dec_eps * dec_eps * x" by (simp add: algebra_simps)
  also have "\<dots> \<le> x" using assms dec_eps_bounds by simp
  finally show ?thesis using lo assms dround_pos [OF assms] by (simp add: close_def below_def)
qed

lemma close_sym: "close k x y \<Longrightarrow> close k y x"
  and close_below: "close k x y \<Longrightarrow> below k x y"
  by (simp_all add: close_def)

lemma le_below: "x \<le> y \<Longrightarrow> below 0 x y"
  by (simp add: below_def)

lemma below_trans: assumes "below j x y" "below k y z" shows "below (j + k) x z"
proof -
  have "(1 - dec_eps) ^ k * ((1 - dec_eps) ^ j * x) \<le> (1 - dec_eps) ^ k * y"
    using assms dec_eps_bounds by (intro mult_left_mono) (auto simp: below_def)
  then show ?thesis using assms by (simp add: below_def power_add ac_simps)
qed

lemma below_scale: assumes "below k x y" "0 < c" shows "below k (x * c) (y * c)"
  using assms mult_right_mono [of "(1 - dec_eps) ^ k * x" y c] by (simp add: below_def ac_simps)

lemma close_trans: "close j x y \<Longrightarrow> close k y z \<Longrightarrow> close (j + k) x z"
  using below_trans [of j x y k z] below_trans [of k z y j x] by (simp add: close_def add.commute)

lemma close_scale: "close k x y \<Longrightarrow> 0 < c \<Longrightarrow> close k (x * c) (y * c)"
  by (simp add: close_def below_scale)

lemma close_inverse: "close k x y \<Longrightarrow> close k (1 / x) (1 / y)"
  by (simp add: close_def below_def field_simps)

lemma close_dmul: "0 < x \<Longrightarrow> 0 < y \<Longrightarrow> close 1 (dmul x y) (x * y)"
  and close_ddiv: "0 < x \<Longrightarrow> 0 < y \<Longrightarrow> close 1 (ddiv x y) (x / y)"
  using close_round by (simp_all add: dops)

lemma close_dabs_dsub: assumes "x \<noteq> y" shows "close 1 (dabs (dsub x y)) \<bar>x - y\<bar>"
proof -
  have "dabs (dsub x y) = dround \<bar>x - y\<bar>" by (simp add: dops dec.rnd_abs dec.rnd_idem)
  then show ?thesis using close_round [of "\<bar>x - y\<bar>"] assms by simp
qed

text \<open>Eight roundings move a value by less than one part in \<open>10\<^sup>26\<close>.\<close>

lemma bernoulli_eps: "1 - of_nat k * dec_eps \<le> (1 - dec_eps) ^ k"
proof (induction k)
  case (Suc k)
  have "1 - of_nat (Suc k) * dec_eps \<le> (1 - of_nat k * dec_eps) * (1 - dec_eps)"
    using dec_eps_bounds by (simp add: algebra_simps)
  also have "\<dots> \<le> (1 - dec_eps) ^ k * (1 - dec_eps)"
    using Suc dec_eps_bounds by (intro mult_right_mono) auto
  finally show ?case by (simp add: mult.commute)
qed simp

lemma below_bound: assumes "below k x y" "k \<le> 8" "0 \<le> x" shows "(1 - 1 / 10 ^ 26) * x \<le> y"
proof -
  have "1 - 1 / 10 ^ 26 \<le> 1 - of_nat 8 * dec_eps" by (simp add: dec_eps_def)
  also have "\<dots> \<le> 1 - of_nat k * dec_eps" using assms(2) dec_eps_bounds by simp
  also have "\<dots> \<le> (1 - dec_eps) ^ k" by (rule bernoulli_eps)
  finally show ?thesis using mult_right_mono [of _ "(1 - dec_eps) ^ k" x] assms by (fastforce simp: below_def)
qed

end
