(* ===== verification/Errors.thy ===== *)
theory Errors
  imports Numerics
begin

text \<open>
  The exception hierarchy of \<^verbatim>\<open>app/core/exceptions.py\<close> and the handlers of
  \<^verbatim>\<open>app/api/errors.py\<close> that turn an exception into a JSON response. A class is a
  constructor of \<open>error_class\<close>; class attributes are functions on it and inheritance is
  \<open>parent_class\<close>. An error message is kept as its template with the interpolated values,
  it is not rendered to text. An exception that is not an \<^verbatim>\<open>AppError\<close> is \<open>PyExn\<close>
  with the name of its type and its text.
\<close>

section \<open>Dynamic Python values\<close>

datatype pyval =
    VNone
  | VBool bool
  | VInt int
  | VNum rat
  | VStr string
  | VFmt string "pyval list"
  | VList "pyval list"
  | VDict "(string \<times> pyval) list"

text \<open>
  \<open>VFmt t args\<close> is an f-string: its template \<open>t\<close>, with \<open>{}\<close> for each
  interpolated expression, and the values of the expressions.
\<close>

fun nat_digits :: "nat \<Rightarrow> string" where
  "nat_digits n = (if n < 10 then [char_of (48 + n)] else nat_digits (n div 10) @ [char_of (48 + n mod 10)])"

declare nat_digits.simps [simp del]

definition py_str_int :: "int \<Rightarrow> string" where
  "py_str_int i = (if i < 0 then CHR ''-'' # nat_digits (nat (- i)) else nat_digits (nat i))"

section \<open>The hierarchy\<close>

datatype error_class =
    AppError | AuthenticationError | InvalidTokenError | TwoFactorRequiredError
  | AccountLockedError | PermissionDeniedError | NotFoundError | ConflictError
  | ValidationError | RateLimitError | EncryptionError | ExchangeError
  | ExchangeUnavailableError | UnsupportedExchangeError | LiveTradingDisabledError
  | InsufficientBalanceError | RiskLimitError | CircuitOpenError

fun parent_class :: "error_class \<Rightarrow> error_class option" where
  "parent_class AppError = None"
| "parent_class InvalidTokenError = Some AuthenticationError"
| "parent_class TwoFactorRequiredError = Some AuthenticationError"
| "parent_class ExchangeUnavailableError = Some ExchangeError"
| "parent_class CircuitOpenError = Some ExchangeUnavailableError"
| "parent_class _ = Some AppError"

fun class_depth :: "error_class \<Rightarrow> nat" where
  "class_depth AppError = 0"
| "class_depth InvalidTokenError = 2"
| "class_depth TwoFactorRequiredError = 2"
| "class_depth ExchangeUnavailableError = 2"
| "class_depth CircuitOpenError = 3"
| "class_depth _ = 1"

function subclass_of :: "error_class \<Rightarrow> error_class \<Rightarrow> bool" where
  "subclass_of c d = (c = d \<or> (case parent_class c of None \<Rightarrow> False | Some p \<Rightarrow> subclass_of p d))"
  by pat_completeness auto
termination
proof (relation "measure (\<lambda>(c, d). class_depth c)", goal_cases)
  case (2 c d p)
  then show ?case by (cases c) auto
qed simp

declare subclass_of.simps [simp del]

fun status_code :: "error_class \<Rightarrow> int" where
  "status_code AppError = 500"
| "status_code AuthenticationError = 401"
| "status_code InvalidTokenError = 401"
| "status_code TwoFactorRequiredError = 401"
| "status_code AccountLockedError = 429"
| "status_code PermissionDeniedError = 403"
| "status_code NotFoundError = 404"
| "status_code ConflictError = 409"
| "status_code ValidationError = 422"
| "status_code RateLimitError = 429"
| "status_code EncryptionError = 500"
| "status_code ExchangeError = 502"
| "status_code ExchangeUnavailableError = 503"
| "status_code UnsupportedExchangeError = 400"
| "status_code LiveTradingDisabledError = 403"
| "status_code InsufficientBalanceError = 400"
| "status_code RiskLimitError = 400"
| "status_code CircuitOpenError = 503"

fun error_code :: "error_class \<Rightarrow> string" where
  "error_code AppError = ''internal_error''"
| "error_code AuthenticationError = ''authentication_error''"
| "error_code InvalidTokenError = ''invalid_token''"
| "error_code TwoFactorRequiredError = ''two_factor_required''"
| "error_code AccountLockedError = ''account_locked''"
| "error_code PermissionDeniedError = ''permission_denied''"
| "error_code NotFoundError = ''not_found''"
| "error_code ConflictError = ''conflict''"
| "error_code ValidationError = ''validation_error''"
| "error_code RateLimitError = ''rate_limited''"
| "error_code EncryptionError = ''encryption_error''"
| "error_code ExchangeError = ''exchange_error''"
| "error_code ExchangeUnavailableError = ''exchange_unavailable''"
| "error_code UnsupportedExchangeError = ''unsupported_exchange''"
| "error_code LiveTradingDisabledError = ''live_trading_disabled''"
| "error_code InsufficientBalanceError = ''insufficient_balance''"
| "error_code RiskLimitError = ''risk_limit_exceeded''"
| "error_code CircuitOpenError = ''circuit_open''"

fun default_message :: "error_class \<Rightarrow> string" where
  "default_message AppError = ''An unexpected error occurred.''"
| "default_message AuthenticationError = ''Authentication failed.''"
| "default_message InvalidTokenError = ''The provided token is invalid or expired.''"
| "default_message TwoFactorRequiredError = ''A valid two-factor authentication code is required.''"
| "default_message AccountLockedError = ''Too many failed attempts. This account is temporarily locked.''"
| "default_message PermissionDeniedError = ''You do not have permission to perform this action.''"
| "default_message NotFoundError = ''The requested resource was not found.''"
| "default_message ConflictError = ''The request conflicts with the current state.''"
| "default_message ValidationError = ''The request payload failed validation.''"
| "default_message RateLimitError = ''Too many requests. Please slow down.''"
| "default_message EncryptionError = ''Failed to encrypt or decrypt sensitive data.''"
| "default_message ExchangeError = ''The upstream exchange returned an error.''"
| "default_message ExchangeUnavailableError = ''The exchange is currently unavailable.''"
| "default_message UnsupportedExchangeError = ''The requested exchange is not supported.''"
| "default_message LiveTradingDisabledError =
     ''Live trading is disabled by server policy. Orders are simulated (paper trading) until an operator explicitly enables live trading.''"
| "default_message InsufficientBalanceError = ''Insufficient balance for the requested operation.''"
| "default_message RiskLimitError = ''The order violates a configured risk limit.''"
| "default_message CircuitOpenError = ''The circuit breaker is open for this exchange; try again shortly.''"

record app_error =
  err_class :: error_class
  err_message :: pyval
  err_details :: "(string \<times> pyval) list"

text \<open>\<^verbatim>\<open>AppError.__init__\<close>: an absent or empty message becomes the class default.\<close>

definition mk_error :: "error_class \<Rightarrow> pyval option \<Rightarrow> (string \<times> pyval) list \<Rightarrow> app_error" where
  "mk_error c m d =
     \<lparr>err_class = c,
      err_message = (case m of
          None \<Rightarrow> VStr (default_message c)
        | Some v \<Rightarrow> (if v = VStr [] then VStr (default_message c) else v)),
      err_details = d\<rparr>"

definition to_dict :: "app_error \<Rightarrow> pyval" where
  "to_dict e =
     VDict [(''error'', VDict
       ([(''code'', VStr (error_code (err_class e))), (''message'', err_message e)]
        @ (if err_details e = [] then [] else [(''details'', VDict (err_details e))])))]"

datatype exn = AppExn app_error | PyExn string string

abbreviation raise_app :: "error_class \<Rightarrow> string \<Rightarrow> pyval list \<Rightarrow> exn" where
  "raise_app c t args \<equiv> AppExn (mk_error c (Some (VFmt t args)) [])"

abbreviation is_app :: "error_class \<Rightarrow> exn \<Rightarrow> bool" where
  "is_app c x \<equiv> (case x of AppExn e \<Rightarrow> subclass_of (err_class e) c | PyExn _ _ \<Rightarrow> False)"

section \<open>Exception handlers\<close>

record response =
  resp_status :: int
  resp_body :: pyval
  resp_headers :: "(string \<times> string) list"

text \<open>
  \<^verbatim>\<open>int(retry_after)\<close> of the detail: integers stay, numbers truncate toward zero; the
  service only ever stores an integer there.
\<close>

definition py_int_of :: "pyval \<Rightarrow> int option" where
  "py_int_of v = (case v of
       VInt i \<Rightarrow> Some i
     | VNum q \<Rightarrow> Some (if 0 \<le> q then \<lfloor>q\<rfloor> else \<lceil>q\<rceil>)
     | VBool b \<Rightarrow> Some (if b then 1 else 0)
     | _ \<Rightarrow> None)"

definition handle_app_error :: "app_error \<Rightarrow> response" where
  "handle_app_error e =
     \<lparr>resp_status = status_code (err_class e),
      resp_body = to_dict e,
      resp_headers = (case map_of (err_details e) ''retry_after'' of
          None \<Rightarrow> []
        | Some v \<Rightarrow> (case py_int_of v of None \<Rightarrow> [] | Some i \<Rightarrow> [(''Retry-After'', py_str_int i)]))\<rparr>"

definition handle_unexpected :: "string \<Rightarrow> string \<Rightarrow> response" where
  "handle_unexpected name text =
     \<lparr>resp_status = 500,
      resp_body = VDict [(''error'', VDict
        [(''code'', VStr ''internal_error''), (''message'', VStr ''An unexpected error occurred.'')])],
      resp_headers = []\<rparr>"

text \<open>
  The errors of a failed request validation are the framework's; here the list names what failed.
\<close>

definition handle_validation :: "string list \<Rightarrow> response" where
  "handle_validation errors =
     \<lparr>resp_status = 422,
      resp_body = VDict [(''error'', VDict
        [(''code'', VStr ''validation_error''), (''message'', VStr ''Request validation failed.''),
         (''details'', VDict [(''errors'', VList (map VStr errors))])])],
      resp_headers = []\<rparr>"

definition handle_http :: "int \<Rightarrow> string \<Rightarrow> response" where
  "handle_http status detail =
     \<lparr>resp_status = status,
      resp_body = VDict [(''error'', VDict [(''code'', VStr ''http_error''), (''message'', VStr detail)])],
      resp_headers = []\<rparr>"

definition handle_exception :: "exn \<Rightarrow> response" where
  "handle_exception x = (case x of AppExn e \<Rightarrow> handle_app_error e | PyExn n t \<Rightarrow> handle_unexpected n t)"

section \<open>Properties\<close>

lemma class_depth_parent: "parent_class c = Some p \<Longrightarrow> class_depth p < class_depth c"
  by (cases c) auto

lemma subclass_refl [simp]: "subclass_of c c"
  by (simp add: subclass_of.simps)

lemma subclass_root: "subclass_of c AppError"
  by (cases c) (simp_all add: subclass_of.simps)

lemma subclass_inherits_status:
  "subclass_of c AuthenticationError \<Longrightarrow> status_code c = 401"
  by (cases c) (simp_all add: subclass_of.simps)

lemma subclass_exchange: "subclass_of c ExchangeError \<longleftrightarrow>
    c = ExchangeError \<or> c = ExchangeUnavailableError \<or> c = CircuitOpenError"
  by (cases c) (simp_all add: subclass_of.simps)

lemma subclass_auth: "subclass_of c AuthenticationError \<longleftrightarrow>
    c = AuthenticationError \<or> c = InvalidTokenError \<or> c = TwoFactorRequiredError"
  by (cases c) (simp_all add: subclass_of.simps)

lemma mk_error_class [simp]: "err_class (mk_error c m d) = c"
  and mk_error_details [simp]: "err_details (mk_error c m d) = d"
  by (simp_all add: mk_error_def)

lemma error_code_inj: "error_code c = error_code d \<longleftrightarrow> c = d"
  by (cases c; cases d) simp_all

end
