(* ===== verification/Models.thy ===== *)
theory Models
  imports Errors
begin

text \<open>
  The data of the trading domain: the enumerations of \<^verbatim>\<open>app/trading/enums.py\<close> with their
  string values, the transfer objects of \<^verbatim>\<open>app/exchange/models.py\<close>, the candle of
  \<^verbatim>\<open>app/analytics/models.py\<close> and the paper ledger of
  \<^verbatim>\<open>app/exchange/paper_store.py\<close>. Each \<^verbatim>\<open>StrEnum\<close> has a value function and the
  constructor-by-value that raises (\<open>None\<close>) for an unknown string.
\<close>

section \<open>Enumerations\<close>

datatype order_side = Buy | Sell

fun side_value :: "order_side \<Rightarrow> string" where
  "side_value Buy = ''buy''"
| "side_value Sell = ''sell''"

datatype order_type = Market | Limit | Stop | Stop_limit | Take_profit | Trailing_stop

fun type_value :: "order_type \<Rightarrow> string" where
  "type_value Market = ''market''"
| "type_value Limit = ''limit''"
| "type_value Stop = ''stop''"
| "type_value Stop_limit = ''stop_limit''"
| "type_value Take_profit = ''take_profit''"
| "type_value Trailing_stop = ''trailing_stop''"

datatype time_in_force = GTC | IOC | FOK

fun tif_value :: "time_in_force \<Rightarrow> string" where
  "tif_value GTC = ''GTC''"
| "tif_value IOC = ''IOC''"
| "tif_value FOK = ''FOK''"

datatype order_status = Pending | Open | Partially_filled | Filled | Canceled | Rejected | Expired

fun status_value :: "order_status \<Rightarrow> string" where
  "status_value Pending = ''pending''"
| "status_value Open = ''open''"
| "status_value Partially_filled = ''partially_filled''"
| "status_value Filled = ''filled''"
| "status_value Canceled = ''canceled''"
| "status_value Rejected = ''rejected''"
| "status_value Expired = ''expired''"

datatype position_side = Long | Short | Both

fun position_side_value :: "position_side \<Rightarrow> string" where
  "position_side_value Long = ''long''"
| "position_side_value Short = ''short''"
| "position_side_value Both = ''both''"

datatype margin_mode = Isolated | Cross

fun margin_mode_value :: "margin_mode \<Rightarrow> string" where
  "margin_mode_value Isolated = ''isolated''"
| "margin_mode_value Cross = ''cross''"

text \<open>\<^verbatim>\<open>E(value)\<close>: the member with this value.\<close>

definition enum_of :: "('e \<Rightarrow> string) \<Rightarrow> 'e list \<Rightarrow> string \<Rightarrow> 'e option" where
  "enum_of val members v = find (\<lambda>e. val e = v) members"

definition side_of :: "string \<Rightarrow> order_side option" where
  "side_of = enum_of side_value [Buy, Sell]"

definition type_of :: "string \<Rightarrow> order_type option" where
  "type_of = enum_of type_value [Market, Limit, Stop, Stop_limit, Take_profit, Trailing_stop]"

definition status_of :: "string \<Rightarrow> order_status option" where
  "status_of = enum_of status_value
     [Pending, Open, Partially_filled, Filled, Canceled, Rejected, Expired]"

definition position_side_of :: "string \<Rightarrow> position_side option" where
  "position_side_of = enum_of position_side_value [Long, Short, Both]"

definition margin_mode_of :: "string \<Rightarrow> margin_mode option" where
  "margin_mode_of = enum_of margin_mode_value [Isolated, Cross]"

lemma side_of_value [simp]: "side_of (side_value s) = Some s"
  by (cases s) (simp_all add: side_of_def enum_of_def)

lemma type_of_value [simp]: "type_of (type_value t) = Some t"
  by (cases t) (simp_all add: type_of_def enum_of_def)

lemma status_of_value [simp]: "status_of (status_value s) = Some s"
  by (cases s) (simp_all add: status_of_def enum_of_def)

lemma status_value_inj [simp]: "status_value s = status_value t \<longleftrightarrow> s = t"
  by (metis option.inject status_of_value)

section \<open>Transfer objects\<close>

record ticker =
  tk_symbol :: string
  tk_last :: decimal
  tk_bid :: "decimal option"
  tk_ask :: "decimal option"
  tk_high :: "decimal option"
  tk_low :: "decimal option"
  tk_base_volume :: "decimal option"
  tk_timestamp :: "int option"

record book_level =
  lvl_price :: decimal
  lvl_amount :: decimal

record order_book =
  ob_symbol :: string
  ob_bids :: "book_level list"
  ob_asks :: "book_level list"
  ob_timestamp :: "int option"

definition spread :: "order_book \<Rightarrow> decimal option" where
  "spread ob = (case (ob_bids ob, ob_asks ob) of
       (b # _, a # _) \<Rightarrow> Some (dsub (lvl_price a) (lvl_price b))
     | _ \<Rightarrow> None)"

record balance =
  bal_asset :: string
  bal_free :: decimal
  bal_used :: decimal

definition bal_total :: "balance \<Rightarrow> decimal" where
  "bal_total b = dadd (bal_free b) (bal_used b)"

record order_request =
  rq_symbol :: string
  rq_side :: order_side
  rq_type :: order_type
  rq_amount :: decimal
  rq_price :: "decimal option"
  rq_stop_price :: "decimal option"
  rq_time_in_force :: time_in_force
  rq_reduce_only :: bool
  rq_post_only :: bool
  rq_leverage :: "int option"
  rq_client_order_id :: "string option"
  rq_params :: "(string \<times> pyval) list"

record order =
  o_id :: string
  o_symbol :: string
  o_side :: order_side
  o_type :: order_type
  o_status :: order_status
  o_amount :: decimal
  o_filled :: decimal
  o_price :: "decimal option"
  o_average :: "decimal option"
  o_timestamp :: "int option"
  o_client_order_id :: "string option"
  o_fee :: decimal
  o_is_paper :: bool

definition remaining :: "order \<Rightarrow> decimal" where
  "remaining o' = dsub (o_amount o') (o_filled o')"

record position =
  ps_symbol :: string
  ps_side :: position_side
  ps_contracts :: decimal
  ps_entry_price :: decimal
  ps_mark_price :: "decimal option"
  ps_leverage :: int
  ps_margin_mode :: margin_mode
  ps_unrealized_pnl :: decimal
  ps_liquidation_price :: "decimal option"

record exchange_status =
  st_exchange_id :: string
  st_ok :: bool
  st_latency_ms :: "pyfloat option"
  st_message :: "pyval option"

record candle =
  cd_timestamp :: int
  cd_open :: pyfloat
  cd_high :: pyfloat
  cd_low :: pyfloat
  cd_close :: pyfloat
  cd_volume :: pyfloat

text \<open>A ccxt row \<open>[ts, o, h, l, c, v]\<close>; unpacking fewer than six values raises.\<close>

definition py_trunc :: "rat \<Rightarrow> int" where
  "py_trunc q = (if 0 \<le> q then \<lfloor>q\<rfloor> else \<lceil>q\<rceil>)"

fun candle_from_ccxt :: "rat list \<Rightarrow> exn + candle" where
  "candle_from_ccxt (ts # op # h # l # c # v # rest) =
     Inr \<lparr>cd_timestamp = py_trunc ts, cd_open = fl op, cd_high = fl h, cd_low = fl l,
          cd_close = fl c, cd_volume = fl v\<rparr>"
| "candle_from_ccxt row = Inl (PyExn ''ValueError'' ''not enough values to unpack'')"

section \<open>The paper ledger\<close>

record paper_ledger =
  lg_quote_asset :: string
  lg_starting_balance :: decimal
  lg_balances :: "(string, balance) dict"
  lg_orders :: "(string, order) dict"

text \<open>\<^verbatim>\<open>PaperLedger.__post_init__\<close>: the quote balance is seeded when it is missing.\<close>

definition new_paper_ledger ::
    "string \<Rightarrow> decimal \<Rightarrow> (string, balance) dict \<Rightarrow> (string, order) dict \<Rightarrow> paper_ledger" where
  "new_paper_ledger quote start bals ords =
     \<lparr>lg_quote_asset = quote, lg_starting_balance = start,
      lg_balances = (if dict_get bals quote = None
        then dict_set quote \<lparr>bal_asset = quote, bal_free = start, bal_used = 0\<rparr> bals
        else bals),
      lg_orders = ords\<rparr>"

end
