(* ===== verification/Security.thy ===== *)
theory Security
  imports Settings
begin

text \<open>
  The security primitives: the secret cipher and the password hasher
  (\<^verbatim>\<open>app/security/crypto.py\<close>), role-based permissions (\<^verbatim>\<open>app/security/rbac.py\<close>),
  one-time passwords (\<^verbatim>\<open>app/security/totp.py\<close>) and signed tokens
  (\<^verbatim>\<open>app/security/tokens.py\<close>). The libraries underneath are parameters: a record
  \<open>fernet_lib\<close> for \<^verbatim>\<open>cryptography.fernet\<close>, \<open>argon_lib\<close> for
  \<^verbatim>\<open>argon2\<close>, \<open>otp_lib\<close> for \<^verbatim>\<open>pyotp\<close> and \<open>jwt_lib\<close> for
  \<^verbatim>\<open>jwt\<close>; the documented behaviour of Fernet that properties use is the predicate
  \<open>fernet_laws\<close>. Randomness (initialisation vectors, salts, identifiers) is passed in.
\<close>

section \<open>Secret cipher\<close>

record fernet_lib =
  fn_valid_key :: "string \<Rightarrow> bool"
  fn_encrypt :: "string list \<Rightarrow> string \<Rightarrow> string \<Rightarrow> string"
  fn_decrypt :: "string list \<Rightarrow> string \<Rightarrow> string option"
  fn_rotate :: "string list \<Rightarrow> string \<Rightarrow> string \<Rightarrow> string option"

record secret_cipher =
  sc_keys :: "string list"

definition encryption_error :: "string \<Rightarrow> exn" where
  "encryption_error m = raise_app EncryptionError m []"

definition new_secret_cipher :: "fernet_lib \<Rightarrow> string list \<Rightarrow> exn + secret_cipher" where
  "new_secret_cipher fe keys =
     (if keys = [] then Inl (encryption_error ''SecretCipher requires at least one key.'')
      else if \<not> list_all (fn_valid_key fe) keys then Inl (encryption_error ''Invalid encryption key material.'')
      else Inr \<lparr>sc_keys = keys\<rparr>)"

definition cipher_encrypt :: "fernet_lib \<Rightarrow> secret_cipher \<Rightarrow> string \<Rightarrow> string option \<Rightarrow> exn + string" where
  "cipher_encrypt fe c nonce plaintext =
     (case plaintext of
        None \<Rightarrow> Inl (encryption_error ''Cannot encrypt None.'')
      | Some p \<Rightarrow> Inr (fn_encrypt fe (sc_keys c) nonce p))"

definition cipher_decrypt :: "fernet_lib \<Rightarrow> secret_cipher \<Rightarrow> string \<Rightarrow> exn + string" where
  "cipher_decrypt fe c token =
     (case fn_decrypt fe (sc_keys c) token of
        None \<Rightarrow> Inl (encryption_error ''Failed to decrypt secret (bad key or corrupt data).'')
      | Some p \<Rightarrow> Inr p)"

definition cipher_rotate :: "fernet_lib \<Rightarrow> secret_cipher \<Rightarrow> string \<Rightarrow> string \<Rightarrow> exn + string" where
  "cipher_rotate fe c nonce token =
     (case fn_rotate fe (sc_keys c) nonce token of
        None \<Rightarrow> Inl (encryption_error ''Failed to rotate secret.'')
      | Some t \<Rightarrow> Inr t)"

text \<open>\<open>generated\<close> is the key that \<^verbatim>\<open>generate_master_key\<close> draws.\<close>

definition get_secret_cipher :: "fernet_lib \<Rightarrow> settings \<Rightarrow> string \<Rightarrow> exn + secret_cipher" where
  "get_secret_cipher fe st generated =
     (if encryption_keys st = []
      then if is_production st
        then Inl (encryption_error ''MASTER_ENCRYPTION_KEY is required in production.'')
        else new_secret_cipher fe [generated]
      else new_secret_cipher fe (encryption_keys st))"

text \<open>
  What Fernet documents: a token is never empty, one made under a key is readable with any key list containing it, and
  rotation re-encrypts the content under the first key.
\<close>

definition fernet_laws :: "fernet_lib \<Rightarrow> bool" where
  "fernet_laws fe \<longleftrightarrow>
     (\<forall>ks n p. fn_encrypt fe ks n p \<noteq> [])
     \<and> (\<forall>ks ks' n p. ks \<noteq> [] \<longrightarrow> hd ks \<in> set ks' \<longrightarrow> fn_decrypt fe ks' (fn_encrypt fe ks n p) = Some p)
     \<and> (\<forall>ks n t. fn_rotate fe ks n t = map_option (fn_encrypt fe ks n) (fn_decrypt fe ks t))"

section \<open>Password hasher\<close>

record argon_lib =
  ar_hash :: "string \<Rightarrow> string \<Rightarrow> string"
  ar_verify :: "string \<Rightarrow> string \<Rightarrow> exn + unit"
  ar_needs_rehash :: "string \<Rightarrow> bool"

definition hasher_hash :: "argon_lib \<Rightarrow> string \<Rightarrow> string \<Rightarrow> string" where
  "hasher_hash al salt password = ar_hash al salt password"

definition hasher_verify :: "argon_lib \<Rightarrow> string \<Rightarrow> string \<Rightarrow> exn + bool" where
  "hasher_verify al hashed password =
     (case ar_verify al hashed password of
        Inr _ \<Rightarrow> Inr True
      | Inl (PyExn n t) \<Rightarrow>
          if n = ''VerifyMismatchError'' \<or> n = ''InvalidHashError'' then Inr False else Inl (PyExn n t)
      | Inl e \<Rightarrow> Inl e)"

definition hasher_needs_rehash :: "argon_lib \<Rightarrow> string \<Rightarrow> bool" where
  "hasher_needs_rehash al hashed = ar_needs_rehash al hashed"

section \<open>Permissions\<close>

datatype role = Admin | Trader | Viewer

fun role_value :: "role \<Rightarrow> string" where
  "role_value Admin = ''admin''"
| "role_value Trader = ''trader''"
| "role_value Viewer = ''viewer''"

definition role_of :: "string \<Rightarrow> role option" where
  "role_of v = find (\<lambda>r. role_value r = v) [Admin, Trader, Viewer]"

datatype permission =
    Account_read | Account_write | Market_read | Portfolio_read
  | Order_read | Order_create | Order_cancel | Admin_manage

fun permission_value :: "permission \<Rightarrow> string" where
  "permission_value Account_read = ''account:read''"
| "permission_value Account_write = ''account:write''"
| "permission_value Market_read = ''market:read''"
| "permission_value Portfolio_read = ''portfolio:read''"
| "permission_value Order_read = ''order:read''"
| "permission_value Order_create = ''order:create''"
| "permission_value Order_cancel = ''order:cancel''"
| "permission_value Admin_manage = ''admin:manage''"

definition viewer_permissions :: "permission set" where
  "viewer_permissions = {Market_read, Portfolio_read, Order_read, Account_read}"

definition trader_permissions :: "permission set" where
  "trader_permissions = viewer_permissions \<union> {Account_write, Order_create, Order_cancel}"

definition admin_permissions :: "permission set" where
  "admin_permissions = trader_permissions \<union> {Admin_manage}"

fun role_permissions :: "role \<Rightarrow> permission set" where
  "role_permissions Viewer = viewer_permissions"
| "role_permissions Trader = trader_permissions"
| "role_permissions Admin = admin_permissions"

definition permissions_for :: "string \<Rightarrow> permission set" where
  "permissions_for r = (case role_of r of None \<Rightarrow> {} | Some e \<Rightarrow> role_permissions e)"

definition has_permission :: "string \<Rightarrow> permission \<Rightarrow> bool" where
  "has_permission r p \<longleftrightarrow> p \<in> permissions_for r"

lemma role_of_value [simp]: "role_of (role_value r) = Some r"
  by (cases r) (simp_all add: role_of_def)

section \<open>One-time passwords\<close>

record otp_lib =
  ot_at :: "string \<Rightarrow> int \<Rightarrow> string"
  ot_uri :: "string \<Rightarrow> string \<Rightarrow> string \<Rightarrow> string"
  ot_interval :: int

record totp_service =
  ts_issuer :: string
  ts_valid_window :: int

definition default_totp :: totp_service where
  "default_totp = \<lparr>ts_issuer = ''CryptoTradingHub'', ts_valid_window = 1\<rparr>"

definition provisioning_uri :: "otp_lib \<Rightarrow> totp_service \<Rightarrow> string \<Rightarrow> string \<Rightarrow> string" where
  "provisioning_uri ol ts secret account = ot_uri ol secret account (ts_issuer ts)"

text \<open>\<open>now\<close> is \<^verbatim>\<open>time.time()\<close>; the last matching step of the window is returned.\<close>

definition verify_counter :: "otp_lib \<Rightarrow> totp_service \<Rightarrow> string \<Rightarrow> string \<Rightarrow> rat \<Rightarrow> int option" where
  "verify_counter ol ts secret code now =
     (let code' = py_strip code
      in if \<not> py_isdigit code' then None
         else
           let current = (if 0 \<le> now then \<lfloor>now\<rfloor> else \<lceil>now\<rceil>)
           in foldl (\<lambda>matched offset.
                let t = current + offset * ot_interval ol
                in if ot_at ol secret t = code' then Some (t div ot_interval ol) else matched)
              None [- ts_valid_window ts..ts_valid_window ts])"

definition totp_verify :: "otp_lib \<Rightarrow> totp_service \<Rightarrow> string \<Rightarrow> string \<Rightarrow> rat \<Rightarrow> bool" where
  "totp_verify ol ts secret code now \<longleftrightarrow> verify_counter ol ts secret code now \<noteq> None"

section \<open>Tokens\<close>

datatype jwt_failure = Jwt_expired | Jwt_invalid | Jwt_other exn

record jwt_lib =
  jw_encode :: "(string \<times> pyval) list \<Rightarrow> string \<Rightarrow> string \<Rightarrow> string"
  jw_decode :: "string \<Rightarrow> string \<Rightarrow> string \<Rightarrow> rat \<Rightarrow> jwt_failure + (string \<times> pyval) list"

datatype token_type = Access | Refresh

fun token_type_value :: "token_type \<Rightarrow> string" where
  "token_type_value Access = ''access''"
| "token_type_value Refresh = ''refresh''"

record token_pair =
  tp_access_token :: string
  tp_refresh_token :: string
  tp_token_type :: string
  tp_expires_in :: int

record token_claims =
  tc_subject :: string
  tc_role :: string
  tc_token_type :: string
  tc_jti :: string
  tc_expires_at :: rat
  tc_issued_at :: rat
  tc_generation :: int

record token_service =
  tv_secret :: string
  tv_algorithm :: string
  tv_access_ttl :: rat
  tv_refresh_ttl :: rat

definition invalid_token :: "string \<Rightarrow> exn" where
  "invalid_token m = raise_app InvalidTokenError m []"

definition new_token_service :: "string \<Rightarrow> string \<Rightarrow> rat \<Rightarrow> rat \<Rightarrow> exn + token_service" where
  "new_token_service secret alg access_ttl refresh_ttl =
     (if secret = [] then Inl (invalid_token ''JWT secret is not configured.'')
      else Inr \<lparr>tv_secret = secret, tv_algorithm = alg, tv_access_ttl = access_ttl, tv_refresh_ttl = refresh_ttl\<rparr>)"

definition trunc :: "rat \<Rightarrow> int" where
  "trunc q = (if 0 \<le> q then \<lfloor>q\<rfloor> else \<lceil>q\<rceil>)"

definition token_payload :: "string \<Rightarrow> string \<Rightarrow> token_type \<Rightarrow> string \<Rightarrow> int \<Rightarrow> rat \<Rightarrow> rat \<Rightarrow> (string \<times> pyval) list" where
  "token_payload subject role ty jti generation now expires_at =
     [(''sub'', VStr subject), (''role'', VStr role), (''type'', VStr (token_type_value ty)),
      (''jti'', VStr jti), (''gen'', VInt generation), (''iat'', VInt (trunc now)),
      (''nbf'', VInt (trunc now)), (''exp'', VInt (trunc expires_at))]"

definition encode_token ::
    "jwt_lib \<Rightarrow> token_service \<Rightarrow> rat \<Rightarrow> string \<Rightarrow> string \<Rightarrow> string \<Rightarrow> token_type \<Rightarrow> rat \<Rightarrow> int \<Rightarrow> string \<times> rat" where
  "encode_token jl tv now jti subject role ty ttl generation =
     (jw_encode jl (token_payload subject role ty jti generation now (now + ttl)) (tv_secret tv) (tv_algorithm tv),
      now + ttl)"

text \<open>
  \<open>now\<close> is the time of issue and \<open>jtis\<close> the identifiers drawn for the access and
  the refresh token; the clock does not advance between the statements.
\<close>

definition issue_pair :: "jwt_lib \<Rightarrow> token_service \<Rightarrow> rat \<Rightarrow> string \<times> string \<Rightarrow> string \<Rightarrow> string \<Rightarrow> int \<Rightarrow> token_pair" where
  "issue_pair jl tv now jtis subject role generation =
     (let (access, access_exp) = encode_token jl tv now (fst jtis) subject role Access (tv_access_ttl tv) generation;
          (refresh, _) = encode_token jl tv now (snd jtis) subject role Refresh (tv_refresh_ttl tv) generation
      in \<lparr>tp_access_token = access, tp_refresh_token = refresh, tp_token_type = ''bearer'',
          tp_expires_in = trunc (access_exp - now)\<rparr>)"

definition payload_str :: "(string \<times> pyval) list \<Rightarrow> string \<Rightarrow> string option" where
  "payload_str p k = (case dict_get p k of Some (VStr s) \<Rightarrow> Some s | Some (VInt i) \<Rightarrow> Some (py_str_int i) | _ \<Rightarrow> None)"

definition payload_num :: "(string \<times> pyval) list \<Rightarrow> string \<Rightarrow> rat option" where
  "payload_num p k = (case dict_get p k of Some (VInt i) \<Rightarrow> Some (of_int i) | Some (VNum q) \<Rightarrow> Some q | _ \<Rightarrow> None)"

definition read_claims :: "(string \<times> pyval) list \<Rightarrow> token_claims option" where
  "read_claims p =
     (case (payload_str p ''sub'', payload_str p ''type'', payload_str p ''jti'', payload_num p ''exp'', payload_num p ''iat'') of
        (Some s, Some ty, Some j, Some ex, Some ia) \<Rightarrow>
          Some \<lparr>tc_subject = s,
                tc_role = (case payload_str p ''role'' of None \<Rightarrow> ''user'' | Some r \<Rightarrow> r),
                tc_token_type = ty, tc_jti = j, tc_expires_at = ex, tc_issued_at = ia,
                tc_generation = (case payload_num p ''gen'' of None \<Rightarrow> 0 | Some g \<Rightarrow> trunc g)\<rparr>
      | _ \<Rightarrow> None)"

text \<open>
  The signature protects the payload, so the model reads payloads of the shape the service writes;
  any other shape makes one of the conversions raise.
\<close>

definition decode_token ::
    "jwt_lib \<Rightarrow> token_service \<Rightarrow> rat \<Rightarrow> string \<Rightarrow> token_type option \<Rightarrow> exn + token_claims" where
  "decode_token jl tv now token expected =
     (case jw_decode jl token (tv_secret tv) (tv_algorithm tv) now of
        Inl Jwt_expired \<Rightarrow> Inl (invalid_token ''Token has expired.'')
      | Inl Jwt_invalid \<Rightarrow> Inl (invalid_token ''Token is invalid.'')
      | Inl (Jwt_other e) \<Rightarrow> Inl e
      | Inr p \<Rightarrow>
          (case expected of
             Some ty \<Rightarrow>
               if dict_get p ''type'' \<noteq> Some (VStr (token_type_value ty))
               then Inl (raise_app InvalidTokenError ''Expected a {} token.'' [VStr (token_type_value ty)])
               else (case read_claims p of None \<Rightarrow> Inl (PyExn ''ValueError'' ''claims'') | Some c \<Rightarrow> Inr c)
           | None \<Rightarrow> (case read_claims p of None \<Rightarrow> Inl (PyExn ''ValueError'' ''claims'') | Some c \<Rightarrow> Inr c)))"

definition get_token_service :: "settings \<Rightarrow> string \<Rightarrow> exn + token_service" where
  "get_token_service st generated =
     (if jwt_secret_key st = []
      then if is_production st
        then Inl (invalid_token ''JWT_SECRET_KEY is required in production.'')
        else new_token_service generated (jwt_algorithm st)
          (of_int (jwt_access_ttl_minutes st * 60)) (of_int (jwt_refresh_ttl_days st * 86400))
      else new_token_service (jwt_secret_key st) (jwt_algorithm st)
          (of_int (jwt_access_ttl_minutes st * 60)) (of_int (jwt_refresh_ttl_days st * 86400)))"

text \<open>
  What the JWT library documents, for the payloads the service writes: decoding with the same secret
  checks the expiry and not-before times and returns the payload.
\<close>

definition jwt_laws :: "jwt_lib \<Rightarrow> bool" where
  "jwt_laws jl \<longleftrightarrow>
     (\<forall>s r ty j g iat ex sec alg now.
        jw_decode jl (jw_encode jl (token_payload s r ty j g iat ex) sec alg) sec alg now =
          (if of_int (trunc ex) \<le> now then Inl Jwt_expired
           else if now < of_int (trunc iat) then Inl Jwt_invalid
           else Inr (token_payload s r ty j g iat ex)))"

section \<open>Lemmas\<close>

lemma cipher_roundtrip:
  assumes "fernet_laws fe" "sc_keys c \<noteq> []" "hd (sc_keys c) \<in> set (sc_keys c')"
    and "cipher_encrypt fe c n (Some p) = Inr t"
  shows "cipher_decrypt fe c' t = Inr p"
  using assms by (auto simp: cipher_encrypt_def cipher_decrypt_def fernet_laws_def)

lemma new_cipher_keys: "new_secret_cipher fe keys = Inr c \<Longrightarrow> sc_keys c = keys \<and> keys \<noteq> []"
  by (auto simp: new_secret_cipher_def split: if_splits)

lemma foldl_last_match:
  "foldl (\<lambda>m x. if P x then Some (f x) else m) acc xs = Some y \<Longrightarrow>
     acc = Some y \<or> (\<exists>x \<in> set xs. P x \<and> f x = y)"
  by (induction xs arbitrary: acc) (fastforce split: if_splits)+

lemma verify_counter_sound:
  assumes "verify_counter ol ts secret code now = Some k" "0 \<le> now"
  shows "\<exists>d. - ts_valid_window ts \<le> d \<and> d \<le> ts_valid_window ts
     \<and> ot_at ol secret (\<lfloor>now\<rfloor> + d * ot_interval ol) = py_strip code
     \<and> k = (\<lfloor>now\<rfloor> + d * ot_interval ol) div ot_interval ol"
  using assms
  by (auto simp: verify_counter_def Let_def split: if_splits dest!: foldl_last_match)

lemma token_payload_reads:
  "read_claims (token_payload s r ty j g now ex) =
     Some \<lparr>tc_subject = s, tc_role = r, tc_token_type = token_type_value ty, tc_jti = j,
           tc_expires_at = of_int (trunc ex), tc_issued_at = of_int (trunc now), tc_generation = g\<rparr>"
  by (simp add: read_claims_def token_payload_def payload_str_def payload_num_def trunc_def)

lemma decode_encoded:
  assumes "jwt_laws jl"
  shows "decode_token jl tv now (jw_encode jl (token_payload s r ty j g iat ex) (tv_secret tv) (tv_algorithm tv)) (Some ty')
     = (if of_int (trunc ex) \<le> now then Inl (invalid_token ''Token has expired.'')
        else if now < of_int (trunc iat) then Inl (invalid_token ''Token is invalid.'')
        else if ty \<noteq> ty' then Inl (raise_app InvalidTokenError ''Expected a {} token.'' [VStr (token_type_value ty')])
        else Inr \<lparr>tc_subject = s, tc_role = r, tc_token_type = token_type_value ty, tc_jti = j,
              tc_expires_at = of_int (trunc ex), tc_issued_at = of_int (trunc iat), tc_generation = g\<rparr>)"
proof -
  have "dict_get (token_payload s r ty j g iat ex) ''type'' = Some (VStr (token_type_value ty))"
    by (simp add: token_payload_def)
  moreover have "token_type_value ty = token_type_value ty' \<longleftrightarrow> ty = ty'" by (cases ty; cases ty') simp_all
  ultimately show ?thesis
    using assms by (auto simp: decode_token_def jwt_laws_def token_payload_reads)
qed

section \<open>Properties\<close>


text \<open>A stand-in for Fernet in examples: the token spells out the key, then the text.\<close>

fun ex_open :: "string \<Rightarrow> (string \<times> string) option" where
  "ex_open (CHR ''k'' # c # t) = map_option (\<lambda>(k, p). (c # k, p)) (ex_open t)"
| "ex_open (CHR ''t'' # p) = Some ([], p)"
| "ex_open _ = None"

definition ex_seal :: "string \<Rightarrow> string \<Rightarrow> string" where
  "ex_seal k p = concat (map (\<lambda>c. [CHR ''k'', c]) k) @ CHR ''t'' # p"

definition ex_unseal :: "string list \<Rightarrow> string \<Rightarrow> string option" where
  "ex_unseal ks t = (case ex_open t of None \<Rightarrow> None | Some (k, p) \<Rightarrow> if k \<in> set ks then Some p else None)"

definition ex_fernet :: fernet_lib where
  "ex_fernet = \<lparr>fn_valid_key = (\<lambda>k. k \<noteq> []), fn_encrypt = (\<lambda>ks n p. ex_seal (hd ks) p),
     fn_decrypt = ex_unseal, fn_rotate = (\<lambda>ks n t. map_option (ex_seal (hd ks)) (ex_unseal ks t))\<rparr>"

lemma ex_open_seal [simp]: "ex_open (ex_seal k p) = Some (k, p)" "ex_seal k p \<noteq> []"
  by (induction k) (simp_all add: ex_seal_def)

lemma ex_fernet_laws: "fernet_laws ex_fernet"
  by (simp add: fernet_laws_def ex_fernet_def ex_unseal_def)


text \<open>A role grants exactly the permissions of its level: the levels are strictly nested, only an
  administrator may manage, a viewer may not write or trade, and an unknown role grants nothing.\<close>

theorem roles_strictly_nested:
  "permissions_for ''viewer'' \<subset> permissions_for ''trader'' \<and> permissions_for ''trader'' \<subset> permissions_for ''admin''
   \<and> (has_permission r Admin_manage \<longleftrightarrow> r = ''admin'')
   \<and> (has_permission r Order_create \<longleftrightarrow> r = ''admin'' \<or> r = ''trader'')
   \<and> (has_permission r Order_read \<longleftrightarrow> r = ''admin'' \<or> r = ''trader'' \<or> r = ''viewer'')"
  by (auto simp: permissions_for_def role_of_def has_permission_def admin_permissions_def
      trader_permissions_def viewer_permissions_def split: if_splits)

section \<open>Stand-ins for the other libraries in examples\<close>

text \<open>Passwords hashed by a prefix, one-time codes that spell the time step, tokens that spell the payload.\<close>

definition ex_argon :: argon_lib where
  "ex_argon = \<lparr>ar_hash = (\<lambda>salt p. ''h:'' @ p),
     ar_verify = (\<lambda>h p. if h = ''h:'' @ p then Inr () else Inl (PyExn ''VerifyMismatchError'' [])),
     ar_needs_rehash = (\<lambda>_. False)\<rparr>"

definition ex_otp :: otp_lib where
  "ex_otp = \<lparr>ot_at = (\<lambda>secret t. nat_digits (nat (t div 30))), ot_uri = (\<lambda>s a i. s @ a @ i), ot_interval = 30\<rparr>"

definition ex_pack :: "string list \<Rightarrow> string" where
  "ex_pack ss = concat (map (\<lambda>s. concat (map (\<lambda>c. [CHR ''k'', c]) s) @ ''t'') ss)"

fun ex_unpack :: "string \<Rightarrow> string list option" where
  "ex_unpack [] = Some []"
| "ex_unpack (CHR ''k'' # c # t) = (case ex_unpack t of Some (s # ss) \<Rightarrow> Some ((c # s) # ss) | _ \<Rightarrow> None)"
| "ex_unpack (CHR ''t'' # t) = map_option (\<lambda>ss. [] # ss) (ex_unpack t)"
| "ex_unpack _ = None"

lemma ex_unpack_pack [simp]: "ex_unpack (ex_pack ss) = Some ss"
proof (induction ss)
  case (Cons s ss)
  have "ex_unpack (concat (map (\<lambda>c. [CHR ''k'', c]) s) @ ''t'' @ ex_pack ss) = Some (s # ss)"
    by (induction s) (simp_all add: Cons)
  then show ?case by (simp add: ex_pack_def)
qed (simp add: ex_pack_def)

definition ex_unary :: "int \<Rightarrow> string" where
  "ex_unary i = (if i < 0 then CHR ''-'' # replicate (nat (- i)) CHR ''1'' else replicate (nat i) CHR ''1'')"

definition ex_unary_val :: "string \<Rightarrow> int" where
  "ex_unary_val s = (case s of CHR ''-'' # t \<Rightarrow> - int (length t) | _ \<Rightarrow> int (length s))"

lemma ex_unary_val [simp]: "ex_unary_val (ex_unary i) = i"
  by (cases "nat i") (auto simp: ex_unary_def ex_unary_val_def)

definition ex_field :: "pyval \<Rightarrow> string" where
  "ex_field v = (case v of VStr s \<Rightarrow> s | VInt i \<Rightarrow> ex_unary i | _ \<Rightarrow> [])"

definition ex_jwt_decode :: "string \<Rightarrow> string \<Rightarrow> string \<Rightarrow> rat \<Rightarrow> jwt_failure + (string \<times> pyval) list" where
  "ex_jwt_decode token sec alg now =
     (case ex_unpack token of
        Some [sec', sub, role, ty, jti, gen, iat, nbf, ex] \<Rightarrow>
          if sec' \<noteq> sec then Inl Jwt_invalid
          else if of_int (ex_unary_val ex) \<le> now then Inl Jwt_expired
          else if now < of_int (ex_unary_val nbf) then Inl Jwt_invalid
          else Inr [(''sub'', VStr sub), (''role'', VStr role), (''type'', VStr ty), (''jti'', VStr jti),
            (''gen'', VInt (ex_unary_val gen)), (''iat'', VInt (ex_unary_val iat)),
            (''nbf'', VInt (ex_unary_val nbf)), (''exp'', VInt (ex_unary_val ex))]
      | _ \<Rightarrow> Inl Jwt_invalid)"

definition ex_jwt :: jwt_lib where
  "ex_jwt = \<lparr>jw_encode = (\<lambda>p sec alg. ex_pack (sec # map (\<lambda>(k, v). ex_field v) p)), jw_decode = ex_jwt_decode\<rparr>"

lemma ex_jwt_laws: "jwt_laws ex_jwt"
  by (simp add: jwt_laws_def ex_jwt_def ex_jwt_decode_def token_payload_def ex_field_def)

end
