(* ===== verification/Database.thy ===== *)
theory Database
  imports Models Security
begin

text \<open>
  The tables (\<^verbatim>\<open>app/models\<close>), the repositories (\<^verbatim>\<open>app/repositories\<close>) and the unit
  of work of a request (\<^verbatim>\<open>get_session\<close> of \<^verbatim>\<open>app/database/session.py\<close>). A table is
  a list of row records in insertion order; columns nobody reads (surrogate keys of balance and
  audit rows, update times) are left out. Identifiers and times, which the code draws from
  \<^verbatim>\<open>uuid4\<close> and the clock, are arguments.

  The database engine is the parameter \<open>dbms\<close>: what a \<^verbatim>\<open>Numeric(36, 18)\<close> column
  keeps of a decimal, and whether foreign keys cascade. A session works on its own copy of the
  tables, in which an object keeps the value it was given; a commit stores the columns, a rollback
  drops the copy.
\<close>

section \<open>Rows\<close>

record user_row =
  us_id :: string
  us_email :: string
  us_password_hash :: string
  us_role :: string
  us_is_active :: bool
  us_totp_enabled :: bool
  us_totp_secret_enc :: "string option"
  us_totp_last_counter :: "int option"
  us_token_generation :: int

record account_row =
  ac_id :: string
  ac_user_id :: string
  ac_exchange_id :: string
  ac_label :: string
  ac_market_type :: string
  ac_is_paper :: bool
  ac_api_key_enc :: "string option"
  ac_api_secret_enc :: "string option"
  ac_passphrase_enc :: "string option"
  ac_is_active :: bool
  ac_created_at :: rat

record order_row =
  or_id :: string
  or_user_id :: string
  or_account_id :: string
  or_exchange_order_id :: "string option"
  or_client_order_id :: "string option"
  or_symbol :: string
  or_side :: string
  or_type :: string
  or_status :: string
  or_amount :: decimal
  or_filled :: decimal
  or_price :: "decimal option"
  or_average :: "decimal option"
  or_fee :: decimal
  or_is_paper :: bool
  or_created_at :: rat

record balance_row =
  br_account_id :: string
  br_asset :: string
  br_free :: decimal
  br_used :: decimal

record audit_row =
  au_action :: string
  au_user_id :: "string option"
  au_ip :: "string option"
  au_detail :: "(string \<times> pyval) list"

record db =
  db_users :: "user_row list"
  db_accounts :: "account_row list"
  db_orders :: "order_row list"
  db_balances :: "balance_row list"
  db_audit :: "audit_row list"

definition empty_db :: db where
  "empty_db = \<lparr>db_users = [], db_accounts = [], db_orders = [], db_balances = [], db_audit = []\<rparr>"

record dbms =
  dm_numeric :: "decimal \<Rightarrow> decimal"
  dm_cascade :: bool

section \<open>Unit of work\<close>

record session =
  ss_committed :: db
  ss_work :: db

definition store_order :: "dbms \<Rightarrow> order_row \<Rightarrow> order_row" where
  "store_order dm r = r\<lparr>or_amount := dm_numeric dm (or_amount r), or_filled := dm_numeric dm (or_filled r),
     or_price := map_option (dm_numeric dm) (or_price r), or_average := map_option (dm_numeric dm) (or_average r),
     or_fee := dm_numeric dm (or_fee r)\<rparr>"

definition store_balance :: "dbms \<Rightarrow> balance_row \<Rightarrow> balance_row" where
  "store_balance dm r = r\<lparr>br_free := dm_numeric dm (br_free r), br_used := dm_numeric dm (br_used r)\<rparr>"

definition store_db :: "dbms \<Rightarrow> db \<Rightarrow> db" where
  "store_db dm d = d\<lparr>db_orders := map (store_order dm) (db_orders d), db_balances := map (store_balance dm) (db_balances d)\<rparr>"

definition session_commit :: "dbms \<Rightarrow> session \<Rightarrow> session" where
  "session_commit dm s = s\<lparr>ss_committed := store_db dm (ss_work s)\<rparr>"

definition session_rollback :: "session \<Rightarrow> session" where
  "session_rollback s = s\<lparr>ss_work := ss_committed s\<rparr>"

text \<open>
  A request handler runs in its session together with other state \<open>'s\<close> (stores, breakers, the
  outside world), which no transaction protects.
\<close>

definition with_session :: "dbms \<Rightarrow> (session \<times> 's, exn, 'a) action \<Rightarrow> (db \<times> 's, exn, 'a) action" where
  "with_session dm body = (\<lambda>(d, x).
     case body (\<lparr>ss_committed = d, ss_work = d\<rparr>, x) of
       (Inl e, (s, x')) \<Rightarrow> (Inl e, (ss_committed (session_rollback s), x'))
     | (Inr a, (s, x')) \<Rightarrow> (Inr a, (ss_committed (session_commit dm s), x')))"

definition integrity_error :: "string \<Rightarrow> exn" where
  "integrity_error c = PyExn ''IntegrityError'' c"

section \<open>Repositories\<close>

subsection \<open>Users\<close>

definition user_get :: "string \<Rightarrow> db \<Rightarrow> user_row option" where
  "user_get uid d = find (\<lambda>u. us_id u = uid) (db_users d)"

definition user_get_by_email :: "string \<Rightarrow> db \<Rightarrow> user_row option" where
  "user_get_by_email email d = find (\<lambda>u. us_email u = py_lower email) (db_users d)"

definition email_exists :: "string \<Rightarrow> db \<Rightarrow> bool" where
  "email_exists email d \<longleftrightarrow> (\<exists>u \<in> set (db_users d). us_email u = py_lower email)"

definition user_add :: "user_row \<Rightarrow> (db, exn, unit) action" where
  "user_add u d =
     (if (\<exists>v \<in> set (db_users d). us_id v = us_id u \<or> us_email v = us_email u)
      then (Inl (integrity_error ''users''), d)
      else (Inr (), d\<lparr>db_users := db_users d @ [u]\<rparr>))"

text \<open>Assigning attributes of a loaded user object.\<close>

definition user_update :: "string \<Rightarrow> (user_row \<Rightarrow> user_row) \<Rightarrow> db \<Rightarrow> db" where
  "user_update uid f d = d\<lparr>db_users := map (\<lambda>u. if us_id u = uid then f u else u) (db_users d)\<rparr>"

subsection \<open>Audit log\<close>

definition audit_record :: "string \<Rightarrow> string option \<Rightarrow> string option \<Rightarrow> (string \<times> pyval) list \<Rightarrow> db \<Rightarrow> db" where
  "audit_record action user_id ip detail d =
     d\<lparr>db_audit := db_audit d @ [\<lparr>au_action = action, au_user_id = user_id, au_ip = ip, au_detail = detail\<rparr>]\<rparr>"

subsection \<open>Accounts\<close>

definition account_add :: "account_row \<Rightarrow> (db, exn, unit) action" where
  "account_add a d =
     (if (\<exists>b \<in> set (db_accounts d). ac_id b = ac_id a \<or>
            ac_user_id b = ac_user_id a \<and> ac_exchange_id b = ac_exchange_id a \<and> ac_label b = ac_label a)
      then (Inl (integrity_error ''uq_account_label''), d)
      else (Inr (), d\<lparr>db_accounts := db_accounts d @ [a]\<rparr>))"

definition account_list_for_user :: "string \<Rightarrow> db \<Rightarrow> account_row list" where
  "account_list_for_user uid d = sort_key ac_created_at (filter (\<lambda>a. ac_user_id a = uid) (db_accounts d))"

definition account_get_for_user :: "string \<Rightarrow> string \<Rightarrow> db \<Rightarrow> account_row option" where
  "account_get_for_user aid uid d = find (\<lambda>a. ac_id a = aid \<and> ac_user_id a = uid) (db_accounts d)"

definition account_delete :: "dbms \<Rightarrow> account_row \<Rightarrow> db \<Rightarrow> db" where
  "account_delete dm a d =
     (let d' = d\<lparr>db_accounts := filter (\<lambda>b. ac_id b \<noteq> ac_id a) (db_accounts d)\<rparr>
      in if dm_cascade dm
         then d'\<lparr>db_orders := filter (\<lambda>r. or_account_id r \<noteq> ac_id a) (db_orders d'),
                 db_balances := filter (\<lambda>r. br_account_id r \<noteq> ac_id a) (db_balances d')\<rparr>
         else d')"

subsection \<open>Orders\<close>

definition order_add :: "order_row \<Rightarrow> (db, exn, unit) action" where
  "order_add r d =
     (if (\<exists>q \<in> set (db_orders d). or_id q = or_id r) then (Inl (integrity_error ''orders''), d)
      else (Inr (), d\<lparr>db_orders := db_orders d @ [r]\<rparr>))"

definition order_update :: "string \<Rightarrow> (order_row \<Rightarrow> order_row) \<Rightarrow> db \<Rightarrow> db" where
  "order_update oid f d = d\<lparr>db_orders := map (\<lambda>r. if or_id r = oid then f r else r) (db_orders d)\<rparr>"

definition order_get_for_user :: "string \<Rightarrow> string \<Rightarrow> db \<Rightarrow> order_row option" where
  "order_get_for_user oid uid d = find (\<lambda>r. or_id r = oid \<and> or_user_id r = uid) (db_orders d)"

definition set_filter :: "string option \<Rightarrow> string \<Rightarrow> bool" where
  "set_filter f v \<longleftrightarrow> (case f of None \<Rightarrow> True | Some [] \<Rightarrow> True | Some s \<Rightarrow> v = s)"

definition orders_matching :: "string \<Rightarrow> string option \<Rightarrow> string option \<Rightarrow> db \<Rightarrow> order_row list" where
  "orders_matching uid symbol status d =
     filter (\<lambda>r. or_user_id r = uid \<and> set_filter symbol (or_symbol r) \<and> set_filter status (or_status r)) (db_orders d)"

definition order_list_for_user ::
    "string \<Rightarrow> string option \<Rightarrow> string option \<Rightarrow> int \<Rightarrow> int \<Rightarrow> db \<Rightarrow> order_row list" where
  "order_list_for_user uid symbol status limit offset d =
     take (nat limit) (drop (nat offset)
       (sort_key (\<lambda>r. - or_created_at r) (orders_matching uid symbol status d)))"

definition order_count_for_user :: "string \<Rightarrow> string option \<Rightarrow> string option \<Rightarrow> db \<Rightarrow> int" where
  "order_count_for_user uid symbol status d = int (length (orders_matching uid symbol status d))"

section \<open>The paper ledger in the database\<close>

definition open_statuses :: "string list" where
  "open_statuses = [status_value Open, status_value Partially_filled]"

definition balance_rows :: "string \<Rightarrow> db \<Rightarrow> balance_row list" where
  "balance_rows aid d = filter (\<lambda>r. br_account_id r = aid) (db_balances d)"

definition load_balances :: "string \<Rightarrow> db \<Rightarrow> (string, balance) dict" where
  "load_balances aid d = fold (\<lambda>r. dict_set (br_asset r)
     \<lparr>bal_asset = br_asset r, bal_free = br_free r, bal_used = br_used r\<rparr>) (balance_rows aid d) []"

definition order_of_row :: "string \<Rightarrow> order_row \<Rightarrow> exn + order" where
  "order_of_row oid r =
     rbind (case side_of (or_side r) of None \<Rightarrow> Inl (PyExn ''ValueError'' (or_side r)) | Some v \<Rightarrow> Inr v) (\<lambda>sd.
     rbind (case type_of (or_type r) of None \<Rightarrow> Inl (PyExn ''ValueError'' (or_type r)) | Some v \<Rightarrow> Inr v) (\<lambda>ty.
     rbind (case status_of (or_status r) of None \<Rightarrow> Inl (PyExn ''ValueError'' (or_status r)) | Some v \<Rightarrow> Inr v) (\<lambda>st.
       Inr \<lparr>o_id = oid, o_symbol = or_symbol r, o_side = sd, o_type = ty, o_status = st,
            o_amount = or_amount r, o_filled = or_filled r, o_price = or_price r, o_average = or_average r,
            o_timestamp = None, o_client_order_id = or_client_order_id r, o_fee = or_fee r, o_is_paper = True\<rparr>)))"

fun add_open_orders :: "order_row list \<Rightarrow> (string, order) dict \<Rightarrow> exn + (string, order) dict" where
  "add_open_orders [] acc = Inr acc"
| "add_open_orders (r # rs) acc =
     (case or_exchange_order_id r of
        None \<Rightarrow> add_open_orders rs acc
      | Some [] \<Rightarrow> add_open_orders rs acc
      | Some oid \<Rightarrow> rbind (order_of_row oid r) (\<lambda>ord. add_open_orders rs (dict_set oid ord acc)))"

definition open_rows :: "string \<Rightarrow> db \<Rightarrow> order_row list" where
  "open_rows aid d = filter (\<lambda>r. or_account_id r = aid \<and> or_is_paper r \<and> or_status r \<in> set open_statuses) (db_orders d)"

definition load_open_orders :: "string \<Rightarrow> db \<Rightarrow> exn + (string, order) dict" where
  "load_open_orders aid d = add_open_orders (open_rows aid d) []"

definition load_ledger :: "string \<Rightarrow> db \<Rightarrow> exn + paper_ledger" where
  "load_ledger aid d =
     (let bals = load_balances aid d;
          bals' = (if bals = []
            then [(''USDT'', \<lparr>bal_asset = ''USDT'', bal_free = 100000, bal_used = 0\<rparr>)] else bals)
      in rbind (load_open_orders aid d) (\<lambda>ords.
           Inr \<lparr>lg_quote_asset = ''USDT'', lg_starting_balance = 100000, lg_balances = bals', lg_orders = ords\<rparr>))"

definition upsert_balance :: "string \<Rightarrow> string \<Rightarrow> balance \<Rightarrow> balance_row list \<Rightarrow> balance_row list" where
  "upsert_balance aid asset b rows =
     (if (\<exists>r \<in> set rows. br_account_id r = aid \<and> br_asset r = asset)
      then map (\<lambda>r. if br_account_id r = aid \<and> br_asset r = asset
                    then r\<lparr>br_free := bal_free b, br_used := bal_used b\<rparr> else r) rows
      else rows @ [\<lparr>br_account_id = aid, br_asset = asset, br_free = bal_free b, br_used = bal_used b\<rparr>])"

definition save_ledger :: "string \<Rightarrow> paper_ledger \<Rightarrow> db \<Rightarrow> db" where
  "save_ledger aid lg d =
     d\<lparr>db_balances := fold (\<lambda>(asset, b). upsert_balance aid asset b) (lg_balances lg) (db_balances d)\<rparr>"

section \<open>Balance rows\<close>

definition row_for :: "string \<Rightarrow> string \<Rightarrow> balance_row list \<Rightarrow> balance_row option" where
  "row_for aid asset rows = find (\<lambda>r. br_account_id r = aid \<and> br_asset r = asset) rows"

text \<open>The unique constraint of the balance table.\<close>

definition balances_unique :: "balance_row list \<Rightarrow> bool" where
  "balances_unique rows \<longleftrightarrow> distinct (map (\<lambda>r. (br_account_id r, br_asset r)) rows)"

definition balance_of_row :: "balance_row \<Rightarrow> balance" where
  "balance_of_row r = \<lparr>bal_asset = br_asset r, bal_free = br_free r, bal_used = br_used r\<rparr>"

lemma row_for_simps [simp]:
  "row_for aid asset [] = None"
  "row_for aid asset (r # rs) = (if br_account_id r = aid \<and> br_asset r = asset then Some r else row_for aid asset rs)"
  by (simp_all add: row_for_def)

lemma row_for_None: "row_for aid asset rows = None \<longleftrightarrow> (\<forall>r \<in> set rows. \<not> (br_account_id r = aid \<and> br_asset r = asset))"
  by (auto simp: row_for_def find_None_iff)

lemma row_for_append: "row_for aid asset (rs @ rs') = (case row_for aid asset rs of None \<Rightarrow> row_for aid asset rs' | Some r \<Rightarrow> Some r)"
  by (induction rs) auto

lemma row_for_SomeD: "row_for aid asset rows = Some r \<Longrightarrow> br_account_id r = aid \<and> br_asset r = asset"
  by (auto simp: row_for_def find_Some_iff)

lemma load_fold_get:
  assumes "balances_unique rows" "\<forall>r \<in> set rows. br_account_id r = aid"
  shows "dict_get (fold (\<lambda>r. dict_set (br_asset r) (balance_of_row r)) rows acc) asset =
     (case row_for aid asset rows of None \<Rightarrow> dict_get acc asset | Some r \<Rightarrow> Some (balance_of_row r))"
  using assms
proof (induction rows arbitrary: acc)
  case (Cons r rs)
  have n: "row_for aid (br_asset r) rs = None"
    unfolding row_for_None using Cons.prems by (auto simp: balances_unique_def image_iff)
  have "balances_unique rs" "\<forall>r \<in> set rs. br_account_id r = aid" "br_account_id r = aid"
    using Cons.prems by (simp_all add: balances_unique_def)
  then show ?case using n Cons.IH by (cases "br_asset r = asset") (simp_all add: dict_get_set split: option.split)
qed simp

lemma row_for_filter: "row_for aid asset (filter (\<lambda>r. br_account_id r = aid) rows) = row_for aid asset rows"
  by (induction rows) auto

lemma load_balances_get:
  assumes "balances_unique (db_balances d)"
  shows "dict_get (load_balances aid d) asset = map_option balance_of_row (row_for aid asset (db_balances d))"
proof -
  have "balances_unique (balance_rows aid d)"
    using assms by (auto simp: balances_unique_def balance_rows_def distinct_map_filter)
  from load_fold_get [OF this, of aid "[]" asset] show ?thesis
    by (auto simp: load_balances_def balance_of_row_def balance_rows_def row_for_filter split: option.splits)
qed

lemma row_for_map:
  assumes "\<And>r. br_account_id (f r) = br_account_id r \<and> br_asset (f r) = br_asset r"
  shows "row_for aid asset (map f rows) = map_option f (row_for aid asset rows)"
  using assms by (induction rows) auto

lemma upsert_get:
  "row_for aid' asset' (upsert_balance aid asset b rows) =
     (if aid' = aid \<and> asset' = asset then Some \<lparr>br_account_id = aid, br_asset = asset, br_free = bal_free b, br_used = bal_used b\<rparr>
      else row_for aid' asset' rows)"
proof (cases "row_for aid asset rows")
  case None
  then have "\<not> (\<exists>r \<in> set rows. br_account_id r = aid \<and> br_asset r = asset)" by (simp add: row_for_None)
  then have "upsert_balance aid asset b rows = rows @ [\<lparr>br_account_id = aid, br_asset = asset, br_free = bal_free b, br_used = bal_used b\<rparr>]"
    by (simp add: upsert_balance_def)
  then show ?thesis using None
    by (cases "aid' = aid \<and> asset' = asset") (auto simp: row_for_append split: option.split)
next
  case (Some r)
  then have ex: "\<exists>r \<in> set rows. br_account_id r = aid \<and> br_asset r = asset"
    using row_for_None [of aid asset rows] by auto
  have "row_for aid' asset' (upsert_balance aid asset b rows) =
      map_option (\<lambda>r. if br_account_id r = aid \<and> br_asset r = asset then r\<lparr>br_free := bal_free b, br_used := bal_used b\<rparr> else r)
        (row_for aid' asset' rows)"
    unfolding upsert_balance_def using ex by (simp add: row_for_map)
  then show ?thesis using Some row_for_SomeD [of aid' asset' rows] row_for_SomeD [OF Some]
    by (cases "row_for aid' asset' rows") auto
qed

lemma upsert_unique: "balances_unique rows \<Longrightarrow> balances_unique (upsert_balance aid asset b rows)"
proof -
  have "map (\<lambda>r. (br_account_id r, br_asset r)) (map (\<lambda>r. if P r then r\<lparr>br_free := x, br_used := y\<rparr> else r) rows)
      = map (\<lambda>r. (br_account_id r, br_asset r)) rows" for P x y by (induction rows) auto
  then show "balances_unique rows \<Longrightarrow> ?thesis" unfolding upsert_balance_def balances_unique_def by (auto simp del: map_map)
qed

lemma save_fold_get:
  assumes "dict_wf bals"
  shows "row_for aid' asset (fold (\<lambda>(a, b). upsert_balance aid a b) bals rows) =
     (if aid' = aid then (case dict_get bals asset of
         Some b \<Rightarrow> Some \<lparr>br_account_id = aid, br_asset = asset, br_free = bal_free b, br_used = bal_used b\<rparr>
       | None \<Rightarrow> row_for aid asset rows)
      else row_for aid' asset rows)"
  using assms
proof (induction bals arbitrary: rows)
  case (Cons e bals)
  obtain a b where e: "e = (a, b)" by fastforce
  have "dict_get bals a = None" using Cons.prems by (auto simp: e dict_wf_def map_of_eq_None_iff)
  then show ?case using Cons by (auto simp: e dict_wf_def upsert_get split: option.splits)
qed simp

lemma save_fold_unique: "balances_unique rows \<Longrightarrow> balances_unique (fold (\<lambda>(a, b). upsert_balance aid a b) bals rows)"
  by (induction bals arbitrary: rows) (auto simp: upsert_unique)

lemma save_fold_other:
  "filter (\<lambda>r. br_account_id r \<noteq> aid) (fold (\<lambda>(a, b). upsert_balance aid a b) bals rows) = filter (\<lambda>r. br_account_id r \<noteq> aid) rows"
proof (induction bals arbitrary: rows)
  case (Cons e bals)
  obtain a b where e: "e = (a, b)" by fastforce
  have "filter (\<lambda>r. br_account_id r \<noteq> aid) (map (\<lambda>r. if br_account_id r = aid \<and> br_asset r = a then r\<lparr>br_free := x, br_used := y\<rparr> else r) rows)
      = filter (\<lambda>r. br_account_id r \<noteq> aid) rows" for x y
    by (induction rows) auto
  then show ?case using Cons by (simp add: e upsert_balance_def)
qed simp

section \<open>Reading back what was saved\<close>

definition store_bal :: "dbms \<Rightarrow> balance \<Rightarrow> balance" where
  "store_bal dm b = b\<lparr>bal_free := dm_numeric dm (bal_free b), bal_used := dm_numeric dm (bal_used b)\<rparr>"

definition keyed :: "(string, balance) dict \<Rightarrow> bool" where
  "keyed bals \<longleftrightarrow> (\<forall>a b. dict_get bals a = Some b \<longrightarrow> bal_asset b = a)"

text \<open>
  A ledger that covers the assets already stored for the account comes back from the database with
  the same balances, as far as the numeric columns keep them.
\<close>

lemma load_save_balances:
  assumes "balances_unique (db_balances d)" "dict_wf (lg_balances lg)" "keyed (lg_balances lg)" "lg_balances lg \<noteq> []"
    and "\<And>a. row_for aid a (db_balances d) \<noteq> None \<Longrightarrow> dict_get (lg_balances lg) a \<noteq> None"
    and "load_ledger aid (store_db dm (save_ledger aid lg d)) = Inr lg'"
  shows "dict_get (lg_balances lg') a = map_option (store_bal dm) (dict_get (lg_balances lg) a)"
proof -
  let ?rows = "fold (\<lambda>(a, b). upsert_balance aid a b) (lg_balances lg) (db_balances d)"
  let ?d = "store_db dm (save_ledger aid lg d)"
  have rows: "db_balances ?d = map (store_balance dm) ?rows" by (simp add: store_db_def save_ledger_def)
  have u: "balances_unique (db_balances ?d)"
    using save_fold_unique [OF assms(1)] by (simp add: rows balances_unique_def comp_def store_balance_def)
  have get: "row_for aid a (db_balances ?d) = map_option (store_balance dm) (case dict_get (lg_balances lg) a of
         Some b \<Rightarrow> Some \<lparr>br_account_id = aid, br_asset = a, br_free = bal_free b, br_used = bal_used b\<rparr>
       | None \<Rightarrow> row_for aid a (db_balances d))" for a
    unfolding rows by (simp add: row_for_map store_balance_def save_fold_get [OF assms(2)] split: option.split)
  have load: "dict_get (load_balances aid ?d) a = map_option (store_bal dm) (dict_get (lg_balances lg) a)" for a
    using assms(3) assms(5) [of a] by (cases "row_for aid a (db_balances d)")
      (auto simp: load_balances_get [OF u] get balance_of_row_def store_bal_def store_balance_def keyed_def split: option.splits)
  obtain a0 b0 where "dict_get (lg_balances lg) a0 = Some b0"
    using assms(4) by (cases "lg_balances lg") fastforce+
  with load [of a0] have "load_balances aid ?d \<noteq> []" by auto
  then have "lg_balances lg' = load_balances aid ?d"
    using assms(6) by (auto simp: load_ledger_def Let_def rbind_Inr_iff)
  then show ?thesis by (simp add: load)
qed

section \<open>Order rows\<close>

definition stored :: "dbms \<Rightarrow> db \<Rightarrow> bool" where
  "stored dm d \<longleftrightarrow> store_db dm d = d"

lemma add_open_orders_append: "add_open_orders (rs @ rs') acc = rbind (add_open_orders rs acc) (add_open_orders rs')"
  by (induction rs arbitrary: acc) (auto simp: rbind_def split: option.splits list.splits sum.splits)

lemma store_order_sel [simp]:
  "or_id (store_order dm r) = or_id r" "or_user_id (store_order dm r) = or_user_id r"
  "or_account_id (store_order dm r) = or_account_id r" "or_status (store_order dm r) = or_status r"
  "or_is_paper (store_order dm r) = or_is_paper r" "or_exchange_order_id (store_order dm r) = or_exchange_order_id r"
  "or_symbol (store_order dm r) = or_symbol r"
  by (simp_all add: store_order_def)

lemma open_rows_store: "open_rows aid (store_db dm d) = map (store_order dm) (open_rows aid d)"
  by (simp add: open_rows_def store_db_def filter_map comp_def)

lemma stored_orders: "stored dm d \<Longrightarrow> map (store_order dm) (db_orders d) = db_orders d"
  unfolding stored_def store_db_def by (metis db.select_convs(3) db.surjective db.update_convs(3,4))

lemma stored_open_rows: "stored dm d \<Longrightarrow> map (store_order dm) (open_rows aid d) = open_rows aid d"
  using open_rows_store [of aid dm d] by (simp add: stored_def)

section \<open>Tenants\<close>

text \<open>What a user's request must not touch: the rows of other users and of accounts outside \<open>own\<close>.\<close>

definition others :: "string \<Rightarrow> string set \<Rightarrow> db \<Rightarrow> user_row list \<times> account_row list \<times> order_row list \<times> balance_row list" where
  "others uid own d = (db_users d, db_accounts d, filter (\<lambda>r. or_user_id r \<noteq> uid) (db_orders d),
     filter (\<lambda>r. br_account_id r \<notin> own) (db_balances d))"

lemma filter_coarser: "(\<And>x. P x \<Longrightarrow> Q x) \<Longrightarrow> filter Q xs = filter Q ys \<Longrightarrow> filter P xs = filter P ys"
  by (metis (mono_tags, lifting) filter_cong filter_filter)

lemma others_save: "aid \<in> own \<Longrightarrow> others uid own (save_ledger aid lg d) = others uid own d"
  unfolding others_def save_ledger_def
  by simp (rule filter_coarser [of _ "\<lambda>r. br_account_id r \<noteq> aid"], auto simp: save_fold_other)

lemma others_audit [simp]: "others uid own (audit_record act u ip det d) = others uid own d"
  by (simp add: others_def audit_record_def)

lemma others_order_add: "or_user_id r = uid \<Longrightarrow> others uid own (snd (order_add r d)) = others uid own d"
  by (simp add: others_def order_add_def)

lemma others_order_update:
  assumes "\<forall>q \<in> set (db_orders d). or_id q = oid \<longrightarrow> or_user_id q = uid"
    and "\<And>q. or_user_id (f q) = or_user_id q"
  shows "others uid own (order_update oid f d) = others uid own d"
proof -
  have "filter (\<lambda>r. or_user_id r \<noteq> uid) (map (\<lambda>r. if or_id r = oid then f r else r) rs) = filter (\<lambda>r. or_user_id r \<noteq> uid) rs"
    if "\<forall>q \<in> set rs. or_id q = oid \<longrightarrow> or_user_id q = uid" for rs
    using that assms(2) by (induction rs) auto
  then show ?thesis using assms(1) by (simp add: others_def order_update_def)
qed

end
