(* ===== verification/Resilience.thy ===== *)
theory Resilience
  imports Errors
begin

text \<open>
  The circuit breaker, the shared breaker registry and the retry helper of
  \<^verbatim>\<open>app/core/resilience.py\<close>. The clock is an argument: each operation that reads it gets
  the value it reads. One call of a breaker is two atomic parts, the admission under the lock and
  the record of the outcome under the lock, with the awaited call between them; the sequential
  \<open>breaker_call\<close> runs them in a row, the step relation \<open>breaker_step\<close> interleaves
  the parts of any number of concurrent calls. A cancelled call (\<^verbatim>\<open>asyncio.CancelledError\<close>
  is not an \<^verbatim>\<open>Exception\<close>) ends without recording an outcome.
\<close>

section \<open>The circuit breaker\<close>

datatype circuit_state = CS_closed | CS_open | CS_half_open

record circuit_breaker =
  cb_name :: string
  cb_failure_threshold :: int
  cb_recovery_timeout :: pyfloat
  cb_state :: circuit_state
  cb_failures :: int
  cb_opened_at :: pyfloat
  cb_probe_in_flight :: bool

definition new_circuit_breaker :: "string \<Rightarrow> int \<Rightarrow> pyfloat \<Rightarrow> circuit_breaker" where
  "new_circuit_breaker name threshold timeout =
     \<lparr>cb_name = name, cb_failure_threshold = threshold, cb_recovery_timeout = timeout,
      cb_state = CS_closed, cb_failures = 0, cb_opened_at = 0, cb_probe_in_flight = False\<rparr>"

definition can_attempt :: "pyfloat \<Rightarrow> circuit_breaker \<Rightarrow> bool \<times> circuit_breaker" where
  "can_attempt now cb =
     (case cb_state cb of
        CS_closed \<Rightarrow> (True, cb)
      | CS_open \<Rightarrow>
          if cb_recovery_timeout cb \<le> fsub now (cb_opened_at cb)
          then (True, cb\<lparr>cb_state := CS_half_open, cb_probe_in_flight := True\<rparr>)
          else (False, cb)
      | CS_half_open \<Rightarrow>
          if cb_probe_in_flight cb then (False, cb)
          else (True, cb\<lparr>cb_probe_in_flight := True\<rparr>))"

definition record_success :: "circuit_breaker \<Rightarrow> circuit_breaker" where
  "record_success cb = cb\<lparr>cb_failures := 0, cb_state := CS_closed, cb_probe_in_flight := False\<rparr>"

definition record_failure :: "pyfloat \<Rightarrow> circuit_breaker \<Rightarrow> circuit_breaker" where
  "record_failure now cb =
     (let cb' = cb\<lparr>cb_failures := cb_failures cb + 1, cb_probe_in_flight := False\<rparr>
      in if cb_state cb' = CS_half_open \<or> cb_failure_threshold cb' \<le> cb_failures cb'
         then cb'\<lparr>cb_state := CS_open, cb_opened_at := now\<rparr>
         else cb')"

definition circuit_open :: "string \<Rightarrow> exn" where
  "circuit_open name = AppExn (mk_error CircuitOpenError None [(''circuit'', VStr name)])"

text \<open>
  \<open>t0\<close> is the clock at the admission, \<open>t1\<close> the clock when the outcome is recorded;
  the guarded function acts on an outside world \<open>'x\<close>.
\<close>

definition breaker_call ::
    "pyfloat \<Rightarrow> pyfloat \<Rightarrow> ('x \<Rightarrow> (exn + 'a) \<times> 'x) \<Rightarrow> (circuit_breaker \<times> 'x, exn, 'a) action" where
  "breaker_call t0 t1 func = (\<lambda>(cb, x).
     case can_attempt t0 cb of
       (False, cb') \<Rightarrow> (Inl (circuit_open (cb_name cb')), (cb', x))
     | (True, cb') \<Rightarrow>
         (case func x of
            (Inl e, x') \<Rightarrow> (Inl e, (record_failure t1 cb', x'))
          | (Inr a, x') \<Rightarrow> (Inr a, (record_success cb', x'))))"

section \<open>The shared registry\<close>

type_synonym breaker_registry = "(string, circuit_breaker) dict"

definition get_circuit_breaker ::
    "string \<Rightarrow> int \<Rightarrow> pyfloat \<Rightarrow> breaker_registry \<Rightarrow> circuit_breaker \<times> breaker_registry" where
  "get_circuit_breaker name threshold timeout bs =
     (case dict_get bs name of
        Some cb \<Rightarrow> (cb, bs)
      | None \<Rightarrow>
          let cb = new_circuit_breaker name threshold timeout
          in (cb, dict_set name cb bs))"

definition reset_circuit_breakers :: "breaker_registry \<Rightarrow> breaker_registry" where
  "reset_circuit_breakers bs = []"

section \<open>Retries\<close>

text \<open>
  The loop of \<^verbatim>\<open>async_retry\<close> with \<open>k\<close> attempts left. \<open>catch\<close> decides
  whether an exception is one of those retried; the state carries the outside world and the list
  of the delays slept so far.
\<close>

primrec retry_loop ::
    "(exn \<Rightarrow> bool) \<Rightarrow> pyfloat \<Rightarrow> ('x \<Rightarrow> (exn + 'a) \<times> 'x) \<Rightarrow> nat \<Rightarrow> pyfloat \<Rightarrow> exn option
       \<Rightarrow> ('x \<times> pyfloat list, exn, 'a) action" where
  "retry_loop catch max_delay func 0 delay last_exc = (\<lambda>(x, sleeps).
     case last_exc of
       None \<Rightarrow> (Inl (PyExn ''AssertionError'' ''''), (x, sleeps))
     | Some e \<Rightarrow> (Inl e, (x, sleeps)))"
| "retry_loop catch max_delay func (Suc k) delay last_exc = (\<lambda>(x, sleeps).
     case func x of
       (Inr a, x') \<Rightarrow> (Inr a, (x', sleeps))
     | (Inl e, x') \<Rightarrow>
         if \<not> catch e then (Inl e, (x', sleeps))
         else if k = 0 then (Inl e, (x', sleeps))
         else retry_loop catch max_delay func k (fmul delay 2) (Some e) (x', sleeps @ [min delay max_delay]))"

definition async_retry ::
    "nat \<Rightarrow> pyfloat \<Rightarrow> pyfloat \<Rightarrow> (exn \<Rightarrow> bool) \<Rightarrow> ('x \<Rightarrow> (exn + 'a) \<times> 'x)
       \<Rightarrow> ('x \<times> pyfloat list, exn, 'a) action" where
  "async_retry attempts base_delay max_delay catch func =
     retry_loop catch max_delay func attempts base_delay None"

section \<open>Concurrent calls of one breaker\<close>

text \<open>
  The state is the breaker and the number of admitted calls still in flight; \<open>c\<close> says
  whether calls may be cancelled.
\<close>

inductive breaker_step :: "bool \<Rightarrow> circuit_breaker \<times> nat \<Rightarrow> circuit_breaker \<times> nat \<Rightarrow> bool" for c where
  admitted: "can_attempt now cb = (True, cb') \<Longrightarrow> breaker_step c (cb, n) (cb', Suc n)"
| rejected: "can_attempt now cb = (False, cb') \<Longrightarrow> breaker_step c (cb, n) (cb', n)"
| succeeded: "breaker_step c (cb, Suc n) (record_success cb, n)"
| failed: "breaker_step c (cb, Suc n) (record_failure now cb, n)"
| cancelled: "c \<Longrightarrow> breaker_step c (cb, Suc n) (cb, n)"

inductive_cases breaker_stepE [elim!]: "breaker_step c (cb, n) (cb', n')"

definition breaker_inv :: "circuit_breaker \<Rightarrow> bool" where
  "breaker_inv cb \<longleftrightarrow> 0 < cb_failure_threshold cb \<and> 0 \<le> cb_failures cb
     \<and> (cb_probe_in_flight cb \<longleftrightarrow> cb_state cb = CS_half_open)
     \<and> (cb_state cb = CS_closed \<longrightarrow> cb_failures cb < cb_failure_threshold cb)"

definition breaker_sys_inv :: "bool \<Rightarrow> circuit_breaker \<times> nat \<Rightarrow> bool" where
  "breaker_sys_inv c s \<longleftrightarrow> breaker_inv (fst s) \<and> (\<not> c \<longrightarrow> cb_state (fst s) = CS_half_open \<longrightarrow> 0 < snd s)"

lemma breaker_inv_new: "0 < threshold \<Longrightarrow> breaker_inv (new_circuit_breaker name threshold timeout)"
  by (simp add: breaker_inv_def new_circuit_breaker_def)

lemma breaker_inv_attempt:
  "breaker_inv cb \<Longrightarrow> can_attempt now cb = (b, cb') \<Longrightarrow> breaker_inv cb'"
  by (auto simp: breaker_inv_def can_attempt_def split: circuit_state.splits if_splits)

lemma breaker_inv_success [inv_intros]: "breaker_inv cb \<Longrightarrow> breaker_inv (record_success cb)"
  by (simp add: breaker_inv_def record_success_def)

lemma breaker_inv_failure [inv_intros]: "breaker_inv cb \<Longrightarrow> breaker_inv (record_failure now cb)"
  by (cases "cb_state cb") (auto simp: breaker_inv_def record_failure_def Let_def)

lemma admitted_half_open:
  "breaker_inv cb \<Longrightarrow> can_attempt now cb = (b, cb') \<Longrightarrow> cb_state cb' = CS_half_open \<Longrightarrow>
     b \<and> cb_state cb = CS_open \<or> \<not> b \<and> cb_state cb = CS_half_open"
  by (auto simp: breaker_inv_def can_attempt_def split: circuit_state.splits if_splits)

lemma outcome_not_half_open [simp]:
  "cb_state (record_success cb) = CS_closed" "cb_state (record_failure now cb) \<noteq> CS_half_open"
  by (simp_all add: record_success_def record_failure_def Let_def)

interpretation breaker: invariant_system "breaker_step c" "breaker_sys_inv c" for c
proof
  fix s t assume "breaker_step c s t" "breaker_sys_inv c s"
  then show "breaker_sys_inv c t"
    by (cases rule: breaker_step.cases)
      (auto simp: breaker_sys_inv_def intro: inv_intros breaker_inv_attempt dest: admitted_half_open)
qed

lemma open_rejects:
  "cb_state cb = CS_open \<Longrightarrow> fsub now (cb_opened_at cb) < cb_recovery_timeout cb \<Longrightarrow> can_attempt now cb = (False, cb)"
  by (simp add: can_attempt_def)

lemma half_open_rejects:
  "breaker_inv cb \<Longrightarrow> cb_state cb = CS_half_open \<Longrightarrow> can_attempt now cb = (False, cb)"
  by (simp add: can_attempt_def breaker_inv_def)

text \<open>Consecutive failures recorded at the given clock values.\<close>

primrec fail_all :: "pyfloat list \<Rightarrow> circuit_breaker \<Rightarrow> circuit_breaker" where
  "fail_all [] cb = cb"
| "fail_all (t # ts) cb = fail_all ts (record_failure t cb)"

lemma fail_all_closed:
  assumes "breaker_inv cb" "cb_state cb = CS_closed"
    and "cb_failures cb + int (length ts) < cb_failure_threshold cb"
  shows "fail_all ts cb = cb\<lparr>cb_failures := cb_failures cb + int (length ts)\<rparr>"
  using assms
proof (induction ts arbitrary: cb)
  case (Cons t ts)
  have r: "record_failure t cb = cb\<lparr>cb_failures := cb_failures cb + 1\<rparr>"
    using Cons.prems by (simp add: record_failure_def Let_def breaker_inv_def)
  have "breaker_inv (record_failure t cb)" using Cons.prems by (intro breaker_inv_failure)
  then show ?case using Cons.IH [of "record_failure t cb"] Cons.prems by (simp add: r)
qed simp

lemma fail_all_append: "fail_all (ts @ us) cb = fail_all us (fail_all ts cb)"
  by (induction ts arbitrary: cb) simp_all

text \<open>The world after \<open>i\<close> runs of the retried function.\<close>

definition after_runs :: "('x \<Rightarrow> (exn + 'a) \<times> 'x) \<Rightarrow> nat \<Rightarrow> 'x \<Rightarrow> 'x" where
  "after_runs func i x = ((\<lambda>y. snd (func y)) ^^ i) x"

lemma after_runs_simps [simp]:
  "after_runs func 0 x = x" "after_runs func (Suc i) x = after_runs func i (snd (func x))"
  by (simp_all add: after_runs_def funpow_Suc_right del: funpow.simps(2))

definition retry_stops :: "(exn \<Rightarrow> bool) \<Rightarrow> ('x \<Rightarrow> (exn + 'a) \<times> 'x) \<Rightarrow> nat \<Rightarrow> 'x \<Rightarrow> nat \<Rightarrow> bool" where
  "retry_stops catch func n x i \<longleftrightarrow> i < n
     \<and> (\<forall>j < i. \<exists>e. fst (func (after_runs func j x)) = Inl e \<and> catch e)
     \<and> (i + 1 = n \<or> (\<forall>e. fst (func (after_runs func i x)) = Inl e \<longrightarrow> \<not> catch e))"

lemma retry_stops_Suc:
  assumes "func x = (Inl e, x')" "catch e" "retry_stops catch func n x' i"
  shows "retry_stops catch func (Suc n) x (Suc i)"
  using assms by (auto simp: retry_stops_def less_Suc_eq_0_disj)

lemma retry_loop_runs:
  assumes "0 < n"
  shows "\<exists>i more. retry_stops catch func n x i \<and> length more = i \<and> (\<forall>d \<in> set more. d \<le> maxd)
     \<and> retry_loop catch maxd func n delay le (x, sleeps)
         = (fst (func (after_runs func i x)), (after_runs func (Suc i) x, sleeps @ more))"
  using assms
proof (induction n arbitrary: x delay le sleeps)
  case (Suc k)
  obtain r x' where f: "func x = (r, x')" by fastforce
  show ?case
  proof (cases "\<exists>e. r = Inl e \<and> catch e \<and> k \<noteq> 0")
    case True
    then obtain e where e: "r = Inl e" "catch e" "k \<noteq> 0" by auto
    with Suc.IH [of x' "fmul delay 2" "Some e" "sleeps @ [min delay maxd]"]
    obtain i more where i: "retry_stops catch func k x' i" "length more = i" "\<forall>d \<in> set more. d \<le> maxd"
      "retry_loop catch maxd func k (fmul delay 2) (Some e) (x', sleeps @ [min delay maxd])
         = (fst (func (after_runs func i x')), (after_runs func (Suc i) x', sleeps @ min delay maxd # more))"
      by auto
    show ?thesis
      using i f e retry_stops_Suc [of func x e x' catch k i]
      by (intro exI [of _ "Suc i"] exI [of _ "min delay maxd # more"]) auto
  next
    case False
    then show ?thesis
      using f by (intro exI [of _ 0] exI [of _ "[]"])
        (cases r; auto simp: retry_stops_def)
  qed
qed simp

section \<open>Properties\<close>

text \<open>C35: whatever calls are made concurrently and however they end, a breaker that started fresh has
  its probe flag set exactly in the half-open state, where it admits no further call, and is closed
  only with fewer consecutive failures than the threshold; if no call is cancelled, a half-open
  breaker always has a call in flight that will decide it.\<close>

theorem breaker_single_probe:
  assumes "0 < threshold" and "(breaker_step c)\<^sup>*\<^sup>* (new_circuit_breaker name threshold timeout, 0) (cb, n)"
  shows "(cb_probe_in_flight cb \<longleftrightarrow> cb_state cb = CS_half_open)
     \<and> (cb_state cb = CS_half_open \<longrightarrow> (\<forall>now. can_attempt now cb = (False, cb)))
     \<and> (cb_state cb = CS_closed \<longrightarrow> cb_failures cb < cb_failure_threshold cb)
     \<and> (\<not> c \<longrightarrow> cb_state cb = CS_half_open \<longrightarrow> 0 < n)"
proof -
  have "breaker_sys_inv c (new_circuit_breaker name threshold timeout, 0)"
    using breaker_inv_new [OF assms(1)] by (simp add: breaker_sys_inv_def new_circuit_breaker_def)
  from breaker.steps_inv [OF assms(2) this] show ?thesis
    by (auto simp: breaker_sys_inv_def half_open_rejects) (auto simp: breaker_inv_def)
qed

theorem breaker_single_probe_witness:
  "\<exists>cb. (breaker_step False)\<^sup>*\<^sup>* (new_circuit_breaker ''ccxt:okx'' 1 30, 0) (cb, 1)
     \<and> cb_state cb = CS_half_open \<and> can_attempt 100 cb = (False, cb)"
proof -
  let ?b0 = "new_circuit_breaker ''ccxt:okx'' 1 30"
  define b1 where "b1 = record_failure 0 ?b0"
  define b2 where "b2 = b1\<lparr>cb_state := CS_half_open, cb_probe_in_flight := True\<rparr>"
  have "breaker_step False (?b0, 0) (?b0, Suc 0)"
    by (rule admitted [of 0]) (simp add: can_attempt_def new_circuit_breaker_def)
  moreover have "breaker_step False (?b0, Suc 0) (b1, 0)" unfolding b1_def by (rule failed)
  moreover have "breaker_step False (b1, 0) (b2, Suc 0)"
    by (rule admitted [of 30]) (unfold b1_def b2_def, code_simp)
  ultimately have r: "(breaker_step False)\<^sup>*\<^sup>* (?b0, 0) (b2, 1)"
    by (auto intro: rtranclp.rtrancl_into_rtrancl)
  have "cb_state b2 = CS_half_open" by (simp add: b2_def)
  with breaker_single_probe [OF _ r] r show ?thesis by auto
qed

text \<open>C36: from a closed breaker, as many consecutive failures as the threshold needs open it at the time of
  the last one; until the recovery timeout has passed every call is then rejected with the circuit's
  error without running the guarded function, and the first call after that is admitted as the only
  probe.\<close>

theorem breaker_trips_and_recovers:
  assumes "breaker_inv cb" and "cb_state cb = CS_closed"
    and "int (length ts) + 1 = cb_failure_threshold cb - cb_failures cb"
  shows "let b = fail_all (ts @ [t]) cb in
       cb_state b = CS_open \<and> cb_opened_at b = t
     \<and> (\<forall>now t1. fsub now t < cb_recovery_timeout cb \<longrightarrow>
          breaker_call now t1 func (b, x) = (Inl (circuit_open (cb_name cb)), (b, x)))
     \<and> (\<forall>now. cb_recovery_timeout cb \<le> fsub now t \<longrightarrow>
          (\<exists>b'. can_attempt now b = (True, b') \<and> (\<forall>later. can_attempt later b' = (False, b'))))"
proof -
  have f: "fail_all ts cb = cb\<lparr>cb_failures := cb_failures cb + int (length ts)\<rparr>"
    using assms by (intro fail_all_closed) auto
  have b: "fail_all (ts @ [t]) cb =
      cb\<lparr>cb_failures := cb_failure_threshold cb, cb_probe_in_flight := False, cb_state := CS_open, cb_opened_at := t\<rparr>"
    using assms by (simp add: fail_all_append f record_failure_def Let_def)
  show ?thesis by (simp add: b breaker_call_def can_attempt_def)
qed

theorem breaker_trips_and_recovers_witness:
  "breaker_call 20 21 (\<lambda>x. (Inr x, x)) (fail_all [1, 2, 3, 4, 5] (new_circuit_breaker ''ccxt:okx'' 5 30), 7 :: int)
     = (Inl (circuit_open ''ccxt:okx''), (fail_all [1, 2, 3, 4, 5] (new_circuit_breaker ''ccxt:okx'' 5 30), 7))"
proof -
  let ?b = "new_circuit_breaker ''ccxt:okx'' 5 30"
  have s: "fsub 20 5 < 30" by code_simp
  have "cb_state ?b = CS_closed" "int (length [1, 2, 3, 4 :: rat]) + 1 = cb_failure_threshold ?b - cb_failures ?b"
    "cb_recovery_timeout ?b = 30" "cb_name ?b = ''ccxt:okx''"
    by (simp_all add: new_circuit_breaker_def)
  with breaker_trips_and_recovers [of ?b "[1, 2, 3, 4]" 5 "\<lambda>x. (Inr x, x)" "7 :: int", OF breaker_inv_new] s
  show ?thesis by (simp add: Let_def del: fail_all.simps)
qed

text \<open>A cancelled probe wedges the breaker: once a half-open breaker has no call in flight, every
  later attempt at any time is rejected and the state never changes, so the exchange behind it stays
  unreachable until the process restarts.\<close>

theorem cancelled_probe_wedges:
  assumes "breaker_inv cb" and "cb_state cb = CS_half_open" and "(breaker_step c)\<^sup>*\<^sup>* (cb, 0) (cb', n)"
  shows "cb' = cb \<and> n = 0 \<and> (\<forall>now. can_attempt now cb' = (False, cb'))"
proof -
  from assms(3) have "cb' = cb \<and> n = 0"
    by (induction "(cb', n)" arbitrary: cb' n rule: rtranclp_induct)
      (auto simp: half_open_rejects [OF assms(1,2)])
  then show ?thesis using half_open_rejects [OF assms(1,2)] by simp
qed

theorem cancelled_probe_wedges_witness:
  "\<exists>cb. (breaker_step True)\<^sup>*\<^sup>* (new_circuit_breaker ''ccxt:okx'' 1 30, 0) (cb, 0)
     \<and> (\<forall>now. can_attempt now cb = (False, cb))"
proof -
  let ?b0 = "new_circuit_breaker ''ccxt:okx'' 1 30"
  define b1 where "b1 = record_failure 0 ?b0"
  define b2 where "b2 = b1\<lparr>cb_state := CS_half_open, cb_probe_in_flight := True\<rparr>"
  have "breaker_step True (?b0, 0) (?b0, Suc 0)"
    by (rule admitted [of 0]) (simp add: can_attempt_def new_circuit_breaker_def)
  moreover have "breaker_step True (?b0, Suc 0) (b1, 0)" unfolding b1_def by (rule failed)
  moreover have a: "breaker_step True (b1, 0) (b2, Suc 0)"
    by (rule admitted [of 30]) (unfold b1_def b2_def, code_simp)
  moreover have "breaker_step True (b2, Suc 0) (b2, 0)" by (rule cancelled) simp
  ultimately have r: "(breaker_step True)\<^sup>*\<^sup>* (?b0, 0) (b2, 0)"
    by (auto intro: rtranclp.rtrancl_into_rtrancl)
  have "breaker_inv b2" by (simp add: b2_def b1_def breaker_inv_def record_failure_def new_circuit_breaker_def)
  from cancelled_probe_wedges [OF this _ rtranclp.rtrancl_refl] r show ?thesis by (auto simp: b2_def)
qed

text \<open>C38: a retried call with at least one attempt runs the function until it succeeds, raises an
  exception that is not retried, or has used up its attempts, and returns the outcome of the last
  run; between two runs it sleeps exactly once, never longer than the maximal delay.\<close>

theorem async_retry_runs:
  assumes "0 < attempts"
  shows "\<exists>i sleeps. retry_stops catch func attempts x i \<and> length sleeps = i \<and> (\<forall>d \<in> set sleeps. d \<le> maxd)
     \<and> async_retry attempts base maxd catch func (x, [])
         = (fst (func (after_runs func i x)), (after_runs func (Suc i) x, sleeps))"
  using retry_loop_runs [OF assms, of catch func x maxd base None "[]"] by (simp add: async_retry_def)

definition ex_flaky :: "int \<Rightarrow> (exn + int) \<times> int" where
  "ex_flaky n = (if n < 2 then Inl (PyExn ''NetworkError'' '''') else Inr n, n + 1)"

theorem async_retry_runs_witness:
  "\<exists>i sleeps. retry_stops (\<lambda>e. True) ex_flaky 3 0 i \<and> length sleeps = i \<and> (\<forall>d \<in> set sleeps. d \<le> 5)
     \<and> async_retry 3 (1/5) 5 (\<lambda>e. True) ex_flaky (0, []) = (Inr 2, (3, sleeps))"
proof -
  have "fst (async_retry 3 (1/5) 5 (\<lambda>e. True) ex_flaky (0, [])) = Inr 2"
    "fst (snd (async_retry 3 (1/5) 5 (\<lambda>e. True) ex_flaky (0, []))) = 3"
    by (simp_all add: async_retry_def numeral_3_eq_3 ex_flaky_def)
  with async_retry_runs [of 3 "\<lambda>e. True" ex_flaky 0 5 "1/5"] show ?thesis
    by (metis fst_conv snd_conv zero_less_numeral)
qed

end
