(* ===== verification/Ccxt.thy ===== *)
theory Ccxt
  imports Models Resilience
begin

text \<open>
  Connectivity to real exchanges: the exchange registry (\<^verbatim>\<open>app/exchange/registry.py\<close>), the
  credentials (\<^verbatim>\<open>app/exchange/credentials.py\<close>) and the ccxt adapter
  (\<^verbatim>\<open>app/exchange/ccxt_adapter.py\<close>). The ccxt library is the parameter
  \<open>ccxt_env\<close>: whether it is installed, whether an exchange accepts sandbox mode, and
  one function that runs a method of a configured client on the outside world \<open>'x\<close> and
  answers with a dynamic value or an exception. A number in an answer stands for the value that its
  \<^verbatim>\<open>str\<close> prints. NaN and infinities, which \<^verbatim>\<open>Decimal\<close> accepts as text, are
  outside the model, as is a symbol that is present but not text.
\<close>

section \<open>Registry\<close>

record exchange_info =
  ei_id :: string
  ei_name :: string
  ei_requires_passphrase :: bool
  ei_supports_futures :: bool
  ei_supports_margin :: bool
  ei_has_testnet :: bool

definition mk_info :: "string \<Rightarrow> string \<Rightarrow> bool \<Rightarrow> bool \<Rightarrow> bool \<Rightarrow> exchange_info" where
  "mk_info i n pass fut test =
     \<lparr>ei_id = i, ei_name = n, ei_requires_passphrase = pass, ei_supports_futures = fut,
      ei_supports_margin = True, ei_has_testnet = test\<rparr>"

definition supported_exchanges :: "(string, exchange_info) dict" where
  "supported_exchanges = map (\<lambda>e. (ei_id e, e))
     [mk_info ''binance'' ''Binance'' False True True,
      mk_info ''bybit'' ''Bybit'' False True True,
      mk_info ''okx'' ''OKX'' True True True,
      mk_info ''kucoin'' ''KuCoin'' True True True,
      mk_info ''kraken'' ''Kraken'' False True False,
      mk_info ''coinbase'' ''Coinbase'' False False False,
      mk_info ''bitget'' ''Bitget'' True True True,
      mk_info ''gateio'' ''Gate.io'' False True True,
      mk_info ''mexc'' ''MEXC'' False True False]"

definition get_info :: "string \<Rightarrow> exchange_info option" where
  "get_info exchange_id = dict_get supported_exchanges (py_lower exchange_id)"

definition is_supported :: "string \<Rightarrow> bool" where
  "is_supported exchange_id \<longleftrightarrow> dict_get supported_exchanges (py_lower exchange_id) \<noteq> None"

section \<open>Credentials\<close>

record credentials =
  cr_api_key :: string
  cr_api_secret :: string
  cr_passphrase :: "string option"
  cr_subaccount :: "string option"
  cr_testnet :: bool

definition is_complete :: "credentials \<Rightarrow> bool" where
  "is_complete c \<longleftrightarrow> cr_api_key c \<noteq> [] \<and> cr_api_secret c \<noteq> []"

definition credentials_repr :: "credentials \<Rightarrow> pyval" where
  "credentials_repr c = VFmt
     ''ExchangeCredentials(api_key='***', api_secret='***', passphrase={}, subaccount={}, testnet={})''
     [case cr_passphrase c of Some (_ # _) \<Rightarrow> VStr ''***'' | _ \<Rightarrow> VNone,
      case cr_subaccount c of None \<Rightarrow> VNone | Some s \<Rightarrow> VStr s,
      VBool (cr_testnet c)]"

section \<open>Reading dynamic values\<close>

fun py_truthy :: "pyval \<Rightarrow> bool" where
  "py_truthy VNone = False"
| "py_truthy (VBool b) = b"
| "py_truthy (VInt i) = (i \<noteq> 0)"
| "py_truthy (VNum q) = (q \<noteq> 0)"
| "py_truthy (VStr s) = (s \<noteq> [])"
| "py_truthy (VFmt t as) = True"
| "py_truthy (VList vs) = (vs \<noteq> [])"
| "py_truthy (VDict d) = (d \<noteq> [])"

definition digit_val :: "char \<Rightarrow> int option" where
  "digit_val c = (let n = of_char c :: int in if 48 \<le> n \<and> n \<le> 57 then Some (n - 48) else None)"

fun digits_val :: "string \<Rightarrow> int \<Rightarrow> int option" where
  "digits_val [] acc = Some acc"
| "digits_val (c # cs) acc = (case digit_val c of None \<Rightarrow> None | Some d \<Rightarrow> digits_val cs (10 * acc + d))"

definition split_sign :: "string \<Rightarrow> int \<times> string" where
  "split_sign s = (case s of
       CHR ''-'' # r \<Rightarrow> (- 1, r)
     | CHR ''+'' # r \<Rightarrow> (1, r)
     | _ \<Rightarrow> (1, s))"

definition parse_int :: "string \<Rightarrow> int option" where
  "parse_int s = (let (sg, r) = split_sign (py_strip s)
     in if r = [] then None else map_option (\<lambda>n. sg * n) (digits_val r 0))"

text \<open>Sign, digits with an optional point, optional exponent.\<close>

definition parse_decimal :: "string \<Rightarrow> decimal option" where
  "parse_decimal s =
     (let (mant, ex) = split1 CHR ''e'' (py_lower (py_strip s));
          (sg, body) = split_sign mant;
          (ip, fp) = split1 CHR ''.'' body;
          frac = (case fp of None \<Rightarrow> [] | Some f \<Rightarrow> f)
      in if ip @ frac = [] then None
         else case (digits_val (ip @ frac) 0, case ex of None \<Rightarrow> Some 0 | Some t \<Rightarrow> parse_int t) of
           (Some m, Some k) \<Rightarrow> Some (of_int (sg * m) * 10 powi (k - int (length frac)))
         | _ \<Rightarrow> None)"

definition invalid_decimal :: exn where
  "invalid_decimal = PyExn ''InvalidOperation'' ''ConversionSyntax''"

definition dec_opt :: "pyval \<Rightarrow> exn + decimal option" where
  "dec_opt v = (case v of
       VNone \<Rightarrow> Inr None
     | VStr [] \<Rightarrow> Inr None
     | VStr s \<Rightarrow> (case parse_decimal s of None \<Rightarrow> Inl invalid_decimal | Some q \<Rightarrow> Inr (Some q))
     | VInt i \<Rightarrow> Inr (Some (of_int i))
     | VNum q \<Rightarrow> Inr (Some q)
     | _ \<Rightarrow> Inl invalid_decimal)"

definition dec0 :: "pyval \<Rightarrow> exn + decimal" where
  "dec0 v = rbind (dec_opt v) (\<lambda>d. Inr (case d of None \<Rightarrow> 0 | Some q \<Rightarrow> q))"

definition py_float :: "pyval \<Rightarrow> exn + rat" where
  "py_float v = (case v of
       VInt i \<Rightarrow> Inr (of_int i)
     | VNum q \<Rightarrow> Inr q
     | VBool b \<Rightarrow> Inr (if b then 1 else 0)
     | VStr s \<Rightarrow> (case parse_decimal s of None \<Rightarrow> Inl (PyExn ''ValueError'' ''float'') | Some q \<Rightarrow> Inr q)
     | _ \<Rightarrow> Inl (PyExn ''TypeError'' ''float''))"

definition py_int :: "pyval \<Rightarrow> exn + int" where
  "py_int v = (case v of
       VInt i \<Rightarrow> Inr i
     | VNum q \<Rightarrow> Inr (py_trunc q)
     | VBool b \<Rightarrow> Inr (if b then 1 else 0)
     | VStr s \<Rightarrow> (case parse_int s of None \<Rightarrow> Inl (PyExn ''ValueError'' ''int'') | Some i \<Rightarrow> Inr i)
     | _ \<Rightarrow> Inl (PyExn ''TypeError'' ''int''))"

definition attribute_error :: exn where
  "attribute_error = PyExn ''AttributeError'' ''get''"

text \<open>\<^verbatim>\<open>d.get(key, default)\<close>\<close>

definition vget :: "pyval \<Rightarrow> string \<Rightarrow> pyval \<Rightarrow> exn + pyval" where
  "vget v key dflt = (case v of
       VDict d \<Rightarrow> Inr (case map_of d key of None \<Rightarrow> dflt | Some w \<Rightarrow> w)
     | _ \<Rightarrow> Inl attribute_error)"

definition vlist :: "pyval \<Rightarrow> exn + pyval list" where
  "vlist v = (case v of VList vs \<Rightarrow> Inr vs | _ \<Rightarrow> Inl (PyExn ''TypeError'' ''not iterable''))"

definition vtext :: "pyval \<Rightarrow> exn + string" where
  "vtext v = (case v of VStr s \<Rightarrow> Inr s | _ \<Rightarrow> Inl (PyExn ''TypeError'' ''not text''))"

definition vtext_opt :: "pyval \<Rightarrow> string option" where
  "vtext_opt v = (case v of VStr s \<Rightarrow> Some s | _ \<Rightarrow> None)"

definition vint_opt :: "pyval \<Rightarrow> int option" where
  "vint_opt v = (case v of VInt i \<Rightarrow> Some i | _ \<Rightarrow> None)"

definition enum_value :: "(string \<Rightarrow> 'e option) \<Rightarrow> pyval \<Rightarrow> exn + 'e" where
  "enum_value of_string v = (case v of
       VStr s \<Rightarrow> (case of_string s of None \<Rightarrow> Inl (PyExn ''ValueError'' s) | Some e \<Rightarrow> Inr e)
     | _ \<Rightarrow> Inl (PyExn ''ValueError'' ''None''))"

primrec rmap :: "('a \<Rightarrow> exn + 'b) \<Rightarrow> 'a list \<Rightarrow> exn + 'b list" where
  "rmap f [] = Inr []"
| "rmap f (x # xs) = rbind (f x) (\<lambda>y. rbind (rmap f xs) (\<lambda>ys. Inr (y # ys)))"

lemma rmap_ok: "(\<And>x. x \<in> set xs \<Longrightarrow> f x = Inr (g x)) \<Longrightarrow> rmap f xs = Inr (map g xs)"
  by (induction xs) auto

lemma rmap_length: "rmap f xs = Inr ys \<Longrightarrow> length ys = length xs"
  by (induction xs arbitrary: ys) (auto simp: rbind_Inr_iff)

section \<open>The adapter\<close>

record client_config =
  cc_exchange :: string
  cc_default_type :: string
  cc_api_key :: "string option"
  cc_secret :: "string option"
  cc_password :: "string option"
  cc_sandbox :: bool

record 'x ccxt_env =
  cx_installed :: bool
  cx_sandbox_ok :: "string \<Rightarrow> bool"
  cx_call :: "client_config \<Rightarrow> string \<Rightarrow> pyval list \<Rightarrow> 'x \<Rightarrow> (exn + pyval) \<times> 'x"

record ccxt_adapter =
  ca_exchange_id :: string
  ca_info :: exchange_info
  ca_credentials :: "credentials option"
  ca_market_type :: string
  ca_breaker :: string

type_synonym 'x net = "breaker_registry \<times> 'x"

definition unsupported :: "string \<Rightarrow> exn" where
  "unsupported exchange_id = AppExn (mk_error UnsupportedExchangeError None [(''exchange'', VStr exchange_id)])"

definition breaker_key :: "string \<Rightarrow> string" where
  "breaker_key exchange_id = ''ccxt:'' @ exchange_id"

definition new_ccxt_adapter ::
    "string \<Rightarrow> credentials option \<Rightarrow> string \<Rightarrow> breaker_registry \<Rightarrow> (exn + ccxt_adapter) \<times> breaker_registry" where
  "new_ccxt_adapter exchange_id creds market_type bs =
     (case get_info exchange_id of
        None \<Rightarrow> (Inl (unsupported exchange_id), bs)
      | Some info \<Rightarrow>
          (Inr \<lparr>ca_exchange_id = ei_id info, ca_info = info, ca_credentials = creds,
                ca_market_type = market_type, ca_breaker = breaker_key (ei_id info)\<rparr>,
           snd (get_circuit_breaker (breaker_key (ei_id info)) 5 30 bs)))"

definition build_client :: "'x ccxt_env \<Rightarrow> ccxt_adapter \<Rightarrow> exn + client_config" where
  "build_client env ad =
     (if \<not> cx_installed env
      then Inl (raise_app ExchangeUnavailableError
        ''ccxt is not installed; install it to use live exchange connectivity.'' [])
      else Inr (case ca_credentials ad of
          None \<Rightarrow> \<lparr>cc_exchange = ca_exchange_id ad, cc_default_type = ca_market_type ad,
                   cc_api_key = None, cc_secret = None, cc_password = None, cc_sandbox = False\<rparr>
        | Some c \<Rightarrow>
            \<lparr>cc_exchange = ca_exchange_id ad, cc_default_type = ca_market_type ad,
             cc_api_key = (if is_complete c then Some (cr_api_key c) else None),
             cc_secret = (if is_complete c then Some (cr_api_secret c) else None),
             cc_password = (if is_complete c then
                 (case cr_passphrase c of Some (h # t) \<Rightarrow> Some (h # t) | _ \<Rightarrow> None) else None),
             cc_sandbox = (cr_testnet c \<and> ei_has_testnet (ca_info ad) \<and> cx_sandbox_ok env (ca_exchange_id ad))\<rparr>))"

definition unavailable_names :: "string list" where
  "unavailable_names = [''NetworkError'', ''RequestTimeout'', ''ExchangeNotAvailable'', ''DDoSProtection'']"

definition exn_text :: "exn \<Rightarrow> pyval" where
  "exn_text x = (case x of AppExn e \<Rightarrow> err_message e | PyExn _ t \<Rightarrow> VStr t)"

definition translate_error :: "ccxt_adapter \<Rightarrow> string \<Rightarrow> exn \<Rightarrow> exn" where
  "translate_error ad meth x =
     (if is_app ExchangeError x then x
      else if (case x of PyExn n _ \<Rightarrow> n \<in> set unavailable_names | AppExn _ \<Rightarrow> False)
      then AppExn (mk_error ExchangeUnavailableError
        (Some (VFmt ''{} unavailable: {}'' [VStr (ca_exchange_id ad), exn_text x]))
        [(''exchange'', VStr (ca_exchange_id ad))])
      else AppExn (mk_error ExchangeError
        (Some (VFmt ''{} error on {}: {}'' [VStr (ca_exchange_id ad), VStr meth, exn_text x]))
        [(''exchange'', VStr (ca_exchange_id ad)), (''method'', VStr meth)]))"

definition invoke ::
    "'x ccxt_env \<Rightarrow> ccxt_adapter \<Rightarrow> string \<Rightarrow> pyval list \<Rightarrow> 'x \<Rightarrow> (exn + pyval) \<times> 'x" where
  "invoke env ad meth args x =
     (case build_client env ad of Inl e \<Rightarrow> (Inl e, x) | Inr cfg \<Rightarrow> cx_call env cfg meth args x)"

text \<open>\<open>clk\<close> gives the clock values at the admission and when the outcome is recorded.\<close>

definition ccxt_call ::
    "'x ccxt_env \<Rightarrow> pyfloat \<times> pyfloat \<Rightarrow> ccxt_adapter \<Rightarrow> string \<Rightarrow> pyval list \<Rightarrow> ('x net, exn, pyval) action" where
  "ccxt_call env clk ad meth args = (\<lambda>(bs, x).
     let (cb, bs') = get_circuit_breaker (ca_breaker ad) 5 30 bs;
         (r, (cb', x')) = breaker_call (fst clk) (snd clk) (invoke env ad meth args) (cb, x)
     in ((case r of Inl e \<Rightarrow> Inl (translate_error ad meth e) | Inr v \<Rightarrow> Inr v),
         (dict_set (ca_breaker ad) cb' bs', x')))"

text \<open>Parse the answer of a call; parsing does not touch the state.\<close>

definition call_then ::
    "('s, exn, pyval) action \<Rightarrow> (pyval \<Rightarrow> exn + 'a) \<Rightarrow> ('s, exn, 'a) action" where
  "call_then act parse s = (case act s of (r, s') \<Rightarrow> (rbind r parse, s'))"

definition py_round2 :: "pyfloat \<Rightarrow> pyfloat" where
  "py_round2 x = fl (of_int (rhe (x * 100)) / 100)"

definition ccxt_status ::
    "'x ccxt_env \<Rightarrow> pyfloat \<Rightarrow> pyfloat \<times> pyfloat \<Rightarrow> pyfloat \<Rightarrow> ccxt_adapter \<Rightarrow> ('x net, exn, exchange_status) action" where
  "ccxt_status env t0 clk t1 ad s =
     (case ccxt_call env clk ad ''fetch_time'' [] s of
        (Inl e, s') \<Rightarrow>
          ((case e of
              AppExn a \<Rightarrow> if subclass_of (err_class a) ExchangeError
                then Inr \<lparr>st_exchange_id = ca_exchange_id ad, st_ok = False, st_latency_ms = None,
                          st_message = Some (err_message a)\<rparr>
                else Inl e
            | PyExn _ _ \<Rightarrow> Inl e), s')
      | (Inr _, s') \<Rightarrow>
          (Inr \<lparr>st_exchange_id = ca_exchange_id ad, st_ok = True,
                st_latency_ms = Some (py_round2 (fmul (fsub t1 t0) 1000)), st_message = None\<rparr>, s'))"

section \<open>Parsing answers\<close>

definition field_dec :: "pyval \<Rightarrow> string \<Rightarrow> exn + decimal option" where
  "field_dec v k = rbind (vget v k VNone) dec_opt"

definition field_dec0 :: "pyval \<Rightarrow> string \<Rightarrow> exn + decimal" where
  "field_dec0 v k = rbind (vget v k VNone) dec0"

definition parse_ticker :: "string \<Rightarrow> pyval \<Rightarrow> exn + ticker" where
  "parse_ticker symbol t =
     rbind (field_dec0 t ''last'') (\<lambda>last'.
     rbind (field_dec t ''bid'') (\<lambda>bid.
     rbind (field_dec t ''ask'') (\<lambda>ask.
     rbind (field_dec t ''high'') (\<lambda>high.
     rbind (field_dec t ''low'') (\<lambda>low.
     rbind (field_dec t ''baseVolume'') (\<lambda>vol.
     rbind (vget t ''timestamp'' VNone) (\<lambda>ts.
       Inr \<lparr>tk_symbol = symbol, tk_last = last', tk_bid = bid, tk_ask = ask, tk_high = high,
            tk_low = low, tk_base_volume = vol, tk_timestamp = vint_opt ts\<rparr>)))))))"

definition parse_level :: "pyval \<Rightarrow> exn + book_level" where
  "parse_level v = rbind (vlist v) (\<lambda>vs. case vs of
       [p, a] \<Rightarrow> rbind (dec0 p) (\<lambda>p'. rbind (dec0 a) (\<lambda>a'. Inr \<lparr>lvl_price = p', lvl_amount = a'\<rparr>))
     | _ \<Rightarrow> Inl (PyExn ''ValueError'' ''unpack''))"

definition parse_levels :: "pyval \<Rightarrow> string \<Rightarrow> exn + book_level list" where
  "parse_levels ob k = rbind (vget ob k (VList [])) (\<lambda>v. rbind (vlist v) (rmap parse_level))"

definition parse_order_book :: "string \<Rightarrow> pyval \<Rightarrow> exn + order_book" where
  "parse_order_book symbol ob =
     rbind (parse_levels ob ''bids'') (\<lambda>bids.
     rbind (parse_levels ob ''asks'') (\<lambda>asks.
     rbind (vget ob ''timestamp'' VNone) (\<lambda>ts.
       Inr \<lparr>ob_symbol = symbol, ob_bids = bids, ob_asks = asks, ob_timestamp = vint_opt ts\<rparr>)))"

definition parse_candle :: "pyval \<Rightarrow> exn + candle" where
  "parse_candle row = rbind (vlist row) (\<lambda>vs. case take 6 vs of
       [ts, op, hi, lo, cl, vol] \<Rightarrow>
         rbind (py_int ts) (\<lambda>t. rbind (rmap py_float [op, hi, lo, cl, vol]) (\<lambda>fs. candle_from_ccxt (of_int t # fs)))
     | _ \<Rightarrow> candle_from_ccxt [])"

definition parse_candles :: "pyval \<Rightarrow> exn + candle list" where
  "parse_candles rows = rbind (vlist rows) (rmap parse_candle)"

definition vdict_keys :: "pyval \<Rightarrow> exn + string list" where
  "vdict_keys v = (case v of VDict d \<Rightarrow> Inr (map fst d) | _ \<Rightarrow> Inl (PyExn ''TypeError'' ''not iterable''))"

text \<open>
  The assets are those of the two dictionaries; Python iterates over the set union in an
  unspecified order, the model over the keys in order of appearance.
\<close>

definition parse_balances :: "pyval \<Rightarrow> exn + balance list" where
  "parse_balances raw =
     rbind (vget raw ''free'' (VDict [])) (\<lambda>free.
     rbind (vget raw ''used'' (VDict [])) (\<lambda>used.
     rbind (vdict_keys free) (\<lambda>fk.
     rbind (vdict_keys used) (\<lambda>uk.
     rbind (rmap (\<lambda>a. rbind (field_dec0 free a) (\<lambda>f. rbind (field_dec0 used a) (\<lambda>u.
              Inr \<lparr>bal_asset = a, bal_free = f, bal_used = u\<rparr>))) (remdups (fk @ uk))) (\<lambda>bs.
       Inr (filter (\<lambda>b. 0 < bal_total b) bs))))))"

definition or_default :: "pyval \<Rightarrow> pyval \<Rightarrow> pyval" where
  "or_default v d = (if py_truthy v then v else d)"

definition parse_position :: "pyval \<Rightarrow> exn + position option" where
  "parse_position p =
     rbind (field_dec0 p ''contracts'') (\<lambda>contracts.
     if contracts = 0 then Inr None
     else
       rbind (rbind (vget p ''symbol'' (VStr [])) vtext) (\<lambda>symbol.
       rbind (rbind (vget p ''side'' VNone) (\<lambda>v. enum_value position_side_of (or_default v (VStr ''long'')))) (\<lambda>side.
       rbind (field_dec0 p ''entryPrice'') (\<lambda>entry.
       rbind (field_dec p ''markPrice'') (\<lambda>mark.
       rbind (rbind (vget p ''leverage'' VNone) (\<lambda>v. py_int (or_default v (VInt 1)))) (\<lambda>lev.
       rbind (rbind (vget p ''marginMode'' VNone) (\<lambda>v. enum_value margin_mode_of (or_default v (VStr ''cross'')))) (\<lambda>mode.
       rbind (field_dec0 p ''unrealizedPnl'') (\<lambda>upnl.
       rbind (field_dec p ''liquidationPrice'') (\<lambda>liq.
         Inr (Some \<lparr>ps_symbol = symbol, ps_side = side, ps_contracts = contracts, ps_entry_price = entry,
                    ps_mark_price = mark, ps_leverage = lev, ps_margin_mode = mode,
                    ps_unrealized_pnl = upnl, ps_liquidation_price = liq\<rparr>))))))))))"

definition parse_positions :: "pyval \<Rightarrow> exn + position list" where
  "parse_positions raw = rbind (vlist raw) (\<lambda>vs. rbind (rmap parse_position vs) (\<lambda>ps.
     Inr (map the (filter (\<lambda>o'. o' \<noteq> None) ps))))"

definition ccxt_status_map :: "(string, order_status) dict" where
  "ccxt_status_map =
     [(''open'', Open), (''closed'', Filled), (''canceled'', Canceled), (''cancelled'', Canceled),
      (''expired'', Expired), (''rejected'', Rejected)]"

definition normalise_type :: "pyval \<Rightarrow> string" where
  "normalise_type v = (case v of
       VStr s \<Rightarrow> (case dict_get
           [(''market'', ''market''), (''limit'', ''limit''), (''stop'', ''stop''),
            (''stop_market'', ''stop''), (''stop_limit'', ''stop_limit''),
            (''take_profit'', ''take_profit''), (''trailing_stop'', ''trailing_stop'')] s of
           None \<Rightarrow> ''limit'' | Some t \<Rightarrow> t)
     | _ \<Rightarrow> ''limit'')"

definition parse_status :: "pyval \<Rightarrow> order_status" where
  "parse_status v = (case v of
       VStr s \<Rightarrow> (case dict_get ccxt_status_map s of None \<Rightarrow> Open | Some st \<Rightarrow> st)
     | _ \<Rightarrow> Open)"

definition parse_fee :: "pyval \<Rightarrow> exn + decimal" where
  "parse_fee raw =
     rbind (vget raw ''fee'' VNone) (\<lambda>fee.
     if \<not> py_truthy fee then Inr 0
     else rbind (vget fee ''cost'' VNone) (\<lambda>cost. if cost = VNone then Inr 0 else dec0 cost))"

text \<open>\<^verbatim>\<open>str(raw.get("id", ""))\<close> for the identifiers ccxt returns: text, a number, or none.\<close>

definition order_id_text :: "pyval \<Rightarrow> exn + string" where
  "order_id_text v = (case v of
       VStr s \<Rightarrow> Inr s
     | VInt i \<Rightarrow> Inr (py_str_int i)
     | VNone \<Rightarrow> Inr ''None''
     | _ \<Rightarrow> Inl (PyExn ''TypeError'' ''id''))"

definition parse_order :: "pyval \<Rightarrow> string \<Rightarrow> exn + order" where
  "parse_order raw symbol =
     rbind (parse_fee raw) (\<lambda>fee.
     rbind (rbind (vget raw ''id'' (VStr [])) order_id_text) (\<lambda>oid.
     rbind (rbind (vget raw ''symbol'' (VStr symbol)) vtext) (\<lambda>sy.
     rbind (rbind (vget raw ''side'' (VStr ''buy'')) (enum_value side_of)) (\<lambda>side.
     rbind (rbind (vget raw ''type'' (VStr ''limit'')) (\<lambda>t. enum_value type_of (VStr (normalise_type t)))) (\<lambda>ty.
     rbind (vget raw ''status'' (VStr [])) (\<lambda>st.
     rbind (field_dec0 raw ''amount'') (\<lambda>amount.
     rbind (field_dec0 raw ''filled'') (\<lambda>filled.
     rbind (field_dec raw ''price'') (\<lambda>price.
     rbind (field_dec raw ''average'') (\<lambda>average.
     rbind (vget raw ''timestamp'' VNone) (\<lambda>ts.
     rbind (vget raw ''clientOrderId'' VNone) (\<lambda>coid.
       Inr \<lparr>o_id = oid, o_symbol = sy, o_side = side, o_type = ty, o_status = parse_status st,
            o_amount = amount, o_filled = filled, o_price = price, o_average = average,
            o_timestamp = vint_opt ts, o_client_order_id = vtext_opt coid, o_fee = fee,
            o_is_paper = False\<rparr>))))))))))))"

section \<open>Operations\<close>

definition ccxt_fetch_ticker where
  "ccxt_fetch_ticker env clk ad symbol =
     call_then (ccxt_call env clk ad ''fetch_ticker'' [VStr symbol]) (parse_ticker symbol)"

definition ccxt_fetch_order_book where
  "ccxt_fetch_order_book env clk ad symbol limit =
     call_then (ccxt_call env clk ad ''fetch_order_book'' [VStr symbol, VInt limit]) (parse_order_book symbol)"

definition ccxt_fetch_ohlcv where
  "ccxt_fetch_ohlcv env clk ad symbol timeframe limit =
     call_then (ccxt_call env clk ad ''fetch_ohlcv'' [VStr symbol, VStr timeframe, VNone, VInt limit]) parse_candles"

definition ccxt_fetch_balance where
  "ccxt_fetch_balance env clk ad = call_then (ccxt_call env clk ad ''fetch_balance'' []) parse_balances"

definition ccxt_fetch_positions where
  "ccxt_fetch_positions env clk ad symbols =
     call_then (ccxt_call env clk ad ''fetch_positions'' [symbols]) parse_positions"

definition order_params :: "order_request \<Rightarrow> (string \<times> pyval) list" where
  "order_params rq =
     (let p0 = rq_params rq;
          p1 = (if rq_reduce_only rq then dict_set ''reduceOnly'' (VBool True) p0 else p0);
          p2 = (if rq_post_only rq then dict_set ''postOnly'' (VBool True) p1 else p1);
          p3 = (case rq_stop_price rq of None \<Rightarrow> p2 | Some sp \<Rightarrow> dict_set ''stopPrice'' (VNum (fl sp)) p2);
          p4 = (case rq_client_order_id rq of
                  Some (c # cs) \<Rightarrow> dict_set ''clientOrderId'' (VStr (c # cs)) p3
                | _ \<Rightarrow> p3)
      in dict_set ''timeInForce'' (VStr (tif_value (rq_time_in_force rq))) p4)"

definition ccxt_create_order where
  "ccxt_create_order env clk ad rq =
     call_then (ccxt_call env clk ad ''create_order''
       [VStr (rq_symbol rq), VStr (type_value (rq_type rq)), VStr (side_value (rq_side rq)),
        VNum (fl (rq_amount rq)), (case rq_price rq of None \<Rightarrow> VNone | Some p \<Rightarrow> VNum (fl p)),
        VDict (order_params rq)])
       (\<lambda>raw. parse_order raw (rq_symbol rq))"

definition ccxt_cancel_order where
  "ccxt_cancel_order env clk ad oid symbol =
     call_then (ccxt_call env clk ad ''cancel_order'' [VStr oid, VStr symbol]) (\<lambda>raw. parse_order raw symbol)"

definition ccxt_fetch_order where
  "ccxt_fetch_order env clk ad oid symbol =
     call_then (ccxt_call env clk ad ''fetch_order'' [VStr oid, VStr symbol]) (\<lambda>raw. parse_order raw symbol)"

definition ccxt_fetch_open_orders where
  "ccxt_fetch_open_orders env clk ad symbol =
     call_then (ccxt_call env clk ad ''fetch_open_orders'' [case symbol of None \<Rightarrow> VNone | Some s \<Rightarrow> VStr s])
       (\<lambda>raw. rbind (vlist raw) (rmap (\<lambda>o'.
          rbind (rbind (vget o' ''symbol'' (VStr (case symbol of None \<Rightarrow> [] | Some s \<Rightarrow> s))) vtext) (parse_order o'))))"

end
