(* ===== verification/Risk.thy ===== *)
theory Risk
  imports Models
begin

text \<open>
  The risk calculators of \<^verbatim>\<open>app/trading/risk.py\<close>: position sizing, profit and loss,
  liquidation price, reward-to-risk and the pre-trade limits. Every arithmetic operation is the
  rounded decimal operation of \<^verbatim>\<open>decimal.Decimal\<close>; the arguments are decimals (the
  conversion \<^verbatim>\<open>_d\<close> is the identity on them).
\<close>

section \<open>Position sizing\<close>

record position_sizing =
  sz_quantity :: decimal
  sz_risk_amount :: decimal
  sz_notional :: decimal

definition position_size ::
    "decimal \<Rightarrow> decimal \<Rightarrow> decimal \<Rightarrow> decimal \<Rightarrow> decimal \<Rightarrow> exn + position_sizing" where
  "position_size balance risk_fraction entry stop lev =
     (if balance \<le> 0 then Inl (raise_app ValidationError ''account_balance must be positive.'' [])
      else if \<not> (0 < risk_fraction \<and> risk_fraction \<le> 1)
        then Inl (raise_app ValidationError ''risk_per_trade must be in (0, 1].'' [])
      else if entry \<le> 0 \<or> stop \<le> 0 then Inl (raise_app ValidationError ''prices must be positive.'' [])
      else if entry = stop
        then Inl (raise_app ValidationError ''entry_price and stop_loss_price must differ.'' [])
      else if lev \<le> 0 then Inl (raise_app ValidationError ''leverage must be positive.'' [])
      else
        let risk_amount = dmul balance risk_fraction;
            per_unit_risk = dabs (dsub entry stop);
            quantity = ddiv risk_amount per_unit_risk;
            notional = dmul quantity entry;
            max_notional = dmul balance lev
        in if max_notional < notional
           then let quantity' = ddiv max_notional entry
                in Inr \<lparr>sz_quantity = quantity', sz_risk_amount = risk_amount,
                        sz_notional = dmul quantity' entry\<rparr>
           else Inr \<lparr>sz_quantity = quantity, sz_risk_amount = risk_amount, sz_notional = notional\<rparr>)"

section \<open>Profit and loss, liquidation, reward to risk\<close>

definition pnl :: "order_side \<Rightarrow> decimal \<Rightarrow> decimal \<Rightarrow> decimal \<Rightarrow> decimal \<Rightarrow> exn + decimal" where
  "pnl side entry exitp qty fee =
     (if qty \<le> 0 \<or> entry \<le> 0 \<or> exitp \<le> 0
      then Inl (raise_app ValidationError ''prices and quantity must be positive.'' [])
      else
        let gross = (if side = Buy then dmul (dsub exitp entry) qty else dmul (dsub entry exitp) qty);
            fees = dmul (dmul (dadd entry exitp) qty) fee
        in Inr (dsub gross fees))"

definition liquidation_price :: "order_side \<Rightarrow> decimal \<Rightarrow> decimal \<Rightarrow> decimal \<Rightarrow> exn + decimal" where
  "liquidation_price side entry lev mmr =
     (if lev \<le> 0 \<or> entry \<le> 0
      then Inl (raise_app ValidationError ''entry_price and leverage must be positive.'' [])
      else
        let imr = ddiv 1 lev
        in if side = Buy then Inr (dmul entry (dadd (dsub 1 imr) mmr))
           else Inr (dmul entry (dsub (dadd 1 imr) mmr)))"

definition risk_reward_ratio :: "decimal \<Rightarrow> decimal \<Rightarrow> decimal \<Rightarrow> exn + decimal" where
  "risk_reward_ratio entry stop target =
     (let risk = dabs (dsub entry stop)
      in if risk = 0 then Inl (raise_app ValidationError ''stop_loss_price must differ from entry_price.'' [])
         else Inr (ddiv (dabs (dsub target entry)) risk))"

section \<open>Pre-trade limits\<close>

record risk_limits =
  rl_max_leverage :: decimal
  rl_max_position_margin_pct :: decimal
  rl_min_risk_reward :: decimal

definition default_risk_limits :: risk_limits where
  "default_risk_limits =
     \<lparr>rl_max_leverage = 20, rl_max_position_margin_pct = 1/2, rl_min_risk_reward = 1\<rparr>"

definition check_order ::
    "risk_limits \<Rightarrow> decimal \<Rightarrow> decimal \<Rightarrow> decimal \<Rightarrow> decimal option \<Rightarrow> exn + unit" where
  "check_order limits notional equity lev rr =
     (if equity \<le> 0
      then Inl (raise_app RiskLimitError ''Account equity must be positive to trade.'' [])
      else if rl_max_leverage limits < lev
      then Inl (AppExn (mk_error RiskLimitError
        (Some (VFmt ''Leverage {} exceeds the maximum of {}.'' [VNum lev, VNum (rl_max_leverage limits)]))
        [(''limit'', VStr ''max_leverage'')]))
      else if dmul (dmul equity lev) (rl_max_position_margin_pct limits) < notional
      then Inl (AppExn (mk_error RiskLimitError
        (Some (VStr ''Position margin exceeds the maximum share of account equity.''))
        [(''limit'', VStr ''max_position_margin_pct'')]))
      else (case rr of
          None \<Rightarrow> Inr ()
        | Some r \<Rightarrow>
            if r < rl_min_risk_reward limits
            then Inl (AppExn (mk_error RiskLimitError
              (Some (VFmt ''Reward-to-risk {} is below the minimum of {}.'' [VNum r, VNum (rl_min_risk_reward limits)]))
              [(''limit'', VStr ''min_risk_reward'')]))
            else Inr ()))"

section \<open>Lemmas\<close>

lemma position_size_ok_iff:
  "is_ok (position_size balance r entry stop lev) \<longleftrightarrow>
     0 < balance \<and> 0 < r \<and> r \<le> 1 \<and> 0 < entry \<and> 0 < stop \<and> entry \<noteq> stop \<and> 0 < lev"
  by (auto simp: position_size_def Let_def not_le)

lemma ddiv_mul_le:
  assumes "0 < entry" "dexact (m / entry)" "dexact m"
  shows "dmul (ddiv m entry) entry = m"
  using assms by (simp add: ddiv_exact dexact_def dops)

lemma dsub_neq_0: "dexact (entry - stop) \<Longrightarrow> entry \<noteq> stop \<Longrightarrow> dabs (dsub entry stop) = \<bar>entry - stop\<bar>"
  by (simp add: dsub_exact dexact_def dabs_def dec.rnd_abs)

lemma check_order_ok_iff:
  "is_ok (check_order limits n e l rr) \<longleftrightarrow>
     0 < e \<and> l \<le> rl_max_leverage limits
     \<and> n \<le> dmul (dmul e l) (rl_max_position_margin_pct limits)
     \<and> (\<forall>r. rr = Some r \<longrightarrow> rl_min_risk_reward limits \<le> r)"
  by (auto simp: check_order_def not_le not_less split: option.splits)

lemma check_order_error_class:
  "check_order limits n e l rr = Inl x \<Longrightarrow> \<exists>err. x = AppExn err \<and> err_class err = RiskLimitError"
  by (auto simp: check_order_def split: if_splits option.splits)

lemma position_size_close:
  assumes "0 < b" "0 < r" "0 < e" "e \<noteq> s"
  defines "q \<equiv> ddiv (dmul b r) (dabs (dsub e s))"
  shows "close 3 (q * \<bar>e - s\<bar>) (b * r)"
proof -
  have ra: "close 1 (dmul b r) (b * r)" and pu: "close 1 (dabs (dsub e s)) \<bar>e - s\<bar>"
    using assms by (simp_all add: close_dmul close_dabs_dsub del: One_nat_def)
  then have pos: "0 < dmul b r" "0 < dabs (dsub e s)" "0 < \<bar>e - s\<bar>" by (simp_all add: close_def)
  have "close 1 q (dmul b r / dabs (dsub e s))" unfolding q_def by (rule close_ddiv) (use pos in auto)
  moreover have "close 1 (dmul b r / dabs (dsub e s)) (dmul b r / \<bar>e - s\<bar>)"
    using close_scale [OF close_inverse [OF pu] pos(1)] by simp
  moreover have "close 1 (dmul b r / \<bar>e - s\<bar>) (b * r / \<bar>e - s\<bar>)"
    using close_scale [OF ra, of "1 / \<bar>e - s\<bar>"] pos by simp
  ultimately have "close 3 q (b * r / \<bar>e - s\<bar>)"
    using close_trans by (metis numeral_3_eq_3 Suc_eq_plus1 One_nat_def)
  from close_scale [OF this pos(3)] pos show ?thesis by simp
qed

lemma position_size_cases:
  assumes "position_size b r e s l = Inr sz"
  obtains (risk) "0 < b" "0 < r" "r \<le> 1" "0 < e" "e \<noteq> s" "0 < l"
      "sz_quantity sz = ddiv (dmul b r) (dabs (dsub e s))" "sz_notional sz = dmul (sz_quantity sz) e"
      "sz_notional sz \<le> dmul b l" "sz_risk_amount sz = dmul b r"
  | (capped) "0 < b" "0 < r" "r \<le> 1" "0 < e" "e \<noteq> s" "0 < l"
      "sz_quantity sz = ddiv (dmul b l) e" "sz_notional sz = dmul (sz_quantity sz) e"
      "dmul b l < dmul (ddiv (dmul b r) (dabs (dsub e s))) e" "sz_risk_amount sz = dmul b r"
  using assms by (auto simp: position_size_def Let_def not_le not_less split: if_splits)

section \<open>Properties\<close>

text \<open>C32: a position that the sizing returns can lose, between entry and stop, at most the chosen
  fraction of the balance, and costs at most the balance times the leverage; and it is as large as
  these two limits allow, one of them being used up. All of this holds up to one part in
  \<open>10\<^sup>26\<close>, whatever the inputs, although every operation rounds to 28 digits.\<close>

theorem position_size_within_limits:
  assumes "position_size b r e s l = Inr sz"
  defines "d \<equiv> 1 - 1 / 10 ^ 26"
  shows "0 < sz_quantity sz \<and> d * (sz_quantity sz * \<bar>e - s\<bar>) \<le> b * r \<and> d * (sz_quantity sz * e) \<le> b * l
    \<and> (d * (b * r) \<le> sz_quantity sz * \<bar>e - s\<bar> \<or> d * (b * l) \<le> sz_quantity sz * e)"
  using assms(1)
proof (cases rule: position_size_cases)
  case risk
  then have c: "close 3 (sz_quantity sz * \<bar>e - s\<bar>) (b * r)" using position_size_close by simp
  then have q: "0 < sz_quantity sz" using risk by (auto simp: close_def zero_less_mult_iff)
  have "below 2 (sz_quantity sz * e) (b * l)"
    using below_trans [OF below_trans [OF close_below [OF close_sym [OF close_dmul]] le_below] close_below [OF close_dmul]]
      risk q by (fastforce simp: numeral_2_eq_2)
  then show ?thesis
    using q risk below_bound [OF close_below [OF c]] below_bound [OF close_below [OF close_sym [OF c]]]
      below_bound [of 2 "sz_quantity sz * e" "b * l"]
    unfolding d_def by simp
next
  case capped
  let ?q = "ddiv (dmul b r) (dabs (dsub e s))"
  have c: "close 3 (?q * \<bar>e - s\<bar>) (b * r)" using position_size_close capped by simp
  have m: "close 1 (dmul b l) (b * l)" using capped by (intro close_dmul)
  then have mp: "0 < dmul b l" by (simp add: close_def)
  have q: "close 1 (sz_quantity sz * e) (dmul b l)"
    using close_scale [OF close_ddiv [OF mp capped(4)] capped(4)] capped by simp
  have qp: "0 < ?q" using c capped by (auto simp: close_def zero_less_mult_iff)
  have "below 2 (sz_quantity sz * e) (?q * e)"
    using below_trans [OF below_trans [OF close_below [OF q] le_below] close_below [OF close_dmul [OF qp capped(4)]]]
      capped by (fastforce simp: numeral_2_eq_2)
  then have "below 2 (sz_quantity sz * \<bar>e - s\<bar>) (?q * \<bar>e - s\<bar>)"
    using below_scale [of 2 "sz_quantity sz * e" "?q * e" "\<bar>e - s\<bar> / e"] capped by simp
  note risk_bound = below_bound [OF below_trans [OF this close_below [OF c]]]
  have n: "close 2 (sz_quantity sz * e) (b * l)" using close_trans [OF q m] by (simp add: numeral_2_eq_2)
  then have "0 < sz_quantity sz" using capped by (auto simp: close_def zero_less_mult_iff)
  then show ?thesis
    using capped risk_bound below_bound [OF close_below [OF n]] below_bound [OF close_below [OF close_sym [OF n]]]
    unfolding d_def by simp
qed

theorem position_size_within_limits_witness:
  "\<exists>sz. position_size 10000 (1/100) 50000 49000 1 = Inr sz \<and> 0 < sz_quantity sz
     \<and> (1 - 1 / 10 ^ 26) * (sz_quantity sz * 1000) \<le> 100"
proof -
  obtain sz where "position_size 10000 (1/100) 50000 49000 1 = Inr sz"
    using position_size_ok_iff [of 10000 "1/100" 50000 49000 1] by (auto simp: is_ok_iff)
  with position_size_within_limits [OF this] show ?thesis by auto
qed

text \<open>A round trip never favours both sides: the profits of the long and of the short trade at
  the same prices sum to at most zero, exactly zero without fees, and only the side the price moved
  towards can gain. This holds exactly, although the four operations involved round.\<close>

theorem pnl_never_favours_both_sides:
  assumes "pnl Buy e x q f = Inr v" and "pnl Sell e x q f = Inr w" and "0 \<le> f"
  shows "v + w \<le> 0 \<and> (f = 0 \<longrightarrow> v + w = 0) \<and> (0 < v \<longrightarrow> e < x) \<and> (0 < w \<longrightarrow> x < e)"
proof -
  define g where "g = dmul (dsub x e) q"
  define k where "k = dmul (dmul (dadd e x) q) f"
  have mirror: "dmul (dsub e x) q = - g"
    using dec.rnd_minus [of "x - e"] dec.rnd_minus [of "dround (x - e) * q"] by (simp add: g_def dops)
  have pos: "0 < q" "0 < e" "0 < x" and v: "v = dsub g k" and w: "w = dsub (- g) k"
    using assms by (auto simp: pnl_def Let_def mirror g_def k_def split: if_splits)
  have k: "0 \<le> k" using pos assms(3) by (simp add: k_def dec_nonneg)
  have gx: "dround g = g" "dround (- g) = - g" by (simp_all add: g_def dops dec.rnd_idem dec.rnd_minus)
  have "v \<le> g" "w \<le> - g" using k gx v w by (auto simp: dops intro: dec.rnd_upper)
  moreover have "0 < g \<Longrightarrow> e < x" "g < 0 \<Longrightarrow> x < e"
    using dmul_nonneg [OF dsub_nonneg, of x e q] dmul_nonneg [OF dsub_nonneg, of e x q] pos
    by (auto simp: mirror g_def [symmetric] intro: ccontr)
  moreover have "f = 0 \<Longrightarrow> v = g \<and> w = - g" using gx v w by (simp add: k_def dsub_def)
  ultimately show ?thesis by auto
qed

theorem pnl_never_favours_both_sides_witness:
  "\<exists>v w. pnl Buy 100 110 3 (1/1000) = Inr v \<and> pnl Sell 100 110 3 (1/1000) = Inr w \<and> v + w \<le> 0"
proof -
  obtain v w where "pnl Buy 100 110 3 (1/1000) = Inr v" "pnl Sell 100 110 3 (1/1000) = Inr w"
    by (simp add: pnl_def Let_def)
  with pnl_never_favours_both_sides [OF this] show ?thesis by auto
qed

text \<open>When the leverage caps a position, the reported risk amount is not what the position can
  lose: with 10000 at 100 % risk, entry 100 and stop 99, the sizing reports 10000 at risk while the
  100 units it returns lose 100 at the stop.\<close>

lemma capped_size_overstates_risk:
  "position_size 10000 1 100 99 1 = Inr \<lparr>sz_quantity = 100, sz_risk_amount = 10000, sz_notional = 10000\<rparr>"
  by code_simp

end
