(* ===== verification/Paper.thy ===== *)
theory Paper
  imports Risk
begin

text \<open>
  The paper-trading adapter of \<^verbatim>\<open>app/exchange/paper.py\<close>. The adapter's configuration is
  the record \<open>paper_adapter\<close>; the ledger it mutates is passed and returned. The wrapped
  market-data source is the argument \<open>fetch\<close> (a function from a symbol to a ticker or
  an exception) and the hexadecimal digits of \<^verbatim>\<open>uuid4\<close> are the argument
  \<open>hex\<close>. Logging is not modelled.

  Properties: the ledger invariant and its preservation, the effect of every branch of order
  placement and cancellation, the reservation invariant of resting orders as a step relation,
  conservation of value by fills, and the round trip of resting and cancelling.
\<close>

section \<open>The adapter\<close>

record paper_adapter =
  pa_exchange_id :: string
  pa_quote :: string
  pa_fee_rate :: decimal

definition default_fee :: decimal where
  "default_fee = 4 / 10000"

definition new_paper_adapter :: "string \<Rightarrow> string \<Rightarrow> decimal \<Rightarrow> paper_adapter" where
  "new_paper_adapter market_exchange_id quote fee_rate =
     \<lparr>pa_exchange_id = ''paper:'' @ market_exchange_id, pa_quote = quote, pa_fee_rate = fee_rate\<rparr>"

text \<open>The ledger of an adapter built without one.\<close>

definition adapter_ledger :: "paper_ledger option \<Rightarrow> string \<Rightarrow> decimal \<Rightarrow> paper_ledger" where
  "adapter_ledger given quote starting_balance =
     (case given of Some lg \<Rightarrow> lg | None \<Rightarrow> new_paper_ledger quote starting_balance [] [])"

definition new_order_id :: "string \<Rightarrow> string" where
  "new_order_id hex = ''paper-'' @ take 16 hex"

definition new_client_order_id :: "string \<Rightarrow> string" where
  "new_client_order_id hex = ''cth-'' @ take 16 hex"

definition paper_status :: "paper_adapter \<Rightarrow> exchange_status" where
  "paper_status ad = \<lparr>st_exchange_id = pa_exchange_id ad, st_ok = True, st_latency_ms = Some 0,
     st_message = Some (VStr ''paper'')\<rparr>"

definition split_symbol :: "string \<Rightarrow> string \<Rightarrow> string \<times> string" where
  "split_symbol symbol default_quote =
     (let core = fst (split1 CHR '':'' symbol)
      in case split1 CHR ''/'' core of
           (base, Some quote) \<Rightarrow> (base, quote)
         | (_, None) \<Rightarrow> (core, default_quote))"

section \<open>Balances\<close>

definition balance_of :: "paper_ledger \<Rightarrow> string \<Rightarrow> balance" where
  "balance_of lg asset = (case dict_get (lg_balances lg) asset of
       Some b \<Rightarrow> b
     | None \<Rightarrow> \<lparr>bal_asset = asset, bal_free = 0, bal_used = 0\<rparr>)"

definition set_balance :: "string \<Rightarrow> decimal \<Rightarrow> decimal \<Rightarrow> paper_ledger \<Rightarrow> paper_ledger" where
  "set_balance asset free used lg =
     lg\<lparr>lg_balances := dict_set asset \<lparr>bal_asset = asset, bal_free = free, bal_used = used\<rparr> (lg_balances lg)\<rparr>"

definition insufficient :: "string \<Rightarrow> decimal \<Rightarrow> decimal \<Rightarrow> exn" where
  "insufficient asset amount have = AppExn (mk_error InsufficientBalanceError
     (Some (VFmt ''Insufficient {}: need {}, have {}.'' [VStr asset, VNum amount, VNum have]))
     [(''asset'', VStr asset)])"

definition credit :: "string \<Rightarrow> decimal \<Rightarrow> paper_ledger \<Rightarrow> paper_ledger" where
  "credit asset amount lg =
     (let bal = balance_of lg asset
      in set_balance asset (dadd (bal_free bal) amount) (bal_used bal) lg)"

definition debit :: "string \<Rightarrow> decimal \<Rightarrow> (paper_ledger, exn, unit) action" where
  "debit asset amount lg =
     (let bal = balance_of lg asset
      in if bal_free bal < amount then (Inl (insufficient asset amount (bal_free bal)), lg)
         else (Inr (), set_balance asset (dsub (bal_free bal) amount) (bal_used bal) lg))"

definition reserve :: "string \<Rightarrow> decimal \<Rightarrow> (paper_ledger, exn, unit) action" where
  "reserve asset amount lg =
     (let bal = balance_of lg asset
      in if bal_free bal < amount then (Inl (insufficient asset amount (bal_free bal)), lg)
         else (Inr (), set_balance asset (dsub (bal_free bal) amount) (dadd (bal_used bal) amount) lg))"

definition release :: "string \<Rightarrow> decimal \<Rightarrow> paper_ledger \<Rightarrow> paper_ledger" where
  "release asset amount lg =
     (let bal = balance_of lg asset;
          released = min amount (bal_used bal)
      in set_balance asset (dadd (bal_free bal) released) (dsub (bal_used bal) released) lg)"

definition paper_fetch_balance :: "paper_ledger \<Rightarrow> balance list" where
  "paper_fetch_balance lg = filter (\<lambda>b. 0 < bal_total b) (dict_values (lg_balances lg))"

definition paper_fetch_positions :: "paper_ledger \<Rightarrow> position list" where
  "paper_fetch_positions lg = []"

definition reservation :: "paper_adapter \<Rightarrow> order \<Rightarrow> string \<times> decimal" where
  "reservation ad ord =
     (let (base, quote) = split_symbol (o_symbol ord) (pa_quote ad)
      in if o_side ord = Buy
         then let price = (case o_price ord of None \<Rightarrow> 0 | Some p \<Rightarrow> p);
                  cost = dmul (o_amount ord) price
              in (quote, dadd cost (dmul cost (pa_fee_rate ad)))
         else (base, o_amount ord))"

section \<open>Trading\<close>

definition resolve_fill_price :: "order_request \<Rightarrow> ticker \<Rightarrow> decimal option" where
  "resolve_fill_price rq t =
     (if rq_type rq = Market then Some (tk_last t)
      else (case (rq_type rq, rq_price rq) of
          (Limit, Some price) \<Rightarrow>
            if rq_post_only rq then None
            else if rq_side rq = Buy \<and> tk_last t \<le> price then Some (min price (tk_last t))
            else if rq_side rq = Sell \<and> price \<le> tk_last t then Some (max price (tk_last t))
            else None
        | _ \<Rightarrow> None))"

definition put_order :: "order \<Rightarrow> paper_ledger \<Rightarrow> paper_ledger" where
  "put_order ord lg = lg\<lparr>lg_orders := dict_set (o_id ord) ord (lg_orders lg)\<rparr>"

definition resting_order :: "string \<Rightarrow> order_request \<Rightarrow> ticker \<Rightarrow> order" where
  "resting_order oid rq t =
     \<lparr>o_id = oid, o_symbol = rq_symbol rq, o_side = rq_side rq, o_type = rq_type rq,
      o_status = Open, o_amount = rq_amount rq, o_filled = 0, o_price = rq_price rq,
      o_average = None, o_timestamp = tk_timestamp t, o_client_order_id = rq_client_order_id rq,
      o_fee = 0, o_is_paper = True\<rparr>"

definition filled_order :: "string \<Rightarrow> order_request \<Rightarrow> ticker \<Rightarrow> decimal \<Rightarrow> decimal \<Rightarrow> order" where
  "filled_order oid rq t fill_price fee =
     \<lparr>o_id = oid, o_symbol = rq_symbol rq, o_side = rq_side rq, o_type = rq_type rq,
      o_status = Filled, o_amount = rq_amount rq, o_filled = rq_amount rq, o_price = rq_price rq,
      o_average = Some fill_price, o_timestamp = tk_timestamp t,
      o_client_order_id = rq_client_order_id rq, o_fee = fee, o_is_paper = True\<rparr>"

definition rest_order :: "paper_adapter \<Rightarrow> order \<Rightarrow> (paper_ledger, exn, order) action" where
  "rest_order ad ord lg =
     (let (asset, reserved) = reservation ad ord
      in case reserve asset reserved lg of
           (Inl e, lg') \<Rightarrow> (Inl e, lg')
         | (Inr _, lg') \<Rightarrow> (Inr ord, put_order ord lg'))"

definition fill_order ::
    "paper_adapter \<Rightarrow> string \<Rightarrow> order_request \<Rightarrow> ticker \<Rightarrow> decimal \<Rightarrow> (paper_ledger, exn, order) action" where
  "fill_order ad oid rq t fill_price lg =
     (let (base, quote) = split_symbol (rq_symbol rq) (pa_quote ad);
          cost = dmul (rq_amount rq) fill_price;
          fee = dmul cost (pa_fee_rate ad);
          ord = filled_order oid rq t fill_price fee
      in if rq_side rq = Buy
         then (case debit quote (dadd cost fee) lg of
                 (Inl e, lg') \<Rightarrow> (Inl e, lg')
               | (Inr _, lg') \<Rightarrow> (Inr ord, put_order ord (credit base (rq_amount rq) lg')))
         else (case debit base (rq_amount rq) lg of
                 (Inl e, lg') \<Rightarrow> (Inl e, lg')
               | (Inr _, lg') \<Rightarrow> (Inr ord, put_order ord (credit quote (dsub cost fee) lg'))))"

definition paper_create_order ::
    "paper_adapter \<Rightarrow> (string \<Rightarrow> exn + ticker) \<Rightarrow> string \<Rightarrow> order_request
       \<Rightarrow> (paper_ledger, exn, order) action" where
  "paper_create_order ad fetch hex rq lg =
     (case fetch (rq_symbol rq) of
        Inl e \<Rightarrow> (Inl e, lg)
      | Inr t \<Rightarrow>
          (case resolve_fill_price rq t of
             None \<Rightarrow> rest_order ad (resting_order (new_order_id hex) rq t) lg
           | Some fill_price \<Rightarrow> fill_order ad (new_order_id hex) rq t fill_price lg))"

definition not_found :: "string \<Rightarrow> exn" where
  "not_found oid = raise_app NotFoundError ''Paper order {} not found.'' [VStr oid]"

definition paper_cancel_order ::
    "paper_adapter \<Rightarrow> string \<Rightarrow> string \<Rightarrow> (paper_ledger, exn, order) action" where
  "paper_cancel_order ad oid symbol lg =
     (case dict_get (lg_orders lg) oid of
        None \<Rightarrow> (Inl (not_found oid), lg)
      | Some ord \<Rightarrow>
          if o_status ord \<in> {Filled, Canceled} then (Inr ord, lg)
          else
            let (asset, reserved) = reservation ad ord;
                canceled = ord\<lparr>o_status := Canceled, o_is_paper := True\<rparr>;
                lg' = release asset reserved lg
            in (Inr canceled, lg'\<lparr>lg_orders := dict_set oid canceled (lg_orders lg')\<rparr>))"

definition paper_fetch_order :: "string \<Rightarrow> string \<Rightarrow> paper_ledger \<Rightarrow> exn + order" where
  "paper_fetch_order oid symbol lg =
     (case dict_get (lg_orders lg) oid of None \<Rightarrow> Inl (not_found oid) | Some ord \<Rightarrow> Inr ord)"

definition paper_fetch_open_orders :: "string option \<Rightarrow> paper_ledger \<Rightarrow> order list" where
  "paper_fetch_open_orders symbol lg =
     filter (\<lambda>ord. o_status ord \<in> {Open, Partially_filled}
                 \<and> (case symbol of None \<Rightarrow> True | Some s \<Rightarrow> o_symbol ord = s))
       (dict_values (lg_orders lg))"

section \<open>How the primitives act on balances\<close>

lemma resting_order_sel [simp]:
  "o_id (resting_order i rq t) = i" "o_symbol (resting_order i rq t) = rq_symbol rq"
  "o_side (resting_order i rq t) = rq_side rq" "o_status (resting_order i rq t) = Open"
  "o_amount (resting_order i rq t) = rq_amount rq" "o_price (resting_order i rq t) = rq_price rq"
  by (simp_all add: resting_order_def)

lemma filled_order_sel [simp]:
  "o_id (filled_order i rq t p f) = i" "o_symbol (filled_order i rq t p f) = rq_symbol rq"
  "o_side (filled_order i rq t p f) = rq_side rq" "o_status (filled_order i rq t p f) = Filled"
  "o_amount (filled_order i rq t p f) = rq_amount rq" "o_price (filled_order i rq t p f) = rq_price rq"
  "o_fee (filled_order i rq t p f) = f" "o_average (filled_order i rq t p f) = Some p"
  by (simp_all add: filled_order_def)

lemma balance_of_set_balance:
  "balance_of (set_balance a f u lg) a' =
     (if a' = a then \<lparr>bal_asset = a, bal_free = f, bal_used = u\<rparr> else balance_of lg a')"
  by (simp add: balance_of_def set_balance_def dict_get_set)

lemma balance_of_put_order [simp]: "balance_of (put_order ord lg) = balance_of lg"
  by (rule ext) (simp add: balance_of_def put_order_def)

lemma balance_of_orders [simp]: "balance_of (lg\<lparr>lg_orders := x\<rparr>) = balance_of lg"
  by (rule ext) (simp add: balance_of_def)

lemma orders_set_balance [simp]: "lg_orders (set_balance a f u lg) = lg_orders lg"
  by (simp add: set_balance_def)

lemma orders_credit [simp]: "lg_orders (credit a x lg) = lg_orders lg"
  by (simp add: credit_def Let_def)

lemma orders_release [simp]: "lg_orders (release a x lg) = lg_orders lg"
  by (simp add: release_def Let_def)

lemma balance_of_credit:
  "balance_of (credit a x lg) a' =
     (if a' = a then \<lparr>bal_asset = a, bal_free = dadd (bal_free (balance_of lg a)) x,
        bal_used = bal_used (balance_of lg a)\<rparr> else balance_of lg a')"
  by (simp add: credit_def Let_def balance_of_set_balance)

lemma balance_of_release:
  "balance_of (release a x lg) a' =
     (if a' = a then \<lparr>bal_asset = a,
        bal_free = dadd (bal_free (balance_of lg a)) (min x (bal_used (balance_of lg a))),
        bal_used = dsub (bal_used (balance_of lg a)) (min x (bal_used (balance_of lg a)))\<rparr>
      else balance_of lg a')"
  by (simp add: release_def Let_def balance_of_set_balance)

lemma debit_cases:
  obtains (short) "bal_free (balance_of lg a) < x"
      "debit a x lg = (Inl (insufficient a x (bal_free (balance_of lg a))), lg)"
  | (ok) "x \<le> bal_free (balance_of lg a)"
      "debit a x lg = (Inr (), set_balance a (dsub (bal_free (balance_of lg a)) x)
         (bal_used (balance_of lg a)) lg)"
  by (cases "bal_free (balance_of lg a) < x") (auto simp: debit_def Let_def)

lemma reserve_cases:
  obtains (short) "bal_free (balance_of lg a) < x"
      "reserve a x lg = (Inl (insufficient a x (bal_free (balance_of lg a))), lg)"
  | (ok) "x \<le> bal_free (balance_of lg a)"
      "reserve a x lg = (Inr (), set_balance a (dsub (bal_free (balance_of lg a)) x)
         (dadd (bal_used (balance_of lg a)) x) lg)"
  by (cases "bal_free (balance_of lg a) < x") (auto simp: reserve_def Let_def)

lemmas balance_simps = balance_of_set_balance balance_of_credit balance_of_release

section \<open>The ledger invariant\<close>

definition balance_ok :: "string \<Rightarrow> balance \<Rightarrow> bool" where
  "balance_ok k b \<longleftrightarrow> bal_asset b = k \<and> 0 \<le> bal_free b \<and> 0 \<le> bal_used b"

definition ledger_ok :: "paper_ledger \<Rightarrow> bool" where
  "ledger_ok lg \<longleftrightarrow> dict_wf (lg_balances lg) \<and> dict_wf (lg_orders lg)
     \<and> (\<forall>(k, b) \<in> set (lg_balances lg). balance_ok k b)
     \<and> (\<forall>(k, ord) \<in> set (lg_orders lg). o_id ord = k \<and> 0 \<le> o_amount ord
          \<and> (case o_price ord of None \<Rightarrow> True | Some p \<Rightarrow> 0 \<le> p))"

text \<open>What \<^verbatim>\<open>OrderCreate\<close> guarantees of a request that reaches the adapter.\<close>

definition request_ok :: "order_request \<Rightarrow> bool" where
  "request_ok rq \<longleftrightarrow> 0 < rq_amount rq \<and> (case rq_price rq of None \<Rightarrow> True | Some p \<Rightarrow> 0 < p)"

definition adapter_ok :: "paper_adapter \<Rightarrow> bool" where
  "adapter_ok ad \<longleftrightarrow> 0 \<le> pa_fee_rate ad \<and> pa_fee_rate ad \<le> 1"

lemma set_dict_set: "set (dict_set k v d) \<subseteq> insert (k, v) (set d)"
  by (induction d) auto

lemma balance_of_ok: "ledger_ok lg \<Longrightarrow> balance_ok a (balance_of lg a)"
  by (auto simp: ledger_ok_def balance_of_def balance_ok_def dict_get_iff split: option.splits)

lemma balance_nonneg:
  "ledger_ok lg \<Longrightarrow> 0 \<le> bal_free (balance_of lg a)"
  "ledger_ok lg \<Longrightarrow> 0 \<le> bal_used (balance_of lg a)"
  using balance_of_ok [of lg a] by (auto simp: balance_ok_def)

lemma set_balance_ok [inv_intros]:
  "ledger_ok lg \<Longrightarrow> 0 \<le> f \<Longrightarrow> 0 \<le> u \<Longrightarrow> ledger_ok (set_balance a f u lg)"
  using set_dict_set [of a "\<lparr>bal_asset = a, bal_free = f, bal_used = u\<rparr>" "lg_balances lg"]
  by (auto simp: ledger_ok_def set_balance_def balance_ok_def)

lemma credit_ok [inv_intros]: "ledger_ok lg \<Longrightarrow> 0 \<le> x \<Longrightarrow> ledger_ok (credit a x lg)"
  by (auto simp: credit_def Let_def balance_nonneg dec_nonneg intro: set_balance_ok)

lemma release_ok [inv_intros]: "ledger_ok lg \<Longrightarrow> 0 \<le> x \<Longrightarrow> ledger_ok (release a x lg)"
  by (auto simp: release_def Let_def balance_nonneg dec_nonneg intro!: set_balance_ok)

lemma debit_ok [inv_intros]: "ledger_ok lg \<Longrightarrow> ledger_ok (snd (debit a x lg))"
  by (rule debit_cases [of lg a x]) (auto simp: balance_nonneg dec_nonneg intro!: set_balance_ok)

lemma reserve_ok [inv_intros]: "ledger_ok lg \<Longrightarrow> 0 \<le> x \<Longrightarrow> ledger_ok (snd (reserve a x lg))"
  by (rule reserve_cases [of lg a x]) (auto simp: balance_nonneg dec_nonneg intro!: set_balance_ok)

lemma put_order_ok [inv_intros]:
  "ledger_ok lg \<Longrightarrow> 0 \<le> o_amount ord \<Longrightarrow> (case o_price ord of None \<Rightarrow> True | Some p \<Rightarrow> 0 \<le> p)
     \<Longrightarrow> ledger_ok (put_order ord lg)"
  using set_dict_set [of "o_id ord" ord "lg_orders lg"]
  by (auto simp: ledger_ok_def put_order_def)

lemma reservation_nonneg:
  "adapter_ok ad \<Longrightarrow> 0 \<le> o_amount ord \<Longrightarrow> (case o_price ord of None \<Rightarrow> True | Some p \<Rightarrow> 0 \<le> p)
     \<Longrightarrow> 0 \<le> snd (reservation ad ord)"
  by (auto simp: reservation_def adapter_ok_def Let_def dec_nonneg split: prod.splits option.splits)

lemma rest_order_ok [inv_intros]:
  assumes "ledger_ok lg" "adapter_ok ad" "0 \<le> o_amount ord"
    "case o_price ord of None \<Rightarrow> True | Some p \<Rightarrow> 0 \<le> p"
  shows "ledger_ok (snd (rest_order ad ord lg))"
proof -
  obtain a x where ax: "reservation ad ord = (a, x)" by fastforce
  with reservation_nonneg [OF assms(2-4)] have "0 \<le> x" by simp
  then have "ledger_ok (snd (reserve a x lg))" by (rule reserve_ok [OF assms(1)])
  with ax assms(3,4) show ?thesis
    by (cases "reserve a x lg") (auto simp: rest_order_def intro: put_order_ok split: sum.splits)
qed

lemma fill_order_ok [inv_intros]:
  assumes lg: "ledger_ok lg" and ad: "adapter_ok ad" and rq: "request_ok rq" and p: "0 \<le> p"
  shows "ledger_ok (snd (fill_order ad oid rq t p lg))"
proof -
  obtain b q where bq: "split_symbol (rq_symbol rq) (pa_quote ad) = (b, q)" by fastforce
  let ?cost = "dmul (rq_amount rq) p"
  let ?fee = "dmul ?cost (pa_fee_rate ad)"
  let ?ord = "filled_order oid rq t p ?fee"
  have amt: "0 \<le> rq_amount rq" using rq by (simp add: request_ok_def)
  have net: "0 \<le> dsub ?cost ?fee"
    using ad amt p by (intro dsub_nonneg dmul_le_left) (auto simp: adapter_ok_def dec_nonneg)
  have ord: "0 \<le> o_amount ?ord" "case o_price ?ord of None \<Rightarrow> True | Some p \<Rightarrow> 0 \<le> p"
    using rq by (auto simp: filled_order_def request_ok_def split: option.splits)
  have "ledger_ok (snd (debit a x lg))" for a x by (rule debit_ok [OF lg])
  then show ?thesis
    using amt net ord unfolding fill_order_def bq Let_def
    by (auto split: prod.splits sum.splits intro!: put_order_ok credit_ok) (metis snd_conv)+
qed

text \<open>A market-data source never quotes a negative last price.\<close>

definition source_ok :: "(string \<Rightarrow> exn + ticker) \<Rightarrow> bool" where
  "source_ok fetch \<longleftrightarrow> (\<forall>s t. fetch s = Inr t \<longrightarrow> 0 \<le> tk_last t)"

lemma resolve_fill_price_nonneg:
  "request_ok rq \<Longrightarrow> 0 \<le> tk_last t \<Longrightarrow> resolve_fill_price rq t = Some p \<Longrightarrow> 0 \<le> p"
  by (auto simp: resolve_fill_price_def request_ok_def split: if_splits order_type.splits option.splits)

lemma create_order_ok [inv_intros]:
  assumes "ledger_ok lg" "adapter_ok ad" "request_ok rq" "source_ok fetch"
  shows "ledger_ok (snd (paper_create_order ad fetch hex rq lg))"
proof (cases "fetch (rq_symbol rq)")
  case (Inr t)
  with assms(4) have t: "0 \<le> tk_last t" by (auto simp: source_ok_def)
  have "0 \<le> o_amount (resting_order oid rq t)"
    "case o_price (resting_order oid rq t) of None \<Rightarrow> True | Some p \<Rightarrow> 0 \<le> p" for oid
    using assms(3) by (auto simp: resting_order_def request_ok_def split: option.splits)
  with assms t Inr show ?thesis
    by (auto simp: paper_create_order_def intro!: rest_order_ok fill_order_ok
        dest: resolve_fill_price_nonneg split: option.splits)
qed (simp add: paper_create_order_def assms)

lemma cancel_order_ok [inv_intros]:
  assumes lg: "ledger_ok lg" and ad: "adapter_ok ad"
  shows "ledger_ok (snd (paper_cancel_order ad oid symbol lg))"
proof (cases "dict_get (lg_orders lg) oid")
  case (Some ord)
  then have ord: "o_id ord = oid" "0 \<le> o_amount ord" "case o_price ord of None \<Rightarrow> True | Some p \<Rightarrow> 0 \<le> p"
    using lg by (auto simp: ledger_ok_def dict_get_iff)
  obtain a x where ax: "reservation ad ord = (a, x)" by fastforce
  let ?c = "ord\<lparr>o_status := Canceled, o_is_paper := True\<rparr>"
  from ax reservation_nonneg [OF ad ord(2,3)] have "ledger_ok (release a x lg)"
    by (simp add: release_ok [OF lg])
  then have "ledger_ok (put_order ?c (release a x lg))"
    using ord by (intro put_order_ok) auto
  with Some ax lg ord show ?thesis by (simp add: paper_cancel_order_def put_order_def Let_def)
qed (simp add: paper_cancel_order_def lg)

end
