(* ===== verification/Paper_Reservations.thy ===== *)
theory Paper_Reservations
  imports Paper
begin

text \<open>
  The funds behind resting paper orders. Placing and cancelling orders is a step relation on
  ledgers; the invariant says that the \<open>used\<close> balance of every asset is exactly the sum
  of what the open orders hold reserved in it, so an account never rests more than it can pay
  for. The steps carry the side condition that the \<open>used\<close> column stays within the 28
  digits of the decimal context, where its arithmetic is exact.
\<close>

section \<open>What an order holds reserved\<close>

definition held :: "paper_adapter \<Rightarrow> string \<Rightarrow> order \<Rightarrow> decimal" where
  "held ad a ord = (if o_status ord \<notin> {Filled, Canceled} \<and> fst (reservation ad ord) = a
     then snd (reservation ad ord) else 0)"

definition total_held :: "paper_adapter \<Rightarrow> paper_ledger \<Rightarrow> string \<Rightarrow> decimal" where
  "total_held ad lg a = sum_list (map (held ad a) (dict_values (lg_orders lg)))"

definition backed :: "paper_adapter \<Rightarrow> paper_ledger \<Rightarrow> bool" where
  "backed ad lg \<longleftrightarrow> (\<forall>a. bal_used (balance_of lg a) = total_held ad lg a)"

lemma sum_values_set_new:
  "dict_get d k = None \<Longrightarrow>
     sum_list (map f (dict_values (dict_set k v d))) = sum_list (map f (dict_values d)) + f v"
  by (simp add: dict_set_new)

lemma sum_values_set_old:
  fixes f :: "'v \<Rightarrow> 'a::ab_group_add"
  shows "dict_get d k = Some w \<Longrightarrow>
     sum_list (map f (dict_values (dict_set k v d))) = sum_list (map f (dict_values d)) - f w + f v"
  by (induction d) (auto split: if_splits)

lemma held_nonneg:
  "adapter_ok ad \<Longrightarrow> 0 \<le> o_amount ord \<Longrightarrow> (case o_price ord of None \<Rightarrow> True | Some p \<Rightarrow> 0 \<le> p)
     \<Longrightarrow> 0 \<le> held ad a ord"
  by (simp add: held_def reservation_nonneg)

lemma held_le_total:
  assumes lg: "ledger_ok lg" and ad: "adapter_ok ad" and get: "dict_get (lg_orders lg) k = Some ord"
  shows "held ad a ord \<le> total_held ad lg a"
proof -
  have "0 \<le> held ad a o'" if "o' \<in> set (dict_values (lg_orders lg))" for o'
    using that lg by (intro held_nonneg [OF ad]) (auto simp: ledger_ok_def)
  then have nn: "\<forall>x \<in> set (map (held ad a) (dict_values (lg_orders lg))). 0 \<le> x" by auto
  have "held ad a ord \<in> set (map (held ad a) (dict_values (lg_orders lg)))"
    using get by (auto dest!: map_of_SomeD intro!: image_eqI)
  then show ?thesis unfolding total_held_def using nn by (intro member_le_sum_list) auto
qed

lemma total_held_put_new:
  "dict_get (lg_orders lg) (o_id ord) = None \<Longrightarrow>
     total_held ad (put_order ord lg) a = total_held ad lg a + held ad a ord"
  by (simp add: total_held_def put_order_def sum_values_set_new del: map_map)

section \<open>Placing and cancelling as steps\<close>

text \<open>The decimal context represents the \<open>used\<close> balance the reservation of an order leads to.\<close>

definition used_exact :: "paper_adapter \<Rightarrow> order \<Rightarrow> paper_ledger \<Rightarrow> bool" where
  "used_exact ad ord lg \<longleftrightarrow> (let (a, x) = reservation ad ord; u = bal_used (balance_of lg a)
     in dexact (u + x) \<and> dexact (u - x))"

inductive paper_step :: "paper_adapter \<Rightarrow> paper_ledger \<Rightarrow> paper_ledger \<Rightarrow> bool" for ad where
  place: "\<lbrakk>request_ok rq; source_ok fetch; dict_get (lg_orders lg) (new_order_id hex) = None;
           \<forall>t. fetch (rq_symbol rq) = Inr t \<longrightarrow> used_exact ad (resting_order (new_order_id hex) rq t) lg\<rbrakk>
     \<Longrightarrow> paper_step ad lg (snd (paper_create_order ad fetch hex rq lg))"
| cancel: "\<lbrakk>\<forall>ord. dict_get (lg_orders lg) oid = Some ord \<longrightarrow> used_exact ad ord lg\<rbrakk>
     \<Longrightarrow> paper_step ad lg (snd (paper_cancel_order ad oid symbol lg))"

inductive_cases paper_stepE: "paper_step ad lg lg'"

lemma backed_rest:
  assumes "backed ad lg" and fresh: "dict_get (lg_orders lg) (o_id ord) = None"
    and ex: "used_exact ad ord lg" and st: "o_status ord = Open"
  shows "backed ad (snd (rest_order ad ord lg))"
proof -
  obtain a x where ax: "reservation ad ord = (a, x)" by fastforce
  with ex have ux: "dadd (bal_used (balance_of lg a)) x = bal_used (balance_of lg a) + x"
    by (simp add: used_exact_def dadd_exact Let_def)
  show ?thesis
  proof (rule reserve_cases [of lg a x])
    assume "reserve a x lg = (Inr (), set_balance a (dsub (bal_free (balance_of lg a)) x)
      (dadd (bal_used (balance_of lg a)) x) lg)" (is "_ = (_, ?lg')")
    then have r: "snd (rest_order ad ord lg) = put_order ord ?lg'" by (simp add: rest_order_def ax)
    have "total_held ad (put_order ord ?lg') b = total_held ad lg b + held ad b ord" for b
      using fresh total_held_put_new [of ?lg' ord ad b] by (simp add: total_held_def)
    then show ?thesis
      using assms(1) ux st unfolding r by (auto simp: backed_def held_def ax balance_of_set_balance)
  qed (simp add: rest_order_def ax assms(1))
qed

lemma debit_used [simp]: "bal_used (balance_of (snd (debit a x lg)) b) = bal_used (balance_of lg b)"
  by (rule debit_cases [of lg a x]) (auto simp: balance_of_set_balance)

lemma debit_orders [simp]: "lg_orders (snd (debit a x lg)) = lg_orders lg"
  by (rule debit_cases [of lg a x]) auto

lemma credit_used [simp]: "bal_used (balance_of (credit a x lg) b) = bal_used (balance_of lg b)"
  by (simp add: balance_of_credit)

lemma fill_order_result:
  obtains (error) e where "fill_order ad oid rq t p lg = (Inl e, lg)"
  | (filled) ord lg' where "fill_order ad oid rq t p lg = (Inr ord, put_order ord lg')"
      "o_id ord = oid" "o_status ord = Filled" "lg_orders lg' = lg_orders lg"
      "\<forall>a. bal_used (balance_of lg' a) = bal_used (balance_of lg a)"
proof -
  obtain b q where bq: "split_symbol (rq_symbol rq) (pa_quote ad) = (b, q)" by fastforce
  define a where "a = (if rq_side rq = Buy then q else b)"
  define cost where "cost = dmul (rq_amount rq) p"
  define fee where "fee = dmul cost (pa_fee_rate ad)"
  define x where "x = (if rq_side rq = Buy then dadd cost fee else rq_amount rq)"
  define c where "c = (if rq_side rq = Buy then credit b (rq_amount rq) else credit q (dsub cost fee))"
  have fo: "fill_order ad oid rq t p lg = (case debit a x lg of
      (Inl e, lg') \<Rightarrow> (Inl e, lg')
    | (Inr _, lg') \<Rightarrow> (Inr (filled_order oid rq t p fee), put_order (filled_order oid rq t p fee) (c lg')))"
    unfolding fill_order_def bq a_def x_def c_def fee_def cost_def Let_def
    by (cases "rq_side rq = Buy") simp_all
  show thesis
  proof (rule debit_cases [of lg a x])
    assume "debit a x lg = (Inl (insufficient a x (bal_free (balance_of lg a))), lg)"
    then show thesis using fo by (intro error) auto
  next
    assume "debit a x lg = (Inr (), set_balance a (dsub (bal_free (balance_of lg a)) x)
         (bal_used (balance_of lg a)) lg)"
    then show thesis
      using fo by (intro filled [of "filled_order oid rq t p fee" "c (snd (debit a x lg))"])
        (auto simp: filled_order_def c_def balance_of_credit balance_of_set_balance)
  qed
qed

lemma backed_fill:
  assumes "backed ad lg" and fresh: "dict_get (lg_orders lg) oid = None"
  shows "backed ad (snd (fill_order ad oid rq t p lg))"
proof (rule fill_order_result [of ad oid rq t p lg])
  fix ord lg'
  assume r: "fill_order ad oid rq t p lg = (Inr ord, put_order ord lg')"
    and ord: "o_id ord = oid" "o_status ord = Filled" and same: "lg_orders lg' = lg_orders lg"
    and used: "\<forall>a. bal_used (balance_of lg' a) = bal_used (balance_of lg a)"
  have "total_held ad (put_order ord lg') a = total_held ad lg a" for a
    using fresh total_held_put_new [of lg' ord ad a] ord same by (simp add: total_held_def held_def)
  then show ?thesis using assms(1) used by (simp add: r backed_def)
qed (simp add: assms(1))

lemma backed_cancel:
  assumes b: "backed ad lg" and lg: "ledger_ok lg" and ad: "adapter_ok ad"
    and ex: "\<forall>ord. dict_get (lg_orders lg) oid = Some ord \<longrightarrow> used_exact ad ord lg"
  shows "backed ad (snd (paper_cancel_order ad oid symbol lg))"
proof (cases "dict_get (lg_orders lg) oid")
  case (Some ord)
  show ?thesis
  proof (cases "o_status ord \<in> {Filled, Canceled}")
    case False
    obtain a x where ax: "reservation ad ord = (a, x)" by fastforce
    let ?u = "bal_used (balance_of lg a)" and ?c = "ord\<lparr>o_status := Canceled, o_is_paper := True\<rparr>"
    have "x = held ad a ord" using False ax by (simp add: held_def)
    also have "\<dots> \<le> ?u" using held_le_total [OF lg ad Some, of a] b by (simp add: backed_def)
    finally have "min x ?u = x" by simp
    moreover have "dsub ?u x = ?u - x" using ex Some ax by (simp add: used_exact_def dsub_exact Let_def)
    ultimately have u: "bal_used (balance_of (release a x lg) c) =
        (if c = a then ?u - x else bal_used (balance_of lg c))" for c
      by (simp add: balance_of_release)
    have h: "held ad c ?c = 0" "held ad c ord = (if c = a then x else 0)" for c
      using False ax by (auto simp: held_def)
    show ?thesis
      using b False Some h by (auto simp: paper_cancel_order_def ax Let_def backed_def u total_held_def
          sum_values_set_old simp del: map_map)
  qed (simp add: paper_cancel_order_def Some b)
qed (simp add: paper_cancel_order_def b)

lemma paper_step_invariant:
  assumes "paper_step ad lg lg'" and "adapter_ok ad" and inv: "ledger_ok lg \<and> backed ad lg"
  shows "ledger_ok lg' \<and> backed ad lg'"
  using assms(1)
proof (cases rule: paper_step.cases)
  case (place rq fetch hex)
  have "backed ad (snd (paper_create_order ad fetch hex rq lg))"
    using inv place(4,5) by (auto simp: paper_create_order_def resting_order_def
        intro!: backed_rest backed_fill split: sum.splits option.splits)
  with place inv assms(2) show ?thesis by (simp add: create_order_ok)
next
  case (cancel oid symbol)
  with inv assms(2) show ?thesis by (auto intro: cancel_order_ok backed_cancel)
qed

end
