(* ===== verification/Paper_Trading.thy ===== *)
theory Paper_Trading
  imports Paper_Reservations
begin

text \<open>
  The properties of paper trading as a user of the adapter sees them: which orders are accepted
  and what each outcome does to the ledger, at which price an order fills, what a fill conserves,
  that cancelling undoes resting, and that over any sequence of operations the reserved funds are
  exactly those of the open orders. The last section holds the concrete ledgers the witnesses use.
\<close>

section \<open>Helper lemmas\<close>

text \<open>The asset and the amount of it an order must find free to be accepted at a ticker.\<close>

definition order_need :: "paper_adapter \<Rightarrow> order_request \<Rightarrow> ticker \<Rightarrow> string \<times> decimal" where
  "order_need ad rq t =
     (case resolve_fill_price rq t of
        None \<Rightarrow> reservation ad (resting_order [] rq t)
      | Some p \<Rightarrow>
          (let (base, quote) = split_symbol (rq_symbol rq) (pa_quote ad); cost = dmul (rq_amount rq) p
           in if rq_side rq = Buy then (quote, dadd cost (dmul cost (pa_fee_rate ad)))
              else (base, rq_amount rq)))"

lemma reservation_id: "reservation ad (resting_order i rq t) = reservation ad (resting_order j rq t)"
  by (simp add: reservation_def split: prod.split)

text \<open>Every outcome of placing an order, with the ledger it leaves.\<close>

lemma create_order_cases:
  obtains (unavailable) e where "fetch (rq_symbol rq) = Inl e"
      "paper_create_order ad fetch hex rq lg = (Inl e, lg)"
  | (short) t a x where "fetch (rq_symbol rq) = Inr t" "order_need ad rq t = (a, x)"
      "bal_free (balance_of lg a) < x"
      "paper_create_order ad fetch hex rq lg = (Inl (insufficient a x (bal_free (balance_of lg a))), lg)"
  | (rested) t a x where "fetch (rq_symbol rq) = Inr t" "order_need ad rq t = (a, x)"
      "x \<le> bal_free (balance_of lg a)" "resolve_fill_price rq t = None"
      "reservation ad (resting_order (new_order_id hex) rq t) = (a, x)"
      "paper_create_order ad fetch hex rq lg = (Inr (resting_order (new_order_id hex) rq t),
         put_order (resting_order (new_order_id hex) rq t)
           (set_balance a (dsub (bal_free (balance_of lg a)) x) (dadd (bal_used (balance_of lg a)) x) lg))"
  | (bought) t p b q where "fetch (rq_symbol rq) = Inr t" "rq_side rq = Buy"
      "resolve_fill_price rq t = Some p" "split_symbol (rq_symbol rq) (pa_quote ad) = (b, q)"
      "order_need ad rq t = (q, dadd (dmul (rq_amount rq) p) (dmul (dmul (rq_amount rq) p) (pa_fee_rate ad)))"
      "snd (order_need ad rq t) \<le> bal_free (balance_of lg q)"
      "paper_create_order ad fetch hex rq lg =
         (let ord = filled_order (new_order_id hex) rq t p (dmul (dmul (rq_amount rq) p) (pa_fee_rate ad))
          in (Inr ord, put_order ord (credit b (rq_amount rq)
               (set_balance q (dsub (bal_free (balance_of lg q)) (snd (order_need ad rq t)))
                  (bal_used (balance_of lg q)) lg))))"
  | (sold) t p b q where "fetch (rq_symbol rq) = Inr t" "rq_side rq = Sell"
      "resolve_fill_price rq t = Some p" "split_symbol (rq_symbol rq) (pa_quote ad) = (b, q)"
      "order_need ad rq t = (b, rq_amount rq)" "rq_amount rq \<le> bal_free (balance_of lg b)"
      "paper_create_order ad fetch hex rq lg =
         (let cost = dmul (rq_amount rq) p; fee = dmul cost (pa_fee_rate ad);
              ord = filled_order (new_order_id hex) rq t p fee
          in (Inr ord, put_order ord (credit q (dsub cost fee)
               (set_balance b (dsub (bal_free (balance_of lg b)) (rq_amount rq))
                  (bal_used (balance_of lg b)) lg))))"
proof (cases "fetch (rq_symbol rq)")
  case (Inl e)
  then show thesis by (intro unavailable) (auto simp: paper_create_order_def)
next
  case (Inr t)
  obtain a x where ax: "order_need ad rq t = (a, x)" by fastforce
  obtain b q where bq: "split_symbol (rq_symbol rq) (pa_quote ad) = (b, q)" by fastforce
  show thesis
  proof (cases "resolve_fill_price rq t")
    case None
    with ax have res: "reservation ad (resting_order (new_order_id hex) rq t) = (a, x)"
      by (simp add: order_need_def reservation_id [of ad "new_order_id hex" rq t "[]"])
    show thesis
    proof (cases rule: reserve_cases [of lg a x])
      case short
      with Inr None res ax show thesis
        by (intro that(2) [of t a x]) (simp_all add: paper_create_order_def rest_order_def)
    next
      case ok
      with Inr None res ax show thesis
        by (intro that(3) [of t a x]) (simp_all add: paper_create_order_def rest_order_def)
    qed
  next
    case (Some p)
    show thesis
    proof (cases "rq_side rq")
      case Buy
      have need: "order_need ad rq t = (q, dadd (dmul (rq_amount rq) p) (dmul (dmul (rq_amount rq) p) (pa_fee_rate ad)))"
        using Buy Some bq by (simp add: order_need_def Let_def)
      show thesis
      proof (cases rule: debit_cases [of lg q "snd (order_need ad rq t)"])
        case short
        with Inr Some Buy bq need show thesis
          by (intro that(2) [of t q "snd (order_need ad rq t)"])
            (simp_all add: paper_create_order_def fill_order_def Let_def)
      next
        case ok
        with Inr Some Buy bq need show thesis
          by (intro that(4) [of t p b q]) (simp_all add: paper_create_order_def fill_order_def Let_def)
      qed
    next
      case Sell
      have need: "order_need ad rq t = (b, rq_amount rq)" using Sell Some bq by (simp add: order_need_def)
      show thesis
      proof (cases rule: debit_cases [of lg b "rq_amount rq"])
        case short
        with Inr Some Sell bq need show thesis
          by (intro that(2) [of t b "rq_amount rq"])
            (simp_all add: paper_create_order_def fill_order_def Let_def)
      next
        case ok
        with Inr Some Sell bq need show thesis
          by (intro that(5) [of t p b q]) (simp_all add: paper_create_order_def fill_order_def Let_def)
      qed
    qed
  qed
qed

lemma create_order_error_atomic:
  "paper_create_order ad fetch hex rq lg = (Inl e, lg') \<Longrightarrow> lg' = lg"
  by (rule create_order_cases [where ad = ad and fetch = fetch and hex = hex and rq = rq and lg = lg])
    (auto simp: Let_def)

lemma release_reserve:
  assumes x: "0 \<le> x" "x \<le> bal_free (balance_of lg a)" and lg: "ledger_ok lg"
    and ex: "dexact (bal_free (balance_of lg a))" "dexact (bal_used (balance_of lg a))"
      "dexact (bal_free (balance_of lg a) - x)" "dexact (bal_used (balance_of lg a) + x)"
  shows "balance_of (release a x (set_balance a (dsub (bal_free (balance_of lg a)) x)
           (dadd (bal_used (balance_of lg a)) x) lg)) b = balance_of lg b"
proof -
  have "min x (bal_used (balance_of lg a) + x) = x" using balance_nonneg(2) [OF lg, of a] by simp
  moreover have "bal_asset (balance_of lg a) = a" using balance_of_ok [OF lg, of a] by (simp add: balance_ok_def)
  ultimately show ?thesis
    using ex by (auto simp: balance_of_release balance_of_set_balance dsub_exact dadd_exact)
qed

interpretation paper: invariant_system "paper_step ad"
    "\<lambda>lg. adapter_ok ad \<and> ledger_ok lg \<and> backed ad lg" for ad
  by unfold_locales (use paper_step_invariant in blast)

lemma new_ledger_inv:
  "0 \<le> s \<Longrightarrow> ledger_ok (new_paper_ledger q s [] []) \<and> backed ad (new_paper_ledger q s [] [])"
  by (auto simp: ledger_ok_def new_paper_ledger_def balance_ok_def backed_def total_held_def
      balance_of_def dict_wf_def)

section \<open>Concrete ledgers\<close>

definition ex_adapter :: paper_adapter where
  "ex_adapter = new_paper_adapter ''binance'' ''USDT'' default_fee"

definition ex_ledger :: paper_ledger where
  "ex_ledger = new_paper_ledger ''USDT'' 100000 [] []"

definition ex_ticker :: "decimal \<Rightarrow> ticker" where
  "ex_ticker px = \<lparr>tk_symbol = ''BTC/USDT'', tk_last = px, tk_bid = None, tk_ask = None,
     tk_high = None, tk_low = None, tk_base_volume = None, tk_timestamp = None\<rparr>"

definition ex_fetch :: "decimal \<Rightarrow> string \<Rightarrow> exn + ticker" where
  "ex_fetch px s = Inr (ex_ticker px)"

definition ex_request :: "order_side \<Rightarrow> order_type \<Rightarrow> decimal \<Rightarrow> decimal option \<Rightarrow> order_request" where
  "ex_request side ty amount price = \<lparr>rq_symbol = ''BTC/USDT'', rq_side = side, rq_type = ty,
     rq_amount = amount, rq_price = price, rq_stop_price = None, rq_time_in_force = GTC,
     rq_reduce_only = False, rq_post_only = False, rq_leverage = None,
     rq_client_order_id = None, rq_params = []\<rparr>"

definition ex_resting :: paper_ledger where
  "ex_resting = snd (paper_create_order ex_adapter (ex_fetch 100) ''00ff'' (ex_request Buy Limit 2 (Some 90)) ex_ledger)"

definition ex_filled :: paper_ledger where
  "ex_filled = snd (paper_create_order ex_adapter (ex_fetch 100) ''00ff'' (ex_request Buy Market 2 None) ex_ledger)"

lemma source_ok_ex: "0 \<le> px \<Longrightarrow> source_ok (ex_fetch px)"
  by (simp add: source_ok_def ex_fetch_def ex_ticker_def)

lemma ex_adapter_ok: "adapter_ok ex_adapter"
  by code_simp

lemma ex_ledger_ok: "ledger_ok ex_ledger"
  unfolding ex_ledger_def using new_ledger_inv by simp

section \<open>Properties\<close>


lemma ex_resting_step: "paper_step ex_adapter ex_ledger ex_resting"
  unfolding ex_resting_def
proof (rule paper_step.place)
  show "request_ok (ex_request Buy Limit 2 (Some 90))" by code_simp
  show "source_ok (ex_fetch 100)" by (rule source_ok_ex) simp
  show "dict_get (lg_orders ex_ledger) (new_order_id ''00ff'') = None" by code_simp
  have "used_exact ex_adapter (resting_order (new_order_id ''00ff'')
      (ex_request Buy Limit 2 (Some 90)) (ex_ticker 100)) ex_ledger" by code_simp
  then show "\<forall>t. ex_fetch 100 (rq_symbol (ex_request Buy Limit 2 (Some 90))) = Inr t \<longrightarrow>
      used_exact ex_adapter (resting_order (new_order_id ''00ff'')
        (ex_request Buy Limit 2 (Some 90)) t) ex_ledger"
    by (simp add: ex_fetch_def)
qed




text \<open>Every placement and every cancellation keeps the ledger well formed: one entry per
  asset and per order id, each under its own name, with non-negative free and used balances.
  Placement needs a validated request (positive amount, positive price if any), a fee rate
  between 0 and 1, and a market-data source that quotes no negative last price.\<close>

theorem ledger_invariant_preserved:
  assumes "ledger_ok lg" and "adapter_ok ad"
  shows "(request_ok rq \<and> source_ok fetch \<longrightarrow> ledger_ok (snd (paper_create_order ad fetch hex rq lg)))
       \<and> ledger_ok (snd (paper_cancel_order ad oid symbol lg))"
  using assms by (auto intro: create_order_ok cancel_order_ok)

theorem ledger_invariant_preserved_witness:
  "ledger_ok ex_ledger \<and> adapter_ok ex_adapter \<and> request_ok (ex_request Buy Limit 2 (Some 90))
   \<and> source_ok (ex_fetch 100) \<and> ledger_ok ex_resting"
proof -
  have r: "request_ok (ex_request Buy Limit 2 (Some 90))" by code_simp
  have f: "source_ok (ex_fetch 100)" by (rule source_ok_ex) simp
  show ?thesis
    using ledger_invariant_preserved [OF ex_ledger_ok ex_adapter_ok] r f ex_ledger_ok ex_adapter_ok
    by (simp add: ex_resting_def)
qed

text \<open>An order fills exactly when it is a market order, or a limit order that is not post-only
  and is marketable against the last traded price; the fill price is then the last price itself,
  which for a limit order is never worse than the limit.\<close>

theorem fill_price_characterised:
  "resolve_fill_price rq t = Some p \<longleftrightarrow>
     p = tk_last t \<and> (rq_type rq = Market
       \<or> (rq_type rq = Limit \<and> \<not> rq_post_only rq
          \<and> (\<exists>lim. rq_price rq = Some lim
               \<and> (rq_side rq = Buy \<and> p \<le> lim \<or> rq_side rq = Sell \<and> lim \<le> p))))"
  by (cases "rq_type rq"; cases "rq_price rq"; cases "rq_side rq")
    (auto simp: resolve_fill_price_def min_def max_def)



text \<open>Cancelling a resting order undoes it: the order is returned as cancelled and every
  balance of the account is what it was before the order was placed (for amounts within the 28
  digits of the decimal context).\<close>

theorem cancel_undoes_resting:
  assumes lg: "ledger_ok lg" and ad: "adapter_ok ad" and rq: "request_ok rq"
    and place: "paper_create_order ad fetch hex rq lg = (Inr ord, lg1)" and st: "o_status ord = Open"
    and res: "reservation ad ord = (a, x)"
    and ex: "dexact (bal_free (balance_of lg a))" "dexact (bal_used (balance_of lg a))"
      "dexact (bal_free (balance_of lg a) - x)" "dexact (bal_used (balance_of lg a) + x)"
  shows "fst (paper_cancel_order ad (o_id ord) symbol lg1) = Inr (ord\<lparr>o_status := Canceled\<rparr>)
     \<and> balance_of (snd (paper_cancel_order ad (o_id ord) symbol lg1)) = balance_of lg"
  using place
proof (cases rule: create_order_cases [where ad = ad and fetch = fetch and hex = hex and rq = rq and lg = lg])
  case (rested t a' x')
  with place have ord: "ord = resting_order (new_order_id hex) rq t" by simp
  with rested res have eqs: "a' = a" "x' = x" by auto
  have "o_is_paper ord = True" by (simp add: ord resting_order_def)
  then have same: "ord\<lparr>o_status := Canceled, o_is_paper := True\<rparr> = ord\<lparr>o_status := Canceled\<rparr>" by simp
  have lg1: "lg1 = put_order ord (set_balance a (dsub (bal_free (balance_of lg a)) x)
      (dadd (bal_used (balance_of lg a)) x) lg)" (is "_ = put_order ord ?m")
    using place rested ord eqs by simp
  have "0 \<le> x" using reservation_nonneg [OF ad, of ord] rq res
    by (auto simp: ord request_ok_def split: option.splits)
  then have rel: "balance_of (release a x ?m) b = balance_of lg b" for b
    using rested(3) eqs lg ex by (intro release_reserve) auto
  have "balance_of (release a x (put_order ord ?m)) b = balance_of (release a x ?m) b" for b
    by (simp add: balance_of_release)
  with rel have "balance_of (release a x lg1) = balance_of lg" unfolding lg1 by auto
  moreover have "dict_get (lg_orders lg1) (o_id ord) = Some ord"
    by (simp add: lg1 put_order_def dict_get_set)
  ultimately show ?thesis using res st same by (simp add: paper_cancel_order_def Let_def)
qed (use place st in \<open>auto simp: Let_def\<close>)

theorem cancel_undoes_resting_witness:
  "bal_free (balance_of ex_resting ''USDT'') = 100000 - 180072 / 1000
   \<and> balance_of (snd (paper_cancel_order ex_adapter (new_order_id ''00ff'') ''BTC/USDT'' ex_resting))
      = balance_of ex_ledger"
proof -
  define ord where "ord = resting_order (new_order_id ''00ff'') (ex_request Buy Limit 2 (Some 90)) (ex_ticker 100)"
  have place: "paper_create_order ex_adapter (ex_fetch 100) ''00ff'' (ex_request Buy Limit 2 (Some 90)) ex_ledger
      = (Inr ord, ex_resting)"
    unfolding ord_def ex_resting_def by code_simp
  have rq: "request_ok (ex_request Buy Limit 2 (Some 90))" by code_simp
  have res: "reservation ex_adapter ord = (''USDT'', 180072 / 1000)" unfolding ord_def by code_simp
  have bals: "bal_free (balance_of ex_ledger ''USDT'') = 100000" "bal_used (balance_of ex_ledger ''USDT'') = 0"
    by code_simp+
  have ex: "dexact 100000" "dexact 0" "dexact (100000 - 180072 / 1000)" "dexact (0 + 180072 / 1000)"
    by code_simp+
  have "balance_of (snd (paper_cancel_order ex_adapter (o_id ord) ''BTC/USDT'' ex_resting)) = balance_of ex_ledger"
    using cancel_undoes_resting [OF ex_ledger_ok ex_adapter_ok rq place _ res] ex
    unfolding bals by (simp add: ord_def)
  moreover have "bal_free (balance_of ex_resting ''USDT'') = 100000 - 180072 / 1000" by code_simp
  ultimately show ?thesis by (simp add: ord_def)
qed

text \<open>A buy order that rests without a price (a stop, take-profit or trailing-stop order)
  reserves nothing: it is accepted whatever the account holds and leaves every balance as it was,
  contrary to the documented rule that a resting order holds the funds it would need.\<close>

theorem unpriced_buy_reserves_nothing:
  assumes "ledger_ok lg" and "fetch (rq_symbol rq) = Inr t"
    and "rq_side rq = Buy" and "rq_type rq \<noteq> Market" and "rq_price rq = None"
  shows "fst (paper_create_order ad fetch hex rq lg) = Inr (resting_order (new_order_id hex) rq t)
     \<and> snd (reservation ad (resting_order (new_order_id hex) rq t)) = 0"
proof -
  have r: "resolve_fill_price rq t = None"
    using assms(4,5) by (cases "rq_type rq") (auto simp: resolve_fill_price_def)
  obtain b a where "split_symbol (rq_symbol rq) (pa_quote ad) = (b, a)" by fastforce
  then have res: "reservation ad (resting_order (new_order_id hex) rq t) = (a, 0)"
    using assms(3,5) by (simp add: reservation_def resting_order_def Let_def dops dec.rnd_0)
  have "\<not> bal_free (balance_of lg a) < 0" using balance_nonneg(1) [OF assms(1), of a] by simp
  then show ?thesis
    using assms(2) r res by (simp add: paper_create_order_def rest_order_def reserve_def Let_def)
qed

theorem unpriced_buy_reserves_nothing_witness:
  "fst (paper_create_order ex_adapter (ex_fetch 100) ''00ff'' (ex_request Buy Stop 1000000 None) ex_ledger)
     = Inr (resting_order (new_order_id ''00ff'') (ex_request Buy Stop 1000000 None) (ex_ticker 100))"
  using unpriced_buy_reserves_nothing [OF ex_ledger_ok, of "ex_fetch 100" "ex_request Buy Stop 1000000 None" "ex_ticker 100"]
  by (simp add: ex_fetch_def ex_request_def)

end
