(* ===== verification/Factory.thy ===== *)
theory Factory
  imports Ccxt Paper_Trading Settings
begin

text \<open>
  The exchange factory of \<^verbatim>\<open>app/exchange/factory.py\<close> and the adapter interface of
  \<^verbatim>\<open>app/exchange/base.py\<close>: an adapter is a paper adapter over a credential-free market
  adapter, or a live ccxt adapter, and every operation dispatches on it. The state of an operation
  is the paper ledger the adapter works on, the breaker registry and the outside world.
\<close>

section \<open>Adapters\<close>

datatype adapter = Paper_adapter paper_adapter ccxt_adapter | Live_adapter ccxt_adapter

definition adapter_is_paper :: "adapter \<Rightarrow> bool" where
  "adapter_is_paper ad = (case ad of Paper_adapter _ _ \<Rightarrow> True | Live_adapter _ \<Rightarrow> False)"

type_synonym 'x adapter_state = "paper_ledger \<times> 'x net"

definition on_net :: "('x net, exn, 'a) action \<Rightarrow> ('x adapter_state, exn, 'a) action" where
  "on_net act = (\<lambda>(lg, net). case act net of (r, net') \<Rightarrow> (r, (lg, net')))"

definition on_ledger :: "(paper_ledger, exn, 'a) action \<Rightarrow> ('x adapter_state, exn, 'a) action" where
  "on_ledger act = (\<lambda>(lg, net). case act lg of (r, lg') \<Rightarrow> (r, (lg', net)))"

definition market_of :: "adapter \<Rightarrow> ccxt_adapter" where
  "market_of ad = (case ad of Paper_adapter _ m \<Rightarrow> m | Live_adapter a \<Rightarrow> a)"

definition adapter_fetch_ticker where
  "adapter_fetch_ticker env clk ad symbol = on_net (ccxt_fetch_ticker env clk (market_of ad) symbol)"

definition adapter_fetch_order_book where
  "adapter_fetch_order_book env clk ad symbol limit =
     on_net (ccxt_fetch_order_book env clk (market_of ad) symbol limit)"

definition adapter_fetch_ohlcv where
  "adapter_fetch_ohlcv env clk ad symbol timeframe limit =
     on_net (ccxt_fetch_ohlcv env clk (market_of ad) symbol timeframe limit)"

definition adapter_fetch_balance where
  "adapter_fetch_balance env clk ad =
     (case ad of
        Paper_adapter _ _ \<Rightarrow> on_ledger (\<lambda>lg. (Inr (paper_fetch_balance lg), lg))
      | Live_adapter a \<Rightarrow> on_net (ccxt_fetch_balance env clk a))"

definition adapter_fetch_positions where
  "adapter_fetch_positions env clk ad =
     (case ad of
        Paper_adapter _ _ \<Rightarrow> on_ledger (\<lambda>lg. (Inr (paper_fetch_positions lg), lg))
      | Live_adapter a \<Rightarrow> on_net (ccxt_fetch_positions env clk a VNone))"

definition adapter_create_order ::
    "'x ccxt_env \<Rightarrow> pyfloat \<times> pyfloat \<Rightarrow> string \<Rightarrow> adapter \<Rightarrow> order_request \<Rightarrow> ('x adapter_state, exn, order) action" where
  "adapter_create_order env clk hex ad rq =
     (case ad of
        Paper_adapter pa m \<Rightarrow> (\<lambda>(lg, net).
          case ccxt_fetch_ticker env clk m (rq_symbol rq) net of
            (t, net') \<Rightarrow>
              (case paper_create_order pa (\<lambda>_. t) hex rq lg of (r, lg') \<Rightarrow> (r, (lg', net'))))
      | Live_adapter a \<Rightarrow> on_net (ccxt_create_order env clk a rq))"

definition adapter_cancel_order where
  "adapter_cancel_order env clk ad oid symbol =
     (case ad of
        Paper_adapter pa _ \<Rightarrow> on_ledger (paper_cancel_order pa oid symbol)
      | Live_adapter a \<Rightarrow> on_net (ccxt_cancel_order env clk a oid symbol))"

definition adapter_fetch_order where
  "adapter_fetch_order env clk ad oid symbol =
     (case ad of
        Paper_adapter _ _ \<Rightarrow> on_ledger (\<lambda>lg. (paper_fetch_order oid symbol lg, lg))
      | Live_adapter a \<Rightarrow> on_net (ccxt_fetch_order env clk a oid symbol))"

definition adapter_fetch_open_orders where
  "adapter_fetch_open_orders env clk ad symbol =
     (case ad of
        Paper_adapter _ _ \<Rightarrow> on_ledger (\<lambda>lg. (Inr (paper_fetch_open_orders symbol lg), lg))
      | Live_adapter a \<Rightarrow> on_net (ccxt_fetch_open_orders env clk a symbol))"

section \<open>The factory\<close>

definition live_trading_enabled :: "settings \<Rightarrow> bool" where
  "live_trading_enabled st = allow_live_trading st"

definition public_market_adapter :: "string \<Rightarrow> breaker_registry \<Rightarrow> (exn + ccxt_adapter) \<times> breaker_registry" where
  "public_market_adapter exchange_id bs =
     (if \<not> is_supported exchange_id then (Inl (unsupported exchange_id), bs)
      else new_ccxt_adapter exchange_id None ''spot'' bs)"

definition build_adapter_for ::
    "settings \<Rightarrow> string \<Rightarrow> credentials option \<Rightarrow> bool \<Rightarrow> string \<Rightarrow> breaker_registry \<Rightarrow> (exn + adapter) \<times> breaker_registry" where
  "build_adapter_for st exchange_id creds paper market_type bs =
     (if \<not> is_supported exchange_id then (Inl (unsupported exchange_id), bs)
      else if paper \<or> \<not> live_trading_enabled st
      then (case public_market_adapter exchange_id bs of
              (Inl e, bs') \<Rightarrow> (Inl e, bs')
            | (Inr m, bs') \<Rightarrow>
                (Inr (Paper_adapter (new_paper_adapter (ca_exchange_id m) ''USDT'' default_fee) m), bs'))
      else (case creds of
              Some c \<Rightarrow>
                if is_complete c
                then (case new_ccxt_adapter exchange_id
                        (Some \<lparr>cr_api_key = cr_api_key c, cr_api_secret = cr_api_secret c,
                               cr_passphrase = cr_passphrase c, cr_subaccount = cr_subaccount c,
                               cr_testnet = use_exchange_testnet st\<rparr>) market_type bs of
                        (Inl e, bs') \<Rightarrow> (Inl e, bs')
                      | (Inr a, bs') \<Rightarrow> (Inr (Live_adapter a), bs'))
                else (Inl (AppExn (mk_error UnsupportedExchangeError
                       (Some (VStr ''Live trading requires complete API credentials.''))
                       [(''exchange'', VStr exchange_id)])), bs)
            | None \<Rightarrow> (Inl (AppExn (mk_error UnsupportedExchangeError
                       (Some (VStr ''Live trading requires complete API credentials.''))
                       [(''exchange'', VStr exchange_id)])), bs)))"

section \<open>Lemmas\<close>

lemma get_info_supported: "is_supported e \<longleftrightarrow> (\<exists>i. get_info e = Some i)"
  by (auto simp: is_supported_def get_info_def)

lemma new_ccxt_adapter_cases:
  "fst (new_ccxt_adapter e c m bs) = Inr a \<longleftrightarrow>
     (\<exists>i. get_info e = Some i \<and> a = \<lparr>ca_exchange_id = ei_id i, ca_info = i, ca_credentials = c,
                ca_market_type = m, ca_breaker = breaker_key (ei_id i)\<rparr>)"
  by (auto simp: new_ccxt_adapter_def split: option.splits)

lemma build_adapter_cases:
  assumes "fst (build_adapter_for st e creds paper m bs) = Inr ad"
  obtains (paper) i where "paper \<or> \<not> allow_live_trading st" "get_info e = Some i"
      "ad = Paper_adapter (new_paper_adapter (ei_id i) ''USDT'' default_fee)
         \<lparr>ca_exchange_id = ei_id i, ca_info = i, ca_credentials = None, ca_market_type = ''spot'',
          ca_breaker = breaker_key (ei_id i)\<rparr>"
  | (live) i c where "\<not> paper" "allow_live_trading st" "get_info e = Some i" "creds = Some c" "is_complete c"
      "ad = Live_adapter \<lparr>ca_exchange_id = ei_id i, ca_info = i, ca_credentials = Some (c\<lparr>cr_testnet := use_exchange_testnet st\<rparr>),
         ca_market_type = m, ca_breaker = breaker_key (ei_id i)\<rparr>"
  using assms
  by (auto simp: build_adapter_for_def public_market_adapter_def new_ccxt_adapter_def
      live_trading_enabled_def get_info_supported split: if_splits option.splits)

text \<open>
  A view of the outside world that the read-only methods do not change, such as the orders an
  exchange holds.
\<close>

definition read_only :: "('x \<Rightarrow> 'v) \<Rightarrow> string list \<Rightarrow> 'x ccxt_env \<Rightarrow> bool" where
  "read_only view methods env \<longleftrightarrow>
     (\<forall>cfg meth args x. meth \<in> set methods \<longrightarrow> view (snd (cx_call env cfg meth args x)) = view x)"

lemma ccxt_call_read_only:
  assumes "read_only view methods env" and "meth \<in> set methods"
  shows "view (snd (snd (ccxt_call env clk ad meth args (bs, x)))) = view x"
  using assms
  by (auto simp: ccxt_call_def breaker_call_def invoke_def read_only_def Let_def
      split: prod.splits sum.splits bool.splits) (metis snd_conv)+

lemma call_then_state [simp]: "snd (call_then act parse s) = snd (act s)"
  by (simp add: call_then_def split: prod.split)

lemma fetch_ticker_read_only:
  "read_only view [''fetch_ticker''] env \<Longrightarrow>
     view (snd (snd (ccxt_fetch_ticker env clk ad symbol net))) = view (snd net)"
  using ccxt_call_read_only [of view "[''fetch_ticker'']" env] by (cases net) (simp add: ccxt_fetch_ticker_def)

lemma adapter_fetch_ticker_view:
  "read_only view [''fetch_ticker''] env \<Longrightarrow>
     view (snd (snd (snd (adapter_fetch_ticker env clk ad symbol s)))) = view (snd (snd s))"
  using fetch_ticker_read_only [of view env clk "market_of ad" symbol "snd s"]
  by (auto simp: adapter_fetch_ticker_def on_net_def split: prod.splits)

lemma paper_create_view:
  "read_only view [''fetch_ticker''] env \<Longrightarrow>
     view (snd (snd (snd (adapter_create_order env clk hex (Paper_adapter pa m) rq s)))) = view (snd (snd s))"
  using fetch_ticker_read_only [of view env clk m "rq_symbol rq" "snd s"]
  by (auto simp: adapter_create_order_def split: prod.splits)

lemma paper_local_view [simp]:
  "snd (snd (adapter_cancel_order env clk (Paper_adapter pa m) oid sym' s)) = snd s"
  "snd (snd (adapter_fetch_balance env clk (Paper_adapter pa m) s)) = snd s"
  "snd (snd (adapter_fetch_open_orders env clk (Paper_adapter pa m) so s)) = snd s"
  by (auto simp: adapter_cancel_order_def adapter_fetch_balance_def adapter_fetch_open_orders_def
      on_ledger_def split: prod.splits)

lemma translate_error_class: "is_app ExchangeError (translate_error ad meth e)"
  by (auto simp: translate_error_def subclass_exchange split: exn.splits)

section \<open>Properties\<close>

text \<open>C7: the policy switch is absolute: an adapter that can send live orders is built only when the
  server allows live trading, for a non-paper account with complete credentials; every other adapter
  is a paper adapter whose market source carries no credentials.\<close>

theorem live_adapter_requires_policy:
  assumes "fst (build_adapter_for st e creds paper m bs) = Inr ad"
  shows "(\<not> adapter_is_paper ad \<longleftrightarrow> allow_live_trading st \<and> \<not> paper)
     \<and> (adapter_is_paper ad \<longrightarrow> ca_credentials (market_of ad) = None)
     \<and> (\<not> adapter_is_paper ad \<longrightarrow> (\<exists>c. creds = Some c \<and> is_complete c))"
  using assms
  by (cases rule: build_adapter_cases) (auto simp: adapter_is_paper_def market_of_def)

theorem live_adapter_requires_policy_witness:
  "\<exists>ad. fst (build_adapter_for default_settings ''Kraken''
        (Some \<lparr>cr_api_key = ''key'', cr_api_secret = ''secret'', cr_passphrase = None, cr_subaccount = None, cr_testnet = True\<rparr>)
        False ''spot'' []) = Inr ad \<and> adapter_is_paper ad \<and> ca_credentials (market_of ad) = None"
proof -
  let ?b = "build_adapter_for default_settings ''Kraken''
        (Some \<lparr>cr_api_key = ''key'', cr_api_secret = ''secret'', cr_passphrase = None, cr_subaccount = None, cr_testnet = True\<rparr>)
        False ''spot'' []"
  have "is_ok (fst ?b)" "\<not> allow_live_trading default_settings" by code_simp+
  then obtain ad where "fst ?b = Inr ad" by (auto simp: is_ok_iff)
  with live_adapter_requires_policy [OF this] show ?thesis
    using \<open>\<not> allow_live_trading default_settings\<close> by auto
qed

text \<open>The client of a live adapter talks to the exchange's sandbox exactly when the server asks for
  the testnet, the registry says the exchange has one and the client accepts the switch; in every
  other case, testnet setting or not, it talks to the real exchange.\<close>

theorem live_client_sandbox:
  assumes "fst (build_adapter_for st e creds paper m bs) = Inr (Live_adapter a)"
    and "build_client env a = Inr cfg"
  shows "cc_sandbox cfg \<longleftrightarrow>
     use_exchange_testnet st \<and> ei_has_testnet (ca_info a) \<and> cx_sandbox_ok env (ca_exchange_id a)"
  using assms(1)
proof (cases rule: build_adapter_cases)
  case (live i c)
  then show ?thesis using assms(2) by (auto simp: build_client_def split: if_splits)
qed simp

definition ex_env :: "int ccxt_env" where
  "ex_env = \<lparr>cx_installed = True, cx_sandbox_ok = (\<lambda>_. True), cx_call = (\<lambda>cfg meth args x. (Inr VNone, x))\<rparr>"

definition ex_credentials :: credentials where
  "ex_credentials = \<lparr>cr_api_key = ''key'', cr_api_secret = ''secret'', cr_passphrase = None,
     cr_subaccount = None, cr_testnet = True\<rparr>"

theorem live_client_sandbox_witness:
  "\<exists>a cfg. fst (build_adapter_for (default_settings\<lparr>allow_live_trading := True\<rparr>) ''kraken'' (Some ex_credentials) False ''spot'' [])
       = Inr (Live_adapter a) \<and> build_client ex_env a = Inr cfg \<and> \<not> cc_sandbox cfg"
proof -
  let ?st = "default_settings\<lparr>allow_live_trading := True\<rparr>"
  define i where "i = mk_info ''kraken'' ''Kraken'' False True False"
  then have i: "get_info ''kraken'' = Some i" "\<not> ei_has_testnet i" by (unfold i_def, code_simp+)
  define a where "a = \<lparr>ca_exchange_id = ei_id i, ca_info = i,
     ca_credentials = Some (ex_credentials\<lparr>cr_testnet := use_exchange_testnet ?st\<rparr>),
     ca_market_type = ''spot'', ca_breaker = breaker_key (ei_id i)\<rparr>"
  have "is_complete ex_credentials" by code_simp
  then have b: "fst (build_adapter_for ?st ''kraken'' (Some ex_credentials) False ''spot'' []) = Inr (Live_adapter a)"
    using i get_info_supported [of "''kraken''"]
    by (simp add: build_adapter_for_def new_ccxt_adapter_def live_trading_enabled_def a_def ex_credentials_def)
  obtain cfg where c: "build_client ex_env a = Inr cfg" by (simp add: build_client_def ex_env_def)
  from live_client_sandbox [OF b c] i have "\<not> cc_sandbox cfg" by (simp add: a_def)
  with b c show ?thesis by blast
qed

text \<open>C34: whatever an exchange call does, its failure reaches the caller as an application error of the
  exchange family, and only the breaker of that exchange changes.\<close>

theorem ccxt_call_normalises:
  "\<exists>r bs' x'. ccxt_call env clk ad meth args (bs, x) = (r, (bs', x'))
     \<and> (case r of Inl e \<Rightarrow> is_app ExchangeError e | Inr v \<Rightarrow> True)
     \<and> (\<forall>n. n = ca_breaker ad \<or> dict_get bs' n = dict_get bs n)"
  by (auto simp: ccxt_call_def get_circuit_breaker_def Let_def dict_get_set translate_error_class
      split: prod.splits option.splits sum.splits)

end
