(* ===== verification/Accounts.thy ===== *)
theory Accounts
  imports Database Factory
begin

text \<open>
  The account service (\<^verbatim>\<open>app/services/account_service.py\<close>) and the portfolio service
  (\<^verbatim>\<open>app/services/portfolio_service.py\<close>). What the services are built from is the record
  \<open>app\<close>: the settings, the ccxt library, the database engine, the Fernet library and the
  cipher. A service acts on the session of the request, the breaker registry and the outside world.
  The context manager \<^verbatim>\<open>adapter_session\<close> takes the body of the \<^verbatim>\<open>async with\<close>
  as an argument; the body also sees the paper ledger the adapter works on.
\<close>

record 'x app =
  ap_settings :: settings
  ap_ccxt :: "'x ccxt_env"
  ap_dbms :: dbms
  ap_fernet :: fernet_lib
  ap_cipher :: secret_cipher

type_synonym 'x svc_state = "session \<times> 'x net"
type_synonym 'x body_state = "session \<times> 'x adapter_state"

definition on_work :: "(db, exn, 'a) action \<Rightarrow> (session \<times> 's, exn, 'a) action" where
  "on_work act = (\<lambda>(s, y). case act (ss_work s) of (r, d) \<Rightarrow> (r, (s\<lparr>ss_work := d\<rparr>, y)))"

definition change_work :: "(db \<Rightarrow> db) \<Rightarrow> (session \<times> 's, exn, unit) action" where
  "change_work f = on_work (\<lambda>d. (Inr (), f d))"

definition read_work :: "(db \<Rightarrow> exn + 'a) \<Rightarrow> (session \<times> 's, exn, 'a) action" where
  "read_work f = on_work (\<lambda>d. (f d, d))"

section \<open>Managing accounts\<close>

definition create_paper_account ::
    "string \<Rightarrow> rat \<Rightarrow> string \<Rightarrow> string \<Rightarrow> string \<Rightarrow> string \<Rightarrow> (session \<times> 's, exn, account_row) action" where
  "create_paper_account aid now user_id exchange_id label market_type =
     (let a = \<lparr>ac_id = aid, ac_user_id = user_id, ac_exchange_id = exchange_id, ac_label = label,
               ac_market_type = market_type, ac_is_paper = True, ac_api_key_enc = None,
               ac_api_secret_enc = None, ac_passphrase_enc = None, ac_is_active = True, ac_created_at = now\<rparr>
      in abind (on_work (account_add a)) (\<lambda>_.
         abind (change_work (audit_record ''account.create_paper'' (Some user_id) None
           [(''exchange'', VStr exchange_id), (''label'', VStr label)])) (\<lambda>_. apure (Inr a))))"

definition encrypt_opt :: "'x app \<Rightarrow> string \<Rightarrow> string option \<Rightarrow> exn + string option" where
  "encrypt_opt ap nonce p = (case p of
       None \<Rightarrow> Inr None
     | Some [] \<Rightarrow> Inr None
     | Some s \<Rightarrow> rbind (cipher_encrypt (ap_fernet ap) (ap_cipher ap) nonce (Some s)) (\<lambda>t. Inr (Some t)))"

definition create_live_account ::
    "'x app \<Rightarrow> string \<Rightarrow> rat \<Rightarrow> string \<times> string \<times> string \<Rightarrow> string \<Rightarrow> string \<Rightarrow> string \<Rightarrow> string
       \<Rightarrow> string \<Rightarrow> string \<Rightarrow> string option \<Rightarrow> (session \<times> 's, exn, account_row) action" where
  "create_live_account ap aid now nonces user_id exchange_id label market_type api_key api_secret passphrase =
     (case get_info exchange_id of
        None \<Rightarrow> apure (Inl (raise_app ValidationError ''Unsupported exchange: {}'' [VStr exchange_id]))
      | Some info \<Rightarrow>
          if ei_requires_passphrase info \<and> passphrase \<in> {None, Some []}
          then apure (Inl (raise_app ValidationError ''{} requires a passphrase.'' [VStr (ei_name info)]))
          else
            abind (apure (cipher_encrypt (ap_fernet ap) (ap_cipher ap) (fst nonces) (Some api_key))) (\<lambda>key_enc.
            abind (apure (cipher_encrypt (ap_fernet ap) (ap_cipher ap) (fst (snd nonces)) (Some api_secret))) (\<lambda>secret_enc.
            abind (apure (encrypt_opt ap (snd (snd nonces)) passphrase)) (\<lambda>pass_enc.
              let a = \<lparr>ac_id = aid, ac_user_id = user_id, ac_exchange_id = exchange_id, ac_label = label,
                       ac_market_type = market_type, ac_is_paper = False, ac_api_key_enc = Some key_enc,
                       ac_api_secret_enc = Some secret_enc, ac_passphrase_enc = pass_enc,
                       ac_is_active = True, ac_created_at = now\<rparr>
              in abind (on_work (account_add a)) (\<lambda>_.
                 abind (change_work (audit_record ''account.create_live'' (Some user_id) None
                   [(''exchange'', VStr exchange_id), (''label'', VStr label)])) (\<lambda>_. apure (Inr a)))))))"

definition list_accounts :: "string \<Rightarrow> (session \<times> 's, exn, account_row list) action" where
  "list_accounts user_id = read_work (\<lambda>d. Inr (account_list_for_user user_id d))"

definition get_account :: "string \<Rightarrow> string \<Rightarrow> (session \<times> 's, exn, account_row) action" where
  "get_account account_id user_id = read_work (\<lambda>d.
     case account_get_for_user account_id user_id d of
       None \<Rightarrow> Inl (raise_app NotFoundError ''Account not found.'' [])
     | Some a \<Rightarrow> Inr a)"

definition delete_account :: "dbms \<Rightarrow> string \<Rightarrow> string \<Rightarrow> (session \<times> 's, exn, unit) action" where
  "delete_account dm account_id user_id =
     abind (get_account account_id user_id) (\<lambda>a.
     abind (change_work (account_delete dm a)) (\<lambda>_.
       change_work (audit_record ''account.delete'' (Some user_id) None [(''id'', VStr account_id)])))"

section \<open>Building adapters\<close>

definition decrypt_credentials :: "'x app \<Rightarrow> account_row \<Rightarrow> exn + credentials option" where
  "decrypt_credentials ap a =
     (if ac_is_paper a \<or> ac_api_key_enc a \<in> {None, Some []} \<or> ac_api_secret_enc a \<in> {None, Some []}
      then Inr None
      else
        rbind (cipher_decrypt (ap_fernet ap) (ap_cipher ap) (the (ac_api_key_enc a))) (\<lambda>key.
        rbind (cipher_decrypt (ap_fernet ap) (ap_cipher ap) (the (ac_api_secret_enc a))) (\<lambda>secret.
        rbind (if ac_passphrase_enc a \<in> {None, Some []} then Inr None
               else rbind (cipher_decrypt (ap_fernet ap) (ap_cipher ap) (the (ac_passphrase_enc a))) (\<lambda>p. Inr (Some p))) (\<lambda>pass.
          Inr (Some \<lparr>cr_api_key = key, cr_api_secret = secret, cr_passphrase = pass, cr_subaccount = None, cr_testnet = True\<rparr>)))))"

definition is_paper_effective :: "'x app \<Rightarrow> account_row \<Rightarrow> bool" where
  "is_paper_effective ap a \<longleftrightarrow> ac_is_paper a \<or> \<not> live_trading_enabled (ap_settings ap)"

definition build_adapter :: "'x app \<Rightarrow> account_row \<Rightarrow> breaker_registry \<Rightarrow> (exn + adapter) \<times> breaker_registry" where
  "build_adapter ap a bs =
     (case decrypt_credentials ap a of
        Inl e \<Rightarrow> (Inl e, bs)
      | Inr creds \<Rightarrow> build_adapter_for (ap_settings ap) (ac_exchange_id a) creds (ac_is_paper a) (ac_market_type a) bs)"

definition unused_ledger :: paper_ledger where
  "unused_ledger = \<lparr>lg_quote_asset = [], lg_starting_balance = 0, lg_balances = [], lg_orders = []\<rparr>"

text \<open>
  A live adapter gets no ledger; the state then carries \<open>unused_ledger\<close>, which is never saved.
\<close>

definition adapter_session ::
    "'x app \<Rightarrow> account_row \<Rightarrow> bool \<Rightarrow> (adapter \<Rightarrow> ('x body_state, exn, 'a) action) \<Rightarrow> ('x svc_state, exn, 'a) action" where
  "adapter_session ap a persist body = (\<lambda>(s, (bs, x)).
     case (if is_paper_effective ap a then load_ledger (ac_id a) (ss_work s) else Inr unused_ledger) of
       Inl e \<Rightarrow> (Inl e, (s, (bs, x)))
     | Inr lg \<Rightarrow>
         (case build_adapter ap a bs of
            (Inl e, bs') \<Rightarrow> (Inl e, (s, (bs', x)))
          | (Inr ad, bs') \<Rightarrow>
              (case body ad (s, (lg, (bs', x))) of
                 (r, (s', (lg', net'))) \<Rightarrow>
                   (r, (if persist \<and> is_paper_effective ap a
                        then s'\<lparr>ss_work := save_ledger (ac_id a) lg' (ss_work s')\<rparr> else s', net')))))"

section \<open>Portfolio\<close>

definition add_balance :: "balance \<Rightarrow> (string, decimal \<times> decimal) dict \<Rightarrow> (string, decimal \<times> decimal) dict" where
  "add_balance b totals =
     (let (free, used) = (case dict_get totals (bal_asset b) of None \<Rightarrow> (0, 0) | Some p \<Rightarrow> p)
      in dict_set (bal_asset b) (dadd free (bal_free b), dadd used (bal_used b)) totals)"

definition lift_body :: "('x adapter_state, exn, 'a) action \<Rightarrow> ('x body_state, exn, 'a) action" where
  "lift_body act = (\<lambda>(s, st). case act st of (r, st') \<Rightarrow> (r, (s, st')))"

definition account_balances ::
    "'x app \<Rightarrow> pyfloat \<times> pyfloat \<Rightarrow> account_row \<Rightarrow> ('x svc_state, exn, balance list) action" where
  "account_balances ap clk a =
     adapter_session ap a False (\<lambda>ad. lift_body (adapter_fetch_balance (ap_ccxt ap) clk ad))"

text \<open>\<open>clk\<close> gives the clock values read while an account is queried.\<close>

primrec sum_accounts ::
    "'x app \<Rightarrow> (string \<Rightarrow> pyfloat \<times> pyfloat) \<Rightarrow> account_row list \<Rightarrow> (string, decimal \<times> decimal) dict \<Rightarrow> 'x svc_state
       \<Rightarrow> (string, decimal \<times> decimal) dict \<times> 'x svc_state" where
  "sum_accounts ap clk [] totals st = (totals, st)"
| "sum_accounts ap clk (a # as) totals st =
     (case account_balances ap (clk (ac_id a)) a st of
        (Inl e, st') \<Rightarrow> sum_accounts ap clk as totals st'
      | (Inr bals, st') \<Rightarrow> sum_accounts ap clk as (fold add_balance bals totals) st')"

definition aggregate_balances ::
    "'x app \<Rightarrow> (string \<Rightarrow> pyfloat \<times> pyfloat) \<Rightarrow> string \<Rightarrow> ('x svc_state, exn, (string, balance) dict) action" where
  "aggregate_balances ap clk user_id =
     abind (list_accounts user_id) (\<lambda>as st.
       case sum_accounts ap clk as [] st of
         (totals, st') \<Rightarrow> (Inr (map (\<lambda>(asset, (f, u)). (asset, \<lparr>bal_asset = asset, bal_free = f, bal_used = u\<rparr>)) totals), st'))"

text \<open>Reading balances leaves the session as it is.\<close>

lemma account_balances_same: "fst (snd (account_balances ap clk a (s, y))) = s"
  by (cases y) (auto simp: account_balances_def adapter_session_def lift_body_def split: sum.splits prod.splits)

lemma sum_accounts_same: "fst (snd (sum_accounts ap clk as totals st)) = fst st"
proof (induction as arbitrary: totals st)
  case (Cons a as)
  show ?case
  proof (cases "account_balances ap (clk (ac_id a)) a st")
    case (fields r s' bs x)
    then have "s' = fst st" using account_balances_same [of ap "clk (ac_id a)" a "fst st" "snd st"] by simp
    then show ?thesis using fields Cons.IH by (cases r) auto
  qed
qed simp

end
