(* ===== verification/Schemas.thy ===== *)
theory Schemas
  imports Accounts
begin

text \<open>
  The request and response schemas (\<^verbatim>\<open>app/schemas\<close>). Decoding JSON into typed fields belongs to
  pydantic; a payload here is the record of its typed fields, and its constraints are a list of the
  fields that violate them. A validator that compares fields runs when all fields are valid. The
  validation of e-mail addresses is a library's: a function that returns the normalised address.
  A response model is the dictionary that is sent.
\<close>

section \<open>Checks\<close>

definition check :: "string \<Rightarrow> bool \<Rightarrow> string list" where
  "check field ok = (if ok then [] else [field])"

lemma check_Nil [simp]: "check f ok = [] \<longleftrightarrow> ok"
  by (simp add: check_def)

definition opt_all :: "('a \<Rightarrow> bool) \<Rightarrow> 'a option \<Rightarrow> bool" where
  "opt_all P v = (case v of None \<Rightarrow> True | Some x \<Rightarrow> P x)"

definition length_between :: "nat \<Rightarrow> nat \<Rightarrow> string \<Rightarrow> bool" where
  "length_between lo hi s \<longleftrightarrow> lo \<le> length s \<and> length s \<le> hi"

definition in_ranges :: "(nat \<times> nat) list \<Rightarrow> char \<Rightarrow> bool" where
  "in_ranges rs c \<longleftrightarrow> (\<exists>r \<in> set rs. fst r \<le> of_char c \<and> of_char c \<le> snd r)"

text \<open>\<^verbatim>\<open>[A-Z0-9]{1,20}\<close> and the pattern of a market symbol built from it.\<close>

definition symbol_part :: "string \<Rightarrow> bool" where
  "symbol_part s \<longleftrightarrow> length_between 1 20 s \<and> list_all (in_ranges [(65, 90), (48, 57)]) s"

definition symbol_ok :: "string \<Rightarrow> bool" where
  "symbol_ok s =
     (case split_on CHR ''/'' s of
        [base, rest] \<Rightarrow> symbol_part base \<and>
          (case split_on CHR '':'' rest of
             [quote] \<Rightarrow> symbol_part quote
           | [quote, settle] \<Rightarrow> symbol_part quote \<and> symbol_part settle
           | _ \<Rightarrow> False)
      | _ \<Rightarrow> False)"

lemma symbol_part_chars: "symbol_part s \<Longrightarrow> CHR ''/'' \<notin> set s \<and> CHR '':'' \<notin> set s \<and> s \<noteq> []"
  by (auto simp: symbol_part_def length_between_def list_all_iff in_ranges_def)

lemma split_on_single: "split_on c s = [a] \<Longrightarrow> s = a"
  by (induction s arbitrary: a) (auto split: if_splits list.splits)

lemma split_on_join: "split_on c s = [a, b] \<Longrightarrow> s = a @ c # b"
proof (induction s arbitrary: a)
  case (Cons x s)
  then show ?case
  proof (cases "x = c")
    case True
    then have "split_on c s = [b]" "a = []" using Cons.prems by auto
    then show ?thesis using True split_on_single by fastforce
  qed (auto split: list.splits)
qed simp

text \<open>The recogniser accepts exactly the strings the pattern describes.\<close>

lemma symbol_ok_iff:
  "symbol_ok s \<longleftrightarrow> (\<exists>b q. symbol_part b \<and> symbol_part q \<and>
     (s = b @ ''/'' @ q \<or> (\<exists>r. symbol_part r \<and> s = b @ ''/'' @ q @ '':'' @ r)))"
proof
  assume "symbol_ok s"
  then show "\<exists>b q. symbol_part b \<and> symbol_part q \<and> (s = b @ ''/'' @ q \<or> (\<exists>r. symbol_part r \<and> s = b @ ''/'' @ q @ '':'' @ r))"
    by (auto simp: symbol_ok_def split: list.splits dest!: split_on_join split_on_single)
next
  assume "\<exists>b q. symbol_part b \<and> symbol_part q \<and> (s = b @ ''/'' @ q \<or> (\<exists>r. symbol_part r \<and> s = b @ ''/'' @ q @ '':'' @ r))"
  then show "symbol_ok s"
    by (auto simp: symbol_ok_def split_on_append split_on_no_sep symbol_part_chars)
qed

text \<open>\<^verbatim>\<open>[\w .\-]{1,64}\<close> on ASCII text.\<close>

definition label_ok :: "string \<Rightarrow> bool" where
  "label_ok s \<longleftrightarrow> length_between 1 64 s \<and>
     list_all (in_ranges [(65, 90), (97, 122), (48, 57), (95, 95), (32, 32), (46, 46), (45, 45)]) s"

section \<open>Trading\<close>

record order_create =
  oc_account_id :: string
  oc_symbol :: string
  oc_side :: order_side
  oc_type :: order_type
  oc_amount :: decimal
  oc_price :: "decimal option"
  oc_stop_price :: "decimal option"
  oc_time_in_force :: time_in_force
  oc_reduce_only :: bool
  oc_post_only :: bool
  oc_leverage :: "int option"

definition price_required_for_limit :: "order_create \<Rightarrow> string list" where
  "price_required_for_limit p =
     (if oc_type p \<in> {Limit, Stop_limit} \<and> oc_price p = None then [type_value (oc_type p) @ '' orders require a price.'']
      else if oc_type p \<in> {Stop, Stop_limit} \<and> oc_stop_price p = None
      then [type_value (oc_type p) @ '' orders require a stop_price.'']
      else [])"

definition order_create_errors :: "order_create \<Rightarrow> string list" where
  "order_create_errors p =
     (let fields = check ''symbol'' (symbol_ok (oc_symbol p)) @ check ''amount'' (0 < oc_amount p)
            @ check ''price'' (opt_all (\<lambda>v. 0 < v) (oc_price p)) @ check ''stop_price'' (opt_all (\<lambda>v. 0 < v) (oc_stop_price p))
            @ check ''leverage'' (opt_all (\<lambda>l. 1 \<le> l \<and> l \<le> 125) (oc_leverage p))
      in if fields = [] then price_required_for_limit p else fields)"

record risk_calc_request =
  rr_account_balance :: decimal
  rr_risk_per_trade :: decimal
  rr_entry_price :: decimal
  rr_stop_loss_price :: decimal
  rr_take_profit_price :: "decimal option"
  rr_leverage :: decimal

definition risk_calc_errors :: "risk_calc_request \<Rightarrow> string list" where
  "risk_calc_errors p =
     check ''account_balance'' (0 < rr_account_balance p)
     @ check ''risk_per_trade'' (0 < rr_risk_per_trade p \<and> rr_risk_per_trade p \<le> 1)
     @ check ''entry_price'' (0 < rr_entry_price p) @ check ''stop_loss_price'' (0 < rr_stop_loss_price p)
     @ check ''take_profit_price'' (opt_all (\<lambda>v. 0 < v) (rr_take_profit_price p))
     @ check ''leverage'' (0 < rr_leverage p \<and> rr_leverage p \<le> 125)"

definition opt_num :: "decimal option \<Rightarrow> pyval" where
  "opt_num v = (case v of None \<Rightarrow> VNone | Some x \<Rightarrow> VNum x)"

definition opt_str :: "string option \<Rightarrow> pyval" where
  "opt_str v = (case v of None \<Rightarrow> VNone | Some s \<Rightarrow> VStr s)"

definition order_out :: "order_row \<Rightarrow> pyval" where
  "order_out r = VDict
     [(''id'', VStr (or_id r)), (''exchange_order_id'', opt_str (or_exchange_order_id r)), (''symbol'', VStr (or_symbol r)),
      (''side'', VStr (or_side r)), (''type'', VStr (or_type r)), (''status'', VStr (or_status r)),
      (''amount'', VNum (or_amount r)), (''filled'', VNum (or_filled r)), (''price'', opt_num (or_price r)),
      (''average'', opt_num (or_average r)), (''fee'', VNum (or_fee r)), (''is_paper'', VBool (or_is_paper r))]"

definition exchange_order_to_out :: "order \<Rightarrow> pyval" where
  "exchange_order_to_out ord = VDict
     [(''id'', VStr (o_id ord)), (''exchange_order_id'', VStr (o_id ord)), (''symbol'', VStr (o_symbol ord)),
      (''side'', VStr (side_value (o_side ord))), (''type'', VStr (type_value (o_type ord))),
      (''status'', VStr (status_value (o_status ord))), (''amount'', VNum (o_amount ord)),
      (''filled'', VNum (o_filled ord)), (''price'', opt_num (o_price ord)), (''average'', opt_num (o_average ord)),
      (''fee'', VNum (o_fee ord)), (''is_paper'', VBool (o_is_paper ord))]"

definition position_to_out :: "position \<Rightarrow> pyval" where
  "position_to_out p = VDict
     [(''symbol'', VStr (ps_symbol p)), (''side'', VStr (position_side_value (ps_side p))),
      (''contracts'', VNum (ps_contracts p)), (''entry_price'', VNum (ps_entry_price p)),
      (''mark_price'', opt_num (ps_mark_price p)), (''leverage'', VInt (ps_leverage p)),
      (''unrealized_pnl'', VNum (ps_unrealized_pnl p)), (''liquidation_price'', opt_num (ps_liquidation_price p))]"

definition balance_out :: "balance \<Rightarrow> pyval" where
  "balance_out b = VDict
     [(''asset'', VStr (bal_asset b)), (''free'', VNum (bal_free b)), (''used'', VNum (bal_used b)), (''total'', VNum (bal_total b))]"

section \<open>Accounts\<close>

record account_payload =
  pl_exchange_id :: string
  pl_label :: string
  pl_market_type :: string

text \<open>The validator lower-cases the exchange name before it looks it up; the payload keeps the result.\<close>

definition known_exchange :: "string \<Rightarrow> string option" where
  "known_exchange v = (let w = py_lower v in if w \<in> set (map fst supported_exchanges) then Some w else None)"

definition account_errors :: "account_payload \<Rightarrow> string list" where
  "account_errors p =
     check ''exchange_id'' (known_exchange (pl_exchange_id p) \<noteq> None)
     @ check ''label'' (length (pl_label p) \<le> 64 \<and> label_ok (pl_label p))
     @ check ''market_type'' (pl_market_type p \<in> {''spot'', ''margin'', ''futures'', ''swap''})"

definition live_account_errors :: "account_payload \<Rightarrow> string \<Rightarrow> string \<Rightarrow> string option \<Rightarrow> string list" where
  "live_account_errors p api_key api_secret passphrase =
     account_errors p @ check ''api_key'' (length_between 8 256 api_key) @ check ''api_secret'' (length_between 8 512 api_secret)
     @ check ''passphrase'' (opt_all (\<lambda>s. length s \<le> 256) passphrase)"

definition account_out :: "account_row \<Rightarrow> pyval" where
  "account_out a = VDict
     [(''id'', VStr (ac_id a)), (''exchange_id'', VStr (ac_exchange_id a)), (''label'', VStr (ac_label a)),
      (''market_type'', VStr (ac_market_type a)), (''is_paper'', VBool (ac_is_paper a)), (''is_active'', VBool (ac_is_active a)),
      (''created_at'', VNum (ac_created_at a))]"

section \<open>Users\<close>

type_synonym email_check = "string \<Rightarrow> string option"

definition register_errors :: "email_check \<Rightarrow> string \<Rightarrow> string \<Rightarrow> string list" where
  "register_errors valid_email email password = check ''email'' (valid_email email \<noteq> None) @ check ''password'' (length_between 10 128 password)"

definition login_errors :: "email_check \<Rightarrow> string \<Rightarrow> string \<Rightarrow> string option \<Rightarrow> string list" where
  "login_errors valid_email email password totp_code =
     check ''email'' (valid_email email \<noteq> None) @ check ''password'' (length_between 1 128 password)
     @ check ''totp_code'' (opt_all (\<lambda>s. length s \<le> 8) totp_code)"

definition totp_errors :: "string \<Rightarrow> string list" where
  "totp_errors code = check ''code'' (length_between 6 8 code)"

definition token_out :: "token_pair \<Rightarrow> pyval" where
  "token_out p = VDict
     [(''access_token'', VStr (tp_access_token p)), (''refresh_token'', VStr (tp_refresh_token p)),
      (''token_type'', VStr ''bearer''), (''expires_in'', VInt (tp_expires_in p))]"

text \<open>The role and the address of a stored user are validated again; the time of creation is not part of the model's user row.\<close>

definition user_out :: "email_check \<Rightarrow> user_row \<Rightarrow> exn + pyval" where
  "user_out valid_email u =
     (case (valid_email (us_email u), role_of (us_role u)) of
        (Some email, Some r) \<Rightarrow> Inr (VDict
          [(''id'', VStr (us_id u)), (''email'', VStr email), (''role'', VStr (role_value r)),
           (''is_active'', VBool (us_is_active u)), (''totp_enabled'', VBool (us_totp_enabled u))])
      | _ \<Rightarrow> Inl (PyExn ''ValidationError'' ''UserOut''))"

section \<open>Market data\<close>

definition ticker_out :: "ticker \<Rightarrow> pyval" where
  "ticker_out t = VDict
     [(''symbol'', VStr (tk_symbol t)), (''last'', VNum (tk_last t)), (''bid'', opt_num (tk_bid t)), (''ask'', opt_num (tk_ask t)),
      (''high'', opt_num (tk_high t)), (''low'', opt_num (tk_low t)), (''base_volume'', opt_num (tk_base_volume t)),
      (''timestamp'', (case tk_timestamp t of None \<Rightarrow> VNone | Some i \<Rightarrow> VInt i))]"

definition level_out :: "book_level \<Rightarrow> pyval" where
  "level_out l = VDict [(''price'', VNum (lvl_price l)), (''amount'', VNum (lvl_amount l))]"

definition order_book_out :: "order_book \<Rightarrow> pyval" where
  "order_book_out ob = VDict
     [(''symbol'', VStr (ob_symbol ob)), (''bids'', VList (map level_out (ob_bids ob))), (''asks'', VList (map level_out (ob_asks ob))),
      (''timestamp'', (case ob_timestamp ob of None \<Rightarrow> VNone | Some i \<Rightarrow> VInt i)), (''spread'', opt_num (spread ob))]"

definition candle_out :: "candle \<Rightarrow> pyval" where
  "candle_out c = VDict
     [(''timestamp'', VInt (cd_timestamp c)), (''open'', VNum (cd_open c)), (''high'', VNum (cd_high c)), (''low'', VNum (cd_low c)),
      (''close'', VNum (cd_close c)), (''volume'', VNum (cd_volume c))]"

definition indicator_out :: "string \<Rightarrow> string \<Rightarrow> string \<Rightarrow> pyfloat option list \<Rightarrow> pyval" where
  "indicator_out symbol timeframe name values = VDict
     [(''symbol'', VStr symbol), (''timeframe'', VStr timeframe), (''indicator'', VStr (py_lower name)),
      (''values'', VList (map opt_num values)),
      (''latest'', opt_num (case find (\<lambda>v. v \<noteq> None) (rev values) of None \<Rightarrow> None | Some v \<Rightarrow> v))]"

end
