(* ===== verification/Trading_Service.thy ===== *)
theory Trading_Service
  imports Accounts
begin

text \<open>
  The trading service (\<^verbatim>\<open>app/services/trading_service.py\<close>): placing an order with the
  pre-trade risk check, cancelling, listing. The values the code draws from the clock and from
  \<^verbatim>\<open>uuid4\<close> during one placement are the record \<open>place_inputs\<close>.
\<close>

section \<open>Operations\<close>

record place_inputs =
  pi_client_hex :: string
  pi_order_hex :: string
  pi_row_id :: string
  pi_now :: rat
  pi_clk_ticker :: "pyfloat \<times> pyfloat"
  pi_clk_balance :: "pyfloat \<times> pyfloat"
  pi_clk_create :: "pyfloat \<times> pyfloat"

definition quote_of :: "string \<Rightarrow> string" where
  "quote_of symbol = snd (split_symbol symbol ''USDT'')"

definition quote_equity ::
    "'x ccxt_env \<Rightarrow> pyfloat \<times> pyfloat \<Rightarrow> adapter \<Rightarrow> string \<Rightarrow> 'x adapter_state \<Rightarrow> decimal \<times> 'x adapter_state" where
  "quote_equity env clk ad symbol st =
     (case adapter_fetch_balance env clk ad st of
        (Inl e, st') \<Rightarrow> (0, st')
      | (Inr bals, st') \<Rightarrow>
          ((case find (\<lambda>b. bal_asset b = quote_of symbol) bals of None \<Rightarrow> 0 | Some b \<Rightarrow> bal_total b), st'))"

definition persist_row :: "string \<Rightarrow> rat \<Rightarrow> string \<Rightarrow> account_row \<Rightarrow> order \<Rightarrow> order_row" where
  "persist_row rid now user_id a ord =
     \<lparr>or_id = rid, or_user_id = user_id, or_account_id = ac_id a, or_exchange_order_id = Some (o_id ord),
      or_client_order_id = o_client_order_id ord, or_symbol = o_symbol ord, or_side = side_value (o_side ord),
      or_type = type_value (o_type ord), or_status = status_value (o_status ord), or_amount = o_amount ord,
      or_filled = o_filled ord, or_price = o_price ord, or_average = o_average ord, or_fee = o_fee ord,
      or_is_paper = o_is_paper ord, or_created_at = now\<rparr>"

definition persist_order ::
    "string \<Rightarrow> rat \<Rightarrow> string \<Rightarrow> account_row \<Rightarrow> order \<Rightarrow> (session \<times> 's, exn, order_row) action" where
  "persist_order rid now user_id a ord =
     (let r = persist_row rid now user_id a ord
      in abind (on_work (order_add r)) (\<lambda>_. apure (Inr r)))"

definition the_request :: "place_inputs \<Rightarrow> order_request \<Rightarrow> order_request" where
  "the_request inp rq = rq\<lparr>rq_client_order_id := Some (new_client_order_id (pi_client_hex inp)), rq_params := []\<rparr>"

definition leverage_of :: "order_request \<Rightarrow> decimal" where
  "leverage_of rq = (case rq_leverage rq of None \<Rightarrow> 1 | Some l \<Rightarrow> if l = 0 then 1 else of_int l)"

definition reference_price ::
    "'x ccxt_env \<Rightarrow> place_inputs \<Rightarrow> order_request \<Rightarrow> adapter \<Rightarrow> ('x adapter_state, exn, decimal) action" where
  "reference_price env inp rq ad =
     (case rq_price rq of
        Some p \<Rightarrow> apure (Inr p)
      | None \<Rightarrow> abind (adapter_fetch_ticker env (pi_clk_ticker inp) ad (rq_symbol rq)) (\<lambda>t. apure (Inr (tk_last t))))"

definition risk_check ::
    "'x ccxt_env \<Rightarrow> risk_limits \<Rightarrow> place_inputs \<Rightarrow> order_request \<Rightarrow> adapter \<Rightarrow> decimal \<Rightarrow> ('x adapter_state, exn, unit) action" where
  "risk_check env limits inp rq ad ref_price = (\<lambda>st.
     case quote_equity env (pi_clk_balance inp) ad (rq_symbol rq) st of
       (equity, st') \<Rightarrow>
         (check_order limits (dmul (rq_amount rq) ref_price)
            (if 0 < equity then equity else dmul (dmul (rq_amount rq) ref_price) (rl_max_leverage limits))
            (leverage_of rq) None, st'))"

definition place_body ::
    "'x app \<Rightarrow> risk_limits \<Rightarrow> place_inputs \<Rightarrow> string \<Rightarrow> string \<Rightarrow> account_row \<Rightarrow> order_request \<Rightarrow> adapter
       \<Rightarrow> ('x body_state, exn, order_row) action" where
  "place_body ap limits inp user_id account_id a rq ad =
     abind (lift_body (reference_price (ap_ccxt ap) inp rq ad)) (\<lambda>ref_price.
     abind (lift_body (risk_check (ap_ccxt ap) limits inp rq ad ref_price)) (\<lambda>_.
     abind (lift_body (adapter_create_order (ap_ccxt ap) (pi_clk_create inp) (pi_order_hex inp) ad (the_request inp rq))) (\<lambda>ord.
     abind (persist_order (pi_row_id inp) (pi_now inp) user_id a ord) (\<lambda>r.
     abind (change_work (audit_record ''order.place'' (Some user_id) None
        [(''account'', VStr account_id), (''symbol'', VStr (rq_symbol rq)), (''side'', VStr (side_value (rq_side rq))),
         (''type'', VStr (type_value (rq_type rq))), (''paper'', VBool (o_is_paper ord)),
         (''status'', VStr (status_value (o_status ord)))])) (\<lambda>_.
       apure (Inr r))))))"

definition place_order ::
    "'x app \<Rightarrow> risk_limits \<Rightarrow> place_inputs \<Rightarrow> string \<Rightarrow> string \<Rightarrow> order_request \<Rightarrow> ('x svc_state, exn, order_row) action" where
  "place_order ap limits inp user_id account_id rq =
     abind (get_account account_id user_id) (\<lambda>a.
       adapter_session ap a True (place_body ap limits inp user_id account_id a rq))"

definition get_order :: "string \<Rightarrow> string \<Rightarrow> (session \<times> 's, exn, order_row) action" where
  "get_order user_id order_id = read_work (\<lambda>d.
     case order_get_for_user order_id user_id d of
       None \<Rightarrow> Inl (raise_app NotFoundError ''Order not found.'' [])
     | Some r \<Rightarrow> Inr r)"

definition cancel_status ::
    "'x ccxt_env \<Rightarrow> pyfloat \<times> pyfloat \<Rightarrow> adapter \<Rightarrow> order_row \<Rightarrow> ('x adapter_state, exn, string) action" where
  "cancel_status env clk ad r =
     (case or_exchange_order_id r of
        None \<Rightarrow> apure (Inr (status_value Canceled))
      | Some [] \<Rightarrow> apure (Inr (status_value Canceled))
      | Some oid \<Rightarrow> (\<lambda>st.
          case adapter_cancel_order env clk ad oid (or_symbol r) st of
            (Inr ord, st') \<Rightarrow> (Inr (status_value (o_status ord)), st')
          | (Inl e, st') \<Rightarrow> (if is_app NotFoundError e then Inr (status_value Canceled) else Inl e, st')))"

definition cancel_body ::
    "'x app \<Rightarrow> pyfloat \<times> pyfloat \<Rightarrow> string \<Rightarrow> order_row \<Rightarrow> adapter \<Rightarrow> ('x body_state, exn, order_row) action" where
  "cancel_body ap clk user_id r ad =
     abind (lift_body (cancel_status (ap_ccxt ap) clk ad r)) (\<lambda>st.
     abind (change_work (order_update (or_id r) (\<lambda>q. q\<lparr>or_status := st\<rparr>))) (\<lambda>_.
     abind (change_work (audit_record ''order.cancel'' (Some user_id) None
        [(''account'', VStr (or_account_id r)), (''order'', VStr (or_id r))])) (\<lambda>_.
       apure (Inr (r\<lparr>or_status := st\<rparr>)))))"

definition cancel_order ::
    "'x app \<Rightarrow> pyfloat \<times> pyfloat \<Rightarrow> string \<Rightarrow> string \<Rightarrow> ('x svc_state, exn, order_row) action" where
  "cancel_order ap clk user_id order_id =
     abind (get_order user_id order_id) (\<lambda>r.
       if or_status r \<in> {status_value Canceled, status_value Filled} then apure (Inr r)
       else abind (get_account (or_account_id r) user_id) (\<lambda>a.
         adapter_session ap a True (cancel_body ap clk user_id r)))"

definition list_open_orders ::
    "'x app \<Rightarrow> pyfloat \<times> pyfloat \<Rightarrow> string \<Rightarrow> string \<Rightarrow> ('x svc_state, exn, order list) action" where
  "list_open_orders ap clk user_id account_id =
     abind (get_account account_id user_id) (\<lambda>a.
       adapter_session ap a False (\<lambda>ad. lift_body (adapter_fetch_open_orders (ap_ccxt ap) clk ad None)))"

definition list_positions ::
    "'x app \<Rightarrow> pyfloat \<times> pyfloat \<Rightarrow> string \<Rightarrow> string \<Rightarrow> ('x svc_state, exn, position list) action" where
  "list_positions ap clk user_id account_id =
     abind (get_account account_id user_id) (\<lambda>a.
       adapter_session ap a False (\<lambda>ad. lift_body (adapter_fetch_positions (ap_ccxt ap) clk ad)))"

definition list_orders ::
    "string \<Rightarrow> string option \<Rightarrow> string option \<Rightarrow> int \<Rightarrow> int \<Rightarrow> (session \<times> 's, exn, order_row list \<times> int) action" where
  "list_orders user_id symbol status page page_size =
     (let offset = (page - 1) * page_size
      in read_work (\<lambda>d. Inr (order_list_for_user user_id symbol status page_size offset d,
                            order_count_for_user user_id symbol status d)))"

text \<open>\<^verbatim>\<open>PageMeta.pages\<close>\<close>

definition page_count :: "int \<Rightarrow> int \<Rightarrow> int" where
  "page_count n page_size = (if page_size \<noteq> 0 then (n + page_size - 1) div page_size else 0)"

section \<open>What the services leave alone\<close>

lemma keeps_committed_work [simp]: "keeps (\<lambda>s. ss_committed (fst s)) (on_work act)"
  by (auto simp: keeps_def on_work_def split: prod.splits)

lemma keeps_committed_change [simp]:
  "keeps (\<lambda>s. ss_committed (fst s)) (change_work f)" "keeps (\<lambda>s. ss_committed (fst s)) (read_work g)"
  by (simp_all add: change_work_def read_work_def)

lemma keeps_committed_body [simp]: "keeps (\<lambda>s. ss_committed (fst s)) (lift_body act)"
  by (auto simp: keeps_def lift_body_def split: prod.splits)

lemma keeps_adapter_session:
  assumes "\<And>ad. keeps (\<lambda>s. ss_committed (fst s)) (body ad)"
  shows "keeps (\<lambda>s. ss_committed (fst s)) (adapter_session ap a persist body)"
  unfolding keeps_def
proof clarify
  fix s :: session and bs x
  have "ss_committed (fst (snd (body ad (s, (lg, net))))) = ss_committed s" for ad lg net
    using assms unfolding keeps_def by (metis fst_conv)
  then show "ss_committed (fst (snd (adapter_session ap a persist body (s, bs, x)))) = ss_committed (fst (s, bs, x))"
    by (auto simp: adapter_session_def split: sum.splits prod.splits) (metis fst_conv snd_conv)+
qed

lemma place_order_keeps: "keeps (\<lambda>s. ss_committed (fst s)) (place_order ap limits inp u aid rq)"
  unfolding place_order_def place_body_def persist_order_def get_account_def Let_def
  by (intro keeps_bind keeps_adapter_session) auto

lemma cancel_order_keeps: "keeps (\<lambda>s. ss_committed (fst s)) (cancel_order ap clk u oid)"
  unfolding cancel_order_def cancel_body_def get_order_def get_account_def
  by (intro keeps_bind) (auto intro!: keeps_bind keeps_adapter_session)

lemma with_session_failure:
  assumes "keeps (\<lambda>s. ss_committed (fst s)) body" and "with_session dm body (d, x) = (Inl e, (d', x'))"
  shows "d' = d"
proof -
  have "ss_committed (fst (snd (body (\<lparr>ss_committed = d, ss_work = d\<rparr>, x)))) = d"
    using assms(1) by (simp add: keeps_def)
  then show ?thesis using assms(2)
    by (auto simp: with_session_def session_rollback_def split: prod.splits sum.splits)
qed

section \<open>The outside world\<close>

lemma keeps_snd_work [simp]:
  "keeps (\<lambda>s. g (snd s)) (on_work act)" "keeps (\<lambda>s. g (snd s)) (change_work f)" "keeps (\<lambda>s. g (snd s)) (read_work h)"
  by (auto simp: keeps_def change_work_def read_work_def on_work_def split: prod.splits)

lemma keeps_lift: "keeps g act \<Longrightarrow> keeps (\<lambda>s. g (snd s)) (lift_body act)"
  unfolding keeps_def lift_body_def by (auto split: prod.splits) (metis snd_conv)

lemma live_disabled_paper:
  assumes "\<not> allow_live_trading (ap_settings ap)" and "build_adapter ap a bs = (Inr ad, bs')"
  obtains pa m where "ad = Paper_adapter pa m"
proof -
  obtain creds where "fst (build_adapter_for (ap_settings ap) (ac_exchange_id a) creds (ac_is_paper a) (ac_market_type a) bs) = Inr ad"
    using assms(2) by (auto simp: build_adapter_def split: sum.splits) (metis fst_conv)
  then show ?thesis using assms(1) that by (cases rule: build_adapter_cases) auto
qed

lemma keeps_view_session:
  assumes "\<not> allow_live_trading (ap_settings ap)"
    and "\<And>pa m. keeps (\<lambda>s. view (snd (snd (snd s)))) (body (Paper_adapter pa m))"
  shows "keeps (\<lambda>s. view (snd (snd s))) (adapter_session ap a persist body)"
  unfolding keeps_def
proof clarify
  fix s :: session and bs x
  have b: "view (snd (snd (snd (snd (body (Paper_adapter pa m) (s, (lg, (bs', x)))))))) = view x" for pa m lg bs'
    using assms(2) [of pa m] by (simp add: keeps_def)
  show "view (snd (snd (snd (adapter_session ap a persist body (s, bs, x))))) = view (snd (snd (s, bs, x)))"
  proof (cases "build_adapter ap a bs")
    case (Pair r bs')
    show ?thesis
    proof (cases r)
      case (Inr ad)
      then obtain pa m where ad: "ad = Paper_adapter pa m" using live_disabled_paper [OF assms(1)] Pair by metis
      show ?thesis using b [of pa m _ bs'] Pair Inr ad
        by (auto simp: adapter_session_def split: sum.splits prod.splits) (metis snd_conv)+
    qed (auto simp: adapter_session_def Pair split: sum.splits)
  qed
qed

lemma view_ticker:
  "read_only view [''fetch_ticker''] env \<Longrightarrow> keeps (\<lambda>st. view (snd (snd st))) (adapter_fetch_ticker env clk ad symbol)"
  by (simp add: keeps_def adapter_fetch_ticker_view)

lemma view_reference_price:
  assumes "read_only view [''fetch_ticker''] env"
  shows "keeps (\<lambda>st. view (snd (snd st))) (reference_price env inp rq (Paper_adapter pa m))"
  unfolding reference_price_def
  by (cases "rq_price rq", simp_all only: option.case) (intro keeps_bind keeps_pure view_ticker assms)+

lemma view_risk_check:
  "keeps (\<lambda>st. view (snd (snd st))) (risk_check env limits inp rq (Paper_adapter pa m) p)"
  by (auto simp: keeps_def risk_check_def quote_equity_def adapter_fetch_balance_def on_ledger_def split: prod.splits)

lemma view_create:
  "read_only view [''fetch_ticker''] env \<Longrightarrow>
     keeps (\<lambda>st. view (snd (snd st))) (adapter_create_order env clk hex (Paper_adapter pa m) rq)"
  by (simp add: keeps_def paper_create_view)

lemma view_cancel: "keeps (\<lambda>st. view (snd (snd st))) (cancel_status env clk (Paper_adapter pa m) r)"
  unfolding cancel_status_def keeps_def
  by (auto simp: adapter_cancel_order_def on_ledger_def split: option.splits list.splits prod.splits sum.splits)

lemma keeps_lift_view: "keeps (\<lambda>st. view (snd (snd st))) act \<Longrightarrow> keeps (\<lambda>s. view (snd (snd (snd s)))) (lift_body act)"
  by (rule keeps_lift [where g = "\<lambda>st. view (snd (snd st))"])

lemma keeps_view_work:
  "keeps (\<lambda>s. view (snd (snd (snd s)))) (on_work act)" "keeps (\<lambda>s. view (snd (snd (snd s)))) (change_work f)"
  "keeps (\<lambda>s. view (snd (snd s))) (read_work h)"
  using keeps_snd_work [where g = "\<lambda>s. view (snd (snd s))"] keeps_snd_work [where g = "\<lambda>s. view (snd s)"] by blast+

lemma place_order_view:
  assumes "\<not> allow_live_trading (ap_settings ap)" and "read_only view [''fetch_ticker''] (ap_ccxt ap)"
  shows "keeps (\<lambda>s. view (snd (snd s))) (place_order ap limits inp u aid rq)"
  unfolding place_order_def get_account_def
  by (intro keeps_bind keeps_view_work keeps_view_session [OF assms(1)])
    (unfold place_body_def persist_order_def Let_def, intro keeps_bind keeps_view_work keeps_lift_view
      view_reference_price [OF assms(2)] view_risk_check view_create [OF assms(2)] keeps_pure)

lemma cancel_order_view:
  assumes "\<not> allow_live_trading (ap_settings ap)"
  shows "keeps (\<lambda>s. view (snd (snd s))) (cancel_order ap clk u oid)"
  unfolding cancel_order_def get_order_def get_account_def
  by (intro keeps_bind keeps_view_work)
    (auto simp: cancel_body_def intro!: keeps_bind keeps_view_work keeps_view_session [OF assms] keeps_lift_view view_cancel keeps_pure)

end
