(* ===== verification/Auth_Stores.thy ===== *)
theory Auth_Stores
  imports Security
begin

text \<open>
  The in-process stores of authentication: the login throttle
  (\<^verbatim>\<open>app/security/throttle.py\<close>) and the revocation store of token identifiers
  (\<^verbatim>\<open>app/security/token_store.py\<close>). Every operation gets the clock value it reads. What
  the authentication service relies on is stated as the locales \<open>login_throttle\<close> and
  \<open>token_store\<close> and discharged for the in-memory classes.
\<close>

section \<open>Login throttle\<close>

record throttle_entry =
  te_failures :: int
  te_locked_until :: pyfloat

record throttle =
  th_max_attempts :: int
  th_lockout_seconds :: int
  th_entries :: "(string, throttle_entry) dict"

definition new_throttle :: "int \<Rightarrow> int \<Rightarrow> throttle" where
  "new_throttle max_attempts lockout = \<lparr>th_max_attempts = max_attempts, th_lockout_seconds = lockout, th_entries = []\<rparr>"

definition normalise :: "string \<Rightarrow> string" where
  "normalise identity = py_lower (py_strip identity)"

definition is_locked :: "pyfloat \<Rightarrow> string \<Rightarrow> throttle \<Rightarrow> bool \<times> throttle" where
  "is_locked now identity th =
     (let key = normalise identity
      in case dict_get (th_entries th) key of
           None \<Rightarrow> (False, th)
         | Some e \<Rightarrow>
             if te_locked_until e = 0 then (False, th)
             else if now < te_locked_until e then (True, th)
             else (False, th\<lparr>th_entries := dict_pop key (th_entries th)\<rparr>))"

definition retry_after :: "pyfloat \<Rightarrow> string \<Rightarrow> throttle \<Rightarrow> int" where
  "retry_after now identity th =
     (case dict_get (th_entries th) (normalise identity) of
        None \<Rightarrow> 0
      | Some e \<Rightarrow> if te_locked_until e = 0 then 0 else max 0 (trunc (fsub (te_locked_until e) now)))"

definition throttle_failure :: "pyfloat \<Rightarrow> string \<Rightarrow> throttle \<Rightarrow> throttle" where
  "throttle_failure now identity th =
     (let key = normalise identity;
          e = (case dict_get (th_entries th) key of None \<Rightarrow> \<lparr>te_failures = 0, te_locked_until = 0\<rparr> | Some e \<Rightarrow> e);
          e1 = e\<lparr>te_failures := te_failures e + 1\<rparr>;
          e2 = (if th_max_attempts th \<le> te_failures e1
                then e1\<lparr>te_locked_until := fadd now (of_int (th_lockout_seconds th))\<rparr> else e1)
      in th\<lparr>th_entries := dict_set key e2 (th_entries th)\<rparr>)"

definition throttle_success :: "string \<Rightarrow> throttle \<Rightarrow> throttle" where
  "throttle_success identity th = th\<lparr>th_entries := dict_pop (normalise identity) (th_entries th)\<rparr>"

definition get_login_throttle :: "settings \<Rightarrow> throttle" where
  "get_login_throttle st = new_throttle (login_max_attempts st) (login_lockout_seconds st)"

section \<open>Token store\<close>

type_synonym jti_store = "(string, pyfloat) dict"

definition prune :: "pyfloat \<Rightarrow> jti_store \<Rightarrow> jti_store" where
  "prune now store = filter (\<lambda>(j, ex). \<not> ex \<le> now) store"

definition revoke :: "pyfloat \<Rightarrow> string \<Rightarrow> int \<Rightarrow> jti_store \<Rightarrow> jti_store" where
  "revoke now jti ttl store = dict_set jti (fadd now (of_int (max ttl 1))) (prune now store)"

definition is_revoked :: "pyfloat \<Rightarrow> string \<Rightarrow> jti_store \<Rightarrow> bool \<times> jti_store" where
  "is_revoked now jti store =
     (case dict_get store jti of
        None \<Rightarrow> (False, store)
      | Some ex \<Rightarrow> if ex \<le> now then (False, dict_pop jti store) else (True, store))"

section \<open>Interfaces\<close>

text \<open>
  A throttle counts the failures of an identity since its last success; an identity is locked from
  the failure that reaches the limit until the lockout of the last failure has passed.
\<close>

locale login_throttle =
  fixes locked :: "pyfloat \<Rightarrow> string \<Rightarrow> 's \<Rightarrow> bool"
    and fail :: "pyfloat \<Rightarrow> string \<Rightarrow> 's \<Rightarrow> 's"
    and clear :: "string \<Rightarrow> 's \<Rightarrow> 's"
    and fails :: "string \<Rightarrow> 's \<Rightarrow> int"
    and deadline :: "pyfloat \<Rightarrow> 's \<Rightarrow> pyfloat"
    and limit :: "'s \<Rightarrow> int"
    and inv :: "'s \<Rightarrow> bool"
  assumes fail_inv: "0 \<le> t \<Longrightarrow> inv s \<Longrightarrow> inv (fail t i s)"
    and fail_params: "limit (fail t i s) = limit s" "deadline u (fail t i s) = deadline u s"
    and fail_fails: "fails j (fail t i s) = (if normalise j = normalise i then fails j s + 1 else fails j s)"
    and clear_fails: "fails i (clear i s) = 0"
    and below_limit: "inv s \<Longrightarrow> fails i s < limit s \<Longrightarrow> \<not> locked u i s"
    and fail_locks: "inv s \<Longrightarrow> 0 \<le> t \<Longrightarrow> normalise j = normalise i \<Longrightarrow> limit s \<le> fails i s + 1 \<Longrightarrow>
      locked u i (fail t j s) \<longleftrightarrow> u < deadline t s"
    and fail_other: "normalise j \<noteq> normalise i \<Longrightarrow> locked u j (fail t i s) = locked u j s"
begin

primrec fail_seq :: "(pyfloat \<times> string) list \<Rightarrow> 's \<Rightarrow> 's" where
  "fail_seq [] s = s"
| "fail_seq (e # es) s = fail_seq es (fail (fst e) (snd e) s)"

lemma fail_seq_append: "fail_seq (es @ es') s = fail_seq es' (fail_seq es s)"
  by (induction es arbitrary: s) auto

lemma fail_seq_inv: "(\<forall>e \<in> set es. 0 \<le> fst e) \<Longrightarrow> inv s \<Longrightarrow> inv (fail_seq es s)"
  by (induction es arbitrary: s) (auto simp: fail_inv)

lemma fail_seq_params: "limit (fail_seq es s) = limit s" "deadline u (fail_seq es s) = deadline u s"
  by (induction es arbitrary: s) (auto simp: fail_params)

lemma fail_seq_fails:
  "fails i (fail_seq es s) = fails i s + int (length (filter (\<lambda>e. normalise i = normalise (snd e)) es))"
  by (induction es arbitrary: s) (auto simp: fail_fails)

lemma fail_seq_other:
  "(\<forall>e \<in> set es. normalise i \<noteq> normalise (snd e)) \<Longrightarrow> locked u i (fail_seq es s) = locked u i s"
  by (induction es arbitrary: s) (auto simp: fail_other)

text \<open>
  Failures of many identities, the last of identity \<open>i\<close> at time \<open>t\<close>: \<open>i\<close> is
  locked exactly if its failures reach the limit, until the deadline of that last failure.
\<close>

lemma locked_after_failures:
  assumes "inv s" and "\<forall>e \<in> set (es @ (t, j) # others). 0 \<le> fst e" and "normalise j = normalise i"
    and "\<forall>e \<in> set others. normalise i \<noteq> normalise (snd e)"
  shows "locked u i (fail_seq (es @ (t, j) # others) s) \<longleftrightarrow>
     limit s \<le> fails i s + int (length (filter (\<lambda>e. normalise i = normalise (snd e)) es)) + 1 \<and> u < deadline t s"
proof -
  let ?s = "fail_seq es s"
  have inv: "inv ?s" "inv (fail t j ?s)" using assms by (auto intro: fail_seq_inv fail_inv)
  have eq: "locked u i (fail_seq (es @ (t, j) # others) s) = locked u i (fail t j ?s)"
    using assms by (simp add: fail_seq_append fail_seq_other)
  show ?thesis
  proof (cases "limit s \<le> fails i ?s + 1")
    case True
    then have "locked u i (fail t j ?s) \<longleftrightarrow> u < deadline t s"
      using fail_locks [OF inv(1), of t j i u] assms by (simp add: fail_seq_params)
    then show ?thesis using True eq by (simp add: fail_seq_fails)
  next
    case False
    then have "fails i (fail t j ?s) < limit (fail t j ?s)"
      using assms by (simp add: fail_fails fail_params fail_seq_params)
    then show ?thesis using False eq below_limit [OF inv(2)] by (simp add: fail_seq_fails)
  qed
qed

end

text \<open>
  A revocation store remembers a revoked identifier until the time the revocation was given. Clocks
  only go forward: the answers are about times from the last operation on. A store whose answers
  depend on nothing but the revocations also answers for earlier times.
\<close>

locale revocation_store =
  fixes put :: "pyfloat \<Rightarrow> string \<Rightarrow> int \<Rightarrow> 's \<Rightarrow> 's"
    and revoked :: "pyfloat \<Rightarrow> string \<Rightarrow> 's \<Rightarrow> bool"
    and query :: "pyfloat \<Rightarrow> string \<Rightarrow> 's \<Rightarrow> 's"
    and until :: "pyfloat \<Rightarrow> int \<Rightarrow> pyfloat"
    and ok :: "'s \<Rightarrow> bool"
  assumes put_ok: "ok s \<Longrightarrow> ok (put t j ttl s)"
    and query_ok: "ok s \<Longrightarrow> ok (query t j s)"
    and put_revoked: "ok s \<Longrightarrow> t \<le> u \<Longrightarrow> revoked u j (put t j ttl s) \<longleftrightarrow> u < until t ttl"
    and put_other: "ok s \<Longrightarrow> i \<noteq> j \<Longrightarrow> t \<le> u \<Longrightarrow> revoked u j (put t i ttl s) = revoked u j s"
    and query_revoked: "ok s \<Longrightarrow> t \<le> u \<Longrightarrow> revoked u j (query t i s) = revoked u j s"
begin

primrec run :: "(pyfloat \<times> string \<times> int option) list \<Rightarrow> 's \<Rightarrow> 's" where
  "run [] s = s"
| "run (e # es) s = run es (case snd (snd e) of
     None \<Rightarrow> query (fst e) (fst (snd e)) s
   | Some ttl \<Rightarrow> put (fst e) (fst (snd e)) ttl s)"

lemma run_keeps:
  assumes "ok s" and "\<forall>e \<in> set es. fst e \<le> u \<and> (fst (snd e) \<noteq> j \<or> snd (snd e) = None)"
  shows "revoked u j (run es s) = revoked u j s"
  using assms
  by (induction es arbitrary: s) (auto simp: put_other query_revoked put_ok query_ok split: option.split)

lemma revoked_from:
  assumes "ok s" and "t \<le> u" and "\<forall>e \<in> set es. fst e \<le> u \<and> (fst (snd e) \<noteq> j \<or> snd (snd e) = None)"
  shows "revoked u j (run es (put t j ttl s)) \<longleftrightarrow> u < until t ttl"
  using run_keeps [OF put_ok [OF assms(1)] assms(3)] put_revoked [OF assms(1,2)] by simp

end

locale token_store = revocation_store +
  assumes put_revoked_any: "ok s \<Longrightarrow> revoked u j (put t j ttl s) \<longleftrightarrow> u < until t ttl"
begin

lemma revoked_until:
  assumes "ok s" and "\<forall>e \<in> set es. fst e \<le> u \<and> (fst (snd e) \<noteq> j \<or> snd (snd e) = None)"
  shows "revoked u j (run es (put t j ttl s)) \<longleftrightarrow> u < until t ttl"
  using run_keeps [OF put_ok [OF assms(1)] assms(2)] put_revoked_any [OF assms(1)] by simp

end

section \<open>The in-memory throttle implements the interface\<close>

definition throttle_fails :: "string \<Rightarrow> throttle \<Rightarrow> int" where
  "throttle_fails i th = (case dict_get (th_entries th) (normalise i) of None \<Rightarrow> 0 | Some e \<Rightarrow> te_failures e)"

definition entry_ok :: "throttle \<Rightarrow> throttle_entry \<Rightarrow> bool" where
  "entry_ok th e \<longleftrightarrow> (te_failures e < th_max_attempts th \<longrightarrow> te_locked_until e = 0)"

definition throttle_ok :: "throttle \<Rightarrow> bool" where
  "throttle_ok th \<longleftrightarrow> 0 < th_lockout_seconds th
     \<and> (\<forall>k e. dict_get (th_entries th) k = Some e \<longrightarrow> entry_ok th e)"

lemma throttle_ok_new [simp]: "0 < l \<Longrightarrow> throttle_ok (new_throttle m l)"
  by (simp add: throttle_ok_def new_throttle_def)

lemma throttle_failure_params [simp]:
  "th_max_attempts (throttle_failure t i th) = th_max_attempts th"
  "th_lockout_seconds (throttle_failure t i th) = th_lockout_seconds th"
  by (simp_all add: throttle_failure_def Let_def)

lemma throttle_failure_get:
  "dict_get (th_entries (throttle_failure t i th)) k =
     (if k = normalise i
      then Some \<lparr>te_failures = throttle_fails i th + 1,
        te_locked_until = (if th_max_attempts th \<le> throttle_fails i th + 1 then fadd t (of_int (th_lockout_seconds th))
          else case dict_get (th_entries th) k of None \<Rightarrow> 0 | Some e \<Rightarrow> te_locked_until e)\<rparr>
      else dict_get (th_entries th) k)"
  by (auto simp: throttle_failure_def throttle_fails_def Let_def dict_get_set split: option.splits)

lemma throttle_ok_failure: "throttle_ok th \<Longrightarrow> throttle_ok (throttle_failure t i th)"
  by (auto simp: throttle_ok_def entry_ok_def throttle_failure_get throttle_fails_def split: option.splits if_splits)

lemma throttle_deadline_pos: "0 \<le> t \<Longrightarrow> throttle_ok th \<Longrightarrow> fadd t (of_int (th_lockout_seconds th)) \<noteq> 0"
  using fl_pos [of "t + of_int (th_lockout_seconds th)"] by (simp add: throttle_ok_def fadd_def add_nonneg_pos)

interpretation mem: login_throttle
  "\<lambda>u i th. fst (is_locked u i th)" throttle_failure throttle_success throttle_fails
  "\<lambda>t th. fadd t (of_int (th_lockout_seconds th))" th_max_attempts throttle_ok
proof (unfold_locales, goal_cases)
  case (5 i s)
  then show ?case by (simp add: throttle_fails_def throttle_success_def dict_get_pop)
next
  case (7 s t j i u)
  then have "throttle_fails j s = throttle_fails i s" by (simp add: throttle_fails_def)
  then show ?case using 7 throttle_deadline_pos [of t s] by (simp add: is_locked_def throttle_failure_get Let_def)
qed (auto simp: throttle_ok_failure throttle_fails_def throttle_failure_get is_locked_def Let_def
    throttle_ok_def entry_ok_def split: option.splits)

section \<open>The in-memory token store implements the interface\<close>

lemma prune_get:
  "dict_wf s \<Longrightarrow> dict_get (prune t s) j =
     (case dict_get s j of Some ex \<Rightarrow> if ex \<le> t then None else Some ex | None \<Rightarrow> None)"
  by (induction s) (auto simp: prune_def dict_wf_def split: option.splits, (force dest: map_of_SomeD)+)

lemma prune_wf: "dict_wf s \<Longrightarrow> dict_wf (prune t s)"
  by (auto simp: prune_def dict_wf_def distinct_map_filter)

interpretation jti: token_store revoke "\<lambda>u j s. fst (is_revoked u j s)" "\<lambda>u j s. snd (is_revoked u j s)"
  "\<lambda>t ttl. fadd t (of_int (max ttl 1))" dict_wf
proof (unfold_locales, goal_cases)
  case (4 s i j t u ttl)
  then show ?case by (auto simp: revoke_def is_revoked_def dict_get_set prune_get split: option.splits)
qed (auto simp: revoke_def is_revoked_def dict_get_set dict_get_pop prune_wf split: option.splits)

section \<open>Properties\<close>

text \<open>The login throttle locks exactly the identity under attack: after any sequence of failed
  attempts on any identities, an identity is locked exactly if it had at least the configured number
  of failures, whatever its spelling (case, surrounding blanks), and until the lockout period counted
  from its last failure has passed; attempts on others neither lock nor unlock it.\<close>

theorem throttle_locks_at_limit:
  assumes "0 < lockout" and "\<forall>e \<in> set (es @ (t, j) # others). 0 \<le> fst e" and "normalise j = normalise i"
    and "\<forall>e \<in> set others. normalise i \<noteq> normalise (snd e)"
  shows "fst (is_locked now i (mem.fail_seq (es @ (t, j) # others) (new_throttle limit lockout))) \<longleftrightarrow>
     limit \<le> int (length (filter (\<lambda>e. normalise i = normalise (snd e)) es)) + 1 \<and> now < fadd t (of_int lockout)"
  using mem.locked_after_failures [OF throttle_ok_new [OF assms(1)] assms(2-4), of now limit]
  by (simp add: new_throttle_def throttle_fails_def)

theorem throttle_locks_at_limit_witness:
  "fst (is_locked 100 ''eve@x.io'' (mem.fail_seq [(10, ''eve@x.io''), (11, ''bob@x.io''), (12, '' EVE@x.io''), (13, ''bob@x.io'')]
     (new_throttle 2 300)))"
proof -
  have n: "normalise '' EVE@x.io'' = normalise ''eve@x.io''" "normalise ''bob@x.io'' \<noteq> normalise ''eve@x.io''"
    by code_simp+
  have d: "100 < fadd 12 300" by code_simp
  have "fst (is_locked 100 ''eve@x.io'' (mem.fail_seq ([(10, ''eve@x.io''), (11, ''bob@x.io'')] @ (12, '' EVE@x.io'') # [(13, ''bob@x.io'')])
     (new_throttle 2 300)))"
    by (subst throttle_locks_at_limit) (use n d in auto)
  then show ?thesis by simp
qed

text \<open>A revoked token identifier stays revoked for exactly its remaining lifetime, at least one
  second, whatever other identifiers are revoked or queried meanwhile.\<close>

theorem revocation_lasts:
  assumes "dict_wf store" and "\<forall>e \<in> set es. fst e \<le> now \<and> (fst (snd e) \<noteq> j \<or> snd (snd e) = None)"
  shows "fst (is_revoked now j (jti.run es (revoke t j ttl store))) \<longleftrightarrow> now < fadd t (of_int (max ttl 1))"
  by (rule jti.revoked_until [OF assms])

theorem revocation_lasts_witness:
  "fst (is_revoked 50 ''a'' (jti.run [(20, ''b'', Some 5), (30, ''a'', None)] (revoke 10 ''a'' 600 [])))"
proof -
  have "50 < fadd 10 (of_int (max 600 1))" by code_simp
  then show ?thesis using revocation_lasts [of "[]" "[(20, ''b'', Some 5), (30, ''a'', None)]" 50 "''a''" 10 600]
    by simp
qed

end
