(* ===== verification/Auth_Service.thy ===== *)
theory Auth_Service
  imports Auth_Stores Accounts
begin

text \<open>
  The authentication service (\<^verbatim>\<open>app/services/auth_service.py\<close>). It acts on the session of
  the request, the login throttle and the revocation store; the two stores are shared by all
  requests and no rollback touches them. The libraries and components the service is built from are
  the record \<open>auth\<close>, what one operation draws from clocks and randomness is the record
  \<open>auth_inputs\<close>: one operation sees one value of each clock.
\<close>

section \<open>State and helpers\<close>

record auth =
  at_argon :: argon_lib
  at_fernet :: fernet_lib
  at_cipher :: secret_cipher
  at_otp :: otp_lib
  at_totp :: totp_service
  at_jwt :: jwt_lib
  at_tokens :: token_service
  at_dbms :: dbms
  at_decoy :: string

record auth_inputs =
  ai_mono :: pyfloat
  ai_now :: rat
  ai_id :: string
  ai_salt :: string
  ai_nonce :: string
  ai_secret :: string
  ai_jtis :: "string \<times> string"

type_synonym stores = "throttle \<times> jti_store"
type_synonym auth_state = "session \<times> stores"

definition auth_error :: "string \<Rightarrow> exn" where
  "auth_error m = raise_app AuthenticationError m []"

definition with_throttle :: "(throttle \<Rightarrow> 'a \<times> throttle) \<Rightarrow> (auth_state, exn, 'a) action" where
  "with_throttle f = (\<lambda>(s, (th, js)). case f th of (a, th') \<Rightarrow> (Inr a, (s, (th', js))))"

definition with_jtis :: "(jti_store \<Rightarrow> 'a \<times> jti_store) \<Rightarrow> (auth_state, exn, 'a) action" where
  "with_jtis f = (\<lambda>(s, (th, js)). case f js of (a, js') \<Rightarrow> (Inr a, (s, (th, js'))))"

definition commit_security_event :: "auth \<Rightarrow> (session \<times> 's, exn, unit) action" where
  "commit_security_event ae = (\<lambda>(s, y). (Inr (), (session_commit (at_dbms ae) s, y)))"

definition remaining_ttl :: "rat \<Rightarrow> rat \<Rightarrow> int" where
  "remaining_ttl now expires_at = max 1 (trunc (expires_at - now))"

text \<open>Record the failure, write the audit entry, commit it, raise.\<close>

definition reject_login ::
    "auth \<Rightarrow> auth_inputs \<Rightarrow> string \<Rightarrow> string \<Rightarrow> string option \<Rightarrow> string option \<Rightarrow> exn \<Rightarrow> (auth_state, exn, 'a) action" where
  "reject_login ae inp email act user_id ip err =
     abind (with_throttle (\<lambda>th. ((), throttle_failure (ai_mono inp) email th))) (\<lambda>_.
     abind (change_work (audit_record act user_id ip [])) (\<lambda>_.
     abind (commit_security_event ae) (\<lambda>_. apure (Inl err))))"

section \<open>Registration\<close>

definition register :: "auth \<Rightarrow> auth_inputs \<Rightarrow> string \<Rightarrow> string \<Rightarrow> (auth_state, exn, user_row) action" where
  "register ae inp email password =
     (let email' = py_lower email;
          u = \<lparr>us_id = ai_id inp, us_email = email', us_password_hash = hasher_hash (at_argon ae) (ai_salt inp) password,
               us_role = role_value Trader, us_is_active = True, us_totp_enabled = False,
               us_totp_secret_enc = None, us_totp_last_counter = None, us_token_generation = 0\<rparr>
      in abind (read_work (\<lambda>d. if email_exists email' d
             then Inl (raise_app ConflictError ''A user with this email already exists.'' []) else Inr ())) (\<lambda>_.
         abind (on_work (user_add u)) (\<lambda>_.
         abind (change_work (audit_record ''user.register'' (Some (us_id u)) None [])) (\<lambda>_.
           apure (Inr u)))))"

section \<open>Login\<close>

definition consume_totp :: "auth \<Rightarrow> auth_inputs \<Rightarrow> user_row \<Rightarrow> string \<Rightarrow> (session \<times> 's, exn, unit) action" where
  "consume_totp ae inp u code =
     abind (apure (cipher_decrypt (at_fernet ae) (at_cipher ae) (case us_totp_secret_enc u of None \<Rightarrow> [] | Some t \<Rightarrow> t))) (\<lambda>secret.
       case verify_counter (at_otp ae) (at_totp ae) secret code (ai_now inp) of
         None \<Rightarrow> apure (Inl (auth_error ''Invalid two-factor code.''))
       | Some counter \<Rightarrow>
           if (case us_totp_last_counter u of None \<Rightarrow> False | Some c \<Rightarrow> counter \<le> c)
           then apure (Inl (auth_error ''Invalid two-factor code.''))
           else change_work (user_update (us_id u) (\<lambda>v. v\<lparr>us_totp_last_counter := Some counter\<rparr>)))"

definition login_success ::
    "auth \<Rightarrow> auth_inputs \<Rightarrow> string \<Rightarrow> string \<Rightarrow> string option \<Rightarrow> user_row \<Rightarrow> (auth_state, exn, token_pair) action" where
  "login_success ae inp email password ip u =
     abind (with_throttle (\<lambda>th. ((), throttle_success email th))) (\<lambda>_.
     abind (if hasher_needs_rehash (at_argon ae) (us_password_hash u)
            then change_work (user_update (us_id u)
                   (\<lambda>v. v\<lparr>us_password_hash := hasher_hash (at_argon ae) (ai_salt inp) password\<rparr>))
            else apure (Inr ())) (\<lambda>_.
     abind (change_work (audit_record ''auth.login'' (Some (us_id u)) ip [])) (\<lambda>_.
       apure (Inr (issue_pair (at_jwt ae) (at_tokens ae) (ai_now inp) (ai_jtis inp)
         (us_id u) (us_role u) (us_token_generation u))))))"

definition second_factor ::
    "auth \<Rightarrow> auth_inputs \<Rightarrow> string \<Rightarrow> string option \<Rightarrow> string option \<Rightarrow> user_row \<Rightarrow> (auth_state, exn, unit) action" where
  "second_factor ae inp email totp_code ip u =
     (if \<not> us_totp_enabled u then apure (Inr ())
      else if totp_code \<in> {None, Some []} then apure (Inl (AppExn (mk_error TwoFactorRequiredError None [])))
      else (\<lambda>st. case consume_totp ae inp u (the totp_code) st of
          (Inl e, st') \<Rightarrow>
            if is_app AuthenticationError e then reject_login ae inp email ''auth.2fa_failed'' (Some (us_id u)) ip e st'
            else (Inl e, st')
        | (Inr _, st') \<Rightarrow> (Inr (), st')))"

definition authenticate_user ::
    "auth \<Rightarrow> auth_inputs \<Rightarrow> string \<Rightarrow> string \<Rightarrow> string option \<Rightarrow> string option \<Rightarrow> user_row \<Rightarrow> (auth_state, exn, token_pair) action" where
  "authenticate_user ae inp email password totp_code ip u =
     abind (apure (hasher_verify (at_argon ae) (us_password_hash u) password)) (\<lambda>ok.
       if \<not> ok then reject_login ae inp email ''auth.login_failed'' (Some (us_id u)) ip (auth_error ''Invalid email or password.'')
       else if \<not> us_is_active u
       then reject_login ae inp email ''auth.login_disabled'' (Some (us_id u)) ip (auth_error ''This account is disabled.'')
       else abind (second_factor ae inp email totp_code ip u) (\<lambda>_. login_success ae inp email password ip u))"

definition authenticate ::
    "auth \<Rightarrow> auth_inputs \<Rightarrow> string \<Rightarrow> string \<Rightarrow> string option \<Rightarrow> string option \<Rightarrow> (auth_state, exn, token_pair) action" where
  "authenticate ae inp email0 password totp_code ip =
     (let email = py_lower email0
      in abind (with_throttle (is_locked (ai_mono inp) email)) (\<lambda>locked.
         if locked then
           abind (change_work (audit_record ''auth.locked_out'' None ip [])) (\<lambda>_.
           abind (commit_security_event ae) (\<lambda>_.
           abind (with_throttle (\<lambda>th. (retry_after (ai_mono inp) email th, th))) (\<lambda>ra.
             apure (Inl (AppExn (mk_error AccountLockedError None [(''retry_after'', VInt ra)]))))))
         else abind (read_work (\<lambda>d. Inr (user_get_by_email email d))) (\<lambda>found.
           case found of
             None \<Rightarrow>
               abind (apure (hasher_verify (at_argon ae) (at_decoy ae) password)) (\<lambda>_.
                 reject_login ae inp email ''auth.login_failed'' None ip (auth_error ''Invalid email or password.''))
           | Some u \<Rightarrow> authenticate_user ae inp email password totp_code ip u)))"

section \<open>Sessions\<close>

definition invalidate_sessions :: "user_row \<Rightarrow> string \<Rightarrow> (session \<times> 's, exn, unit) action" where
  "invalidate_sessions u reason =
     abind (change_work (user_update (us_id u) (\<lambda>v. v\<lparr>us_token_generation := us_token_generation v + 1\<rparr>))) (\<lambda>_.
       change_work (audit_record ''auth.sessions_invalidated'' (Some (us_id u)) None [(''reason'', VStr reason)]))"

definition refresh :: "auth \<Rightarrow> auth_inputs \<Rightarrow> string \<Rightarrow> (auth_state, exn, token_pair) action" where
  "refresh ae inp token =
     abind (apure (decode_token (at_jwt ae) (at_tokens ae) (ai_now inp) token (Some Refresh))) (\<lambda>claims.
     abind (read_work (\<lambda>d. case user_get (tc_subject claims) d of
              Some u \<Rightarrow> if us_is_active u then Inr u else Inl (auth_error ''User no longer active.'')
            | None \<Rightarrow> Inl (auth_error ''User no longer active.''))) (\<lambda>u.
     abind (with_jtis (is_revoked (ai_mono inp) (tc_jti claims))) (\<lambda>revoked.
       if revoked then
         abind (invalidate_sessions u ''refresh_token_reuse'') (\<lambda>_.
         abind (commit_security_event ae) (\<lambda>_.
           apure (Inl (auth_error ''This refresh token has been revoked.''))))
       else if tc_generation claims < us_token_generation u
       then apure (Inl (auth_error ''This session has been invalidated.''))
       else
         abind (with_jtis (\<lambda>js. ((), revoke (ai_mono inp) (tc_jti claims) (remaining_ttl (ai_now inp) (tc_expires_at claims)) js))) (\<lambda>_.
           apure (Inr (issue_pair (at_jwt ae) (at_tokens ae) (ai_now inp) (ai_jtis inp)
             (us_id u) (us_role u) (us_token_generation u)))))))"

definition logout :: "auth \<Rightarrow> auth_inputs \<Rightarrow> string \<Rightarrow> (auth_state, exn, unit) action" where
  "logout ae inp token =
     (case decode_token (at_jwt ae) (at_tokens ae) (ai_now inp) token (Some Refresh) of
        Inl _ \<Rightarrow> apure (Inr ())
      | Inr claims \<Rightarrow>
          abind (with_jtis (\<lambda>js. ((), revoke (ai_mono inp) (tc_jti claims) (remaining_ttl (ai_now inp) (tc_expires_at claims)) js))) (\<lambda>_.
            change_work (audit_record ''auth.logout'' (Some (tc_subject claims)) None [])))"

section \<open>Two-factor enrolment\<close>

definition user_or :: "string \<Rightarrow> string \<Rightarrow> (auth_state, exn, user_row) action" where
  "user_or user_id msg = read_work (\<lambda>d. case user_get user_id d of
       None \<Rightarrow> Inl (raise_app NotFoundError msg []) | Some u \<Rightarrow> Inr u)"

definition get_user :: "string \<Rightarrow> (auth_state, exn, user_row) action" where
  "get_user user_id = user_or user_id ''User not found.''"

definition begin_totp_enrollment :: "auth \<Rightarrow> auth_inputs \<Rightarrow> string \<Rightarrow> (auth_state, exn, string \<times> string) action" where
  "begin_totp_enrollment ae inp user_id =
     abind (user_or user_id ''User not found.'') (\<lambda>u.
       if us_totp_enabled u
       then apure (Inl (raise_app ConflictError ''Two-factor authentication is already enabled; disable it first to re-enrol.'' []))
       else abind (apure (cipher_encrypt (at_fernet ae) (at_cipher ae) (ai_nonce inp) (Some (ai_secret inp)))) (\<lambda>enc.
            abind (change_work (user_update user_id (\<lambda>v. v\<lparr>us_totp_secret_enc := Some enc\<rparr>))) (\<lambda>_.
              apure (Inr (ai_secret inp, provisioning_uri (at_otp ae) (at_totp ae) (ai_secret inp) (us_email u))))))"

definition confirm_totp :: "auth \<Rightarrow> auth_inputs \<Rightarrow> string \<Rightarrow> string \<Rightarrow> (auth_state, exn, unit) action" where
  "confirm_totp ae inp user_id code =
     abind (read_work (\<lambda>d. case user_get user_id d of
              Some u \<Rightarrow> if us_totp_secret_enc u \<in> {None, Some []} then Inl (raise_app NotFoundError ''No pending TOTP enrolment.'' []) else Inr u
            | None \<Rightarrow> Inl (raise_app NotFoundError ''No pending TOTP enrolment.'' []))) (\<lambda>u.
     abind (consume_totp ae inp u code) (\<lambda>_.
     abind (change_work (user_update user_id (\<lambda>v. v\<lparr>us_totp_enabled := True\<rparr>))) (\<lambda>_.
       change_work (audit_record ''auth.2fa_enabled'' (Some (us_id u)) None []))))"

definition disable_totp :: "auth \<Rightarrow> auth_inputs \<Rightarrow> string \<Rightarrow> string \<Rightarrow> (auth_state, exn, unit) action" where
  "disable_totp ae inp user_id code =
     abind (user_or user_id ''User not found.'') (\<lambda>u.
       if \<not> us_totp_enabled u \<or> us_totp_secret_enc u \<in> {None, Some []}
       then apure (Inl (raise_app ConflictError ''Two-factor authentication is not enabled.'' []))
       else abind (consume_totp ae inp u code) (\<lambda>_.
            abind (change_work (user_update user_id (\<lambda>v. v\<lparr>us_totp_enabled := False, us_totp_secret_enc := None, us_totp_last_counter := None\<rparr>))) (\<lambda>_.
              change_work (audit_record ''auth.2fa_disabled'' (Some (us_id u)) None []))))"

end
