(* ===== verification/Indicators.thy ===== *)
theory Indicators
  imports Models
begin

text \<open>
  The technical indicators (\<^verbatim>\<open>app/analytics/indicators.py\<close>). Every operation on floats rounds
  (\<open>fadd\<close>, \<open>fsub\<close>, \<open>fmul\<close>, \<open>fdiv\<close>); the built-in
  \<^verbatim>\<open>sum\<close> is the compensated summation of the Python version the image ships (3.12); the power
  function of the C library is the parameter \<open>cpow\<close>. The code fills arrays by index; here an
  output is the undefined prefix followed by what the loop computes. Series are short against
  $2^{53}$, so that a period converted to a float is exact.
\<close>

type_synonym opt_series = "pyfloat option list"

definition value_error :: "string \<Rightarrow> exn" where
  "value_error msg = PyExn ''ValueError'' msg"

definition require_positive :: "int \<Rightarrow> exn + 'a \<Rightarrow> exn + 'a" where
  "require_positive period r = (if 0 < period then r else Inl (value_error ''period must be positive''))"

section \<open>Summation\<close>

text \<open>
  One step of \<^verbatim>\<open>sum\<close> on floats: the running sum and the running compensation. The first
  addition starts from the integer 0 and is exact; the compensation is added at the end unless it is
  zero.
\<close>

definition sum_step :: "pyfloat \<times> pyfloat \<Rightarrow> pyfloat \<Rightarrow> pyfloat \<times> pyfloat" where
  "sum_step fc x = (let (f, c) = fc; t = fadd f x
     in (t, fadd c (if \<bar>x\<bar> \<le> \<bar>f\<bar> then fadd (fsub f t) x else fadd (fsub x t) f)))"

definition py_sum :: "pyfloat list \<Rightarrow> pyfloat" where
  "py_sum xs = (case xs of [] \<Rightarrow> 0 | x # ys \<Rightarrow>
     (let (f, c) = foldl sum_step (x, 0) ys in if c = 0 then f else fadd f c))"

section \<open>Moving averages\<close>

primrec sma_loop :: "pyfloat \<Rightarrow> pyfloat \<Rightarrow> (pyfloat \<times> pyfloat) list \<Rightarrow> pyfloat list" where
  "sma_loop p window_sum [] = []"
| "sma_loop p window_sum (e # es) =
     (let w = fadd window_sum (fsub (fst e) (snd e)) in fdiv w p # sma_loop p w es)"

definition sma :: "pyfloat list \<Rightarrow> int \<Rightarrow> exn + opt_series" where
  "sma values period = require_positive period
     (let n = nat period; p = of_int period :: pyfloat
      in if length values < n then Inr (replicate (length values) None)
         else let window_sum = py_sum (take n values)
              in Inr (replicate (n - 1) None @ map Some (fdiv window_sum p # sma_loop p window_sum (zip (drop n values) values))))"

primrec ema_loop :: "pyfloat \<Rightarrow> pyfloat \<Rightarrow> pyfloat list \<Rightarrow> pyfloat list" where
  "ema_loop multiplier prev [] = []"
| "ema_loop multiplier prev (v # vs) =
     (let q = fadd (fmul (fsub v prev) multiplier) prev in q # ema_loop multiplier q vs)"

definition ema :: "pyfloat list \<Rightarrow> int \<Rightarrow> exn + opt_series" where
  "ema values period = require_positive period
     (let n = nat period
      in if length values < n then Inr (replicate (length values) None)
         else let multiplier = fdiv 2 (of_int (period + 1)); prev = fdiv (py_sum (take n values)) (of_int period)
              in Inr (replicate (n - 1) None @ map Some (prev # ema_loop multiplier prev (drop n values))))"

primrec wilder_loop :: "int \<Rightarrow> pyfloat \<Rightarrow> pyfloat list \<Rightarrow> pyfloat list" where
  "wilder_loop period prev [] = []"
| "wilder_loop period prev (v # vs) =
     (let q = fdiv (fadd (fmul prev (of_int (period - 1))) v) (of_int period) in q # wilder_loop period q vs)"

definition wilder_smoothing :: "pyfloat list \<Rightarrow> int \<Rightarrow> exn + opt_series" where
  "wilder_smoothing values period = require_positive period
     (let n = nat period
      in if length values < n then Inr (replicate (length values) None)
         else let prev = fdiv (py_sum (take n values)) (of_int period)
              in Inr (replicate (n - 1) None @ map Some (prev # wilder_loop period prev (drop n values))))"

section \<open>Relative strength index\<close>

definition rsi_from :: "pyfloat \<Rightarrow> pyfloat \<Rightarrow> pyfloat" where
  "rsi_from avg_gain avg_loss =
     (if avg_loss = 0 then 100 else fsub 100 (fdiv 100 (fadd 1 (fdiv avg_gain avg_loss))))"

definition changes :: "pyfloat list \<Rightarrow> pyfloat list" where
  "changes closes = map (\<lambda>(a, b). fsub b a) (zip closes (tl closes))"

definition gains :: "pyfloat list \<Rightarrow> pyfloat list" where
  "gains closes = map (\<lambda>c. max c 0) (changes closes)"

definition losses :: "pyfloat list \<Rightarrow> pyfloat list" where
  "losses closes = map (\<lambda>c. max (- c) 0) (changes closes)"

definition rsi :: "pyfloat list \<Rightarrow> int \<Rightarrow> exn + opt_series" where
  "rsi closes period = require_positive period
     (let n = nat period; g = gains closes; l = losses closes;
          avg_gain = fdiv (py_sum (take n g)) (of_int period);
          avg_loss = fdiv (py_sum (take n l)) (of_int period)
      in if length closes \<le> n then Inr (replicate (length closes) None)
         else Inr (replicate n None @ map Some (map2 rsi_from
                (avg_gain # wilder_loop period avg_gain (drop n g))
                (avg_loss # wilder_loop period avg_loss (drop n l)))))"

section \<open>Combined indicators\<close>

definition defined_values :: "opt_series \<Rightarrow> pyfloat list" where
  "defined_values xs = List.map_filter (\<lambda>v. v) xs"

text \<open>Put a shorter series at the end of \<open>n\<close> positions.\<close>

definition right_align :: "nat \<Rightarrow> opt_series \<Rightarrow> opt_series" where
  "right_align n xs = replicate (n - length xs) None @ xs"

definition opt_sub :: "pyfloat option \<Rightarrow> pyfloat option \<Rightarrow> pyfloat option" where
  "opt_sub a b = (case (a, b) of (Some x, Some y) \<Rightarrow> Some (fsub x y) | _ \<Rightarrow> None)"

definition macd :: "pyfloat list \<Rightarrow> int \<Rightarrow> int \<Rightarrow> int \<Rightarrow> exn + opt_series \<times> opt_series \<times> opt_series" where
  "macd closes fast slow signal =
     (if \<not> (fast < slow \<and> 0 < fast \<and> 0 < signal) then Inl (value_error ''require slow > fast > 0 and signal > 0'')
      else
        rbind (ema closes fast) (\<lambda>fast_ema.
        rbind (ema closes slow) (\<lambda>slow_ema.
          let macd_line = map2 opt_sub fast_ema slow_ema
          in rbind (ema (defined_values macd_line) signal) (\<lambda>signal_defined.
             let signal_line = right_align (length macd_line) signal_defined
             in Inr (macd_line, signal_line, map2 opt_sub macd_line signal_line)))))"

definition windows :: "nat \<Rightarrow> 'a list \<Rightarrow> 'a list list" where
  "windows n xs = map (\<lambda>i. take n (drop i xs)) [0 ..< Suc (length xs) - n]"

definition std_dev :: "(pyfloat \<Rightarrow> pyfloat \<Rightarrow> pyfloat) \<Rightarrow> int \<Rightarrow> pyfloat \<Rightarrow> pyfloat list \<Rightarrow> pyfloat" where
  "std_dev cpow period mean window =
     cpow (fdiv (py_sum (map (\<lambda>x. cpow (fsub x mean) 2) window)) (of_int period)) (1/2)"

definition band :: "(pyfloat \<Rightarrow> pyfloat \<Rightarrow> pyfloat) \<Rightarrow> (pyfloat \<Rightarrow> pyfloat \<Rightarrow> pyfloat) \<Rightarrow> int \<Rightarrow> pyfloat
     \<Rightarrow> pyfloat list \<Rightarrow> opt_series \<Rightarrow> opt_series" where
  "band side cpow period num_std closes middle =
     right_align (length closes) (map2 (\<lambda>w m. Some (side m (fmul num_std (std_dev cpow period m w))))
       (windows (nat period) closes) (defined_values middle))"

definition bollinger_bands ::
    "(pyfloat \<Rightarrow> pyfloat \<Rightarrow> pyfloat) \<Rightarrow> pyfloat list \<Rightarrow> int \<Rightarrow> pyfloat \<Rightarrow> exn + opt_series \<times> opt_series \<times> opt_series" where
  "bollinger_bands cpow closes period num_std =
     rbind (sma closes period) (\<lambda>middle.
       Inr (band fadd cpow period num_std closes middle, middle, band fsub cpow period num_std closes middle))"

definition true_range :: "candle list \<Rightarrow> pyfloat list" where
  "true_range candles =
     (case candles of
        [] \<Rightarrow> []
      | c0 # rest \<Rightarrow> fsub (cd_high c0) (cd_low c0) #
          map (\<lambda>(p, c). max (max (fsub (cd_high c) (cd_low c)) \<bar>fsub (cd_high c) (cd_close p)\<bar>) \<bar>fsub (cd_low c) (cd_close p)\<bar>)
            (zip candles rest))"

definition atr :: "candle list \<Rightarrow> int \<Rightarrow> exn + opt_series" where
  "atr candles period = wilder_smoothing (true_range candles) period"

primrec vwap_loop :: "pyfloat \<Rightarrow> pyfloat \<Rightarrow> candle list \<Rightarrow> opt_series" where
  "vwap_loop cum_pv cum_vol [] = []"
| "vwap_loop cum_pv cum_vol (c # cs) =
     (let typical = fdiv (fadd (fadd (cd_high c) (cd_low c)) (cd_close c)) 3;
          pv = fadd cum_pv (fmul typical (cd_volume c));
          vol = fadd cum_vol (cd_volume c)
      in (if 0 < vol then Some (fdiv pv vol) else None) # vwap_loop pv vol cs)"

definition vwap :: "candle list \<Rightarrow> opt_series" where
  "vwap candles = vwap_loop 0 0 candles"

text \<open>
  With a non-positive \<open>k_period\<close> the loop reaches an empty window (at the latest for index -1),
  whose maximum raises.
\<close>

definition stochastic_k :: "candle list \<Rightarrow> pyfloat" where
  "stochastic_k window =
     (let highest = fold max (map cd_high (tl window)) (cd_high (hd window));
          lowest = fold min (map cd_low (tl window)) (cd_low (hd window));
          rng = fsub highest lowest
      in if 0 < rng then fdiv (fmul 100 (fsub (cd_close (last window)) lowest)) rng else 0)"

definition stochastic :: "candle list \<Rightarrow> int \<Rightarrow> int \<Rightarrow> exn + opt_series \<times> opt_series" where
  "stochastic candles k_period d_period =
     (if k_period \<le> 0 then Inl (value_error ''max() iterable argument is empty'')
      else let k_defined = map stochastic_k (windows (nat k_period) candles)
           in rbind (sma k_defined d_period) (\<lambda>d_defined.
                Inr (right_align (length candles) (map Some k_defined), right_align (length candles) d_defined)))"

definition plus_dm :: "candle list \<Rightarrow> pyfloat list" where
  "plus_dm candles = 0 # map (\<lambda>(p, c).
     let up_move = fsub (cd_high c) (cd_high p); down_move = fsub (cd_low p) (cd_low c)
     in if down_move < up_move \<and> 0 < up_move then up_move else 0) (zip candles (tl candles))"

definition minus_dm :: "candle list \<Rightarrow> pyfloat list" where
  "minus_dm candles = 0 # map (\<lambda>(p, c).
     let up_move = fsub (cd_high c) (cd_high p); down_move = fsub (cd_low p) (cd_low c)
     in if up_move < down_move \<and> 0 < down_move then down_move else 0) (zip candles (tl candles))"

definition dx_of :: "pyfloat option \<Rightarrow> pyfloat option \<Rightarrow> pyfloat option \<Rightarrow> pyfloat option" where
  "dx_of a p m =
     (case (a, p, m) of
        (Some a', Some p', Some m') \<Rightarrow>
          if a' = 0 then None
          else let plus_di = fdiv (fmul 100 p') a'; minus_di = fdiv (fmul 100 m') a'; denom = fadd plus_di minus_di
               in Some (if 0 < denom then fdiv (fmul 100 \<bar>fsub plus_di minus_di\<bar>) denom else 0)
      | _ \<Rightarrow> None)"

text \<open>The directional movements have one entry per candle; without candles the code returns before using them.\<close>

definition adx :: "candle list \<Rightarrow> int \<Rightarrow> exn + opt_series" where
  "adx candles period =
     (let n = length candles
      in if int n < 2 * period - 1 then Inr (replicate n None)
         else
           rbind (wilder_smoothing (true_range candles) period) (\<lambda>atr_s.
           rbind (wilder_smoothing (take n (plus_dm candles)) period) (\<lambda>plus_s.
           rbind (wilder_smoothing (take n (minus_dm candles)) period) (\<lambda>minus_s.
             let dx = map (\<lambda>(a, p, m). dx_of a p m) (zip atr_s (zip plus_s minus_s))
             in rbind (wilder_smoothing (defined_values dx) period) (\<lambda>adx_defined.
                  Inr (right_align n adx_defined))))))"

record supertrend_state =
  sp_line :: "pyfloat option"
  sp_dir :: int

definition supertrend_step :: "pyfloat \<Rightarrow> candle \<Rightarrow> pyfloat \<Rightarrow> supertrend_state \<Rightarrow> supertrend_state" where
  "supertrend_step multiplier c a s =
     (let hl2 = fdiv (fadd (cd_high c) (cd_low c)) 2;
          upper = fadd hl2 (fmul multiplier a);
          lower = fsub hl2 (fmul multiplier a)
      in case sp_line s of
           None \<Rightarrow> \<lparr>sp_line = Some lower, sp_dir = 1\<rparr>
         | Some prev \<Rightarrow>
             if sp_dir s = 1 then
               (let lower' = max lower prev
                in if cd_close c < lower' then \<lparr>sp_line = Some upper, sp_dir = -1\<rparr>
                   else \<lparr>sp_line = Some lower', sp_dir = 1\<rparr>)
             else
               (let upper' = min upper prev
                in if upper' < cd_close c then \<lparr>sp_line = Some lower, sp_dir = 1\<rparr>
                   else \<lparr>sp_line = Some upper', sp_dir = sp_dir s\<rparr>))"

fun supertrend_loop :: "pyfloat \<Rightarrow> (candle \<times> pyfloat option) list \<Rightarrow> supertrend_state \<Rightarrow> (pyfloat option \<times> int option) list" where
  "supertrend_loop multiplier [] s = []"
| "supertrend_loop multiplier ((c, None) # es) s = (None, None) # supertrend_loop multiplier es s"
| "supertrend_loop multiplier ((c, Some a) # es) s =
     (let s' = supertrend_step multiplier c a s in (sp_line s', Some (sp_dir s')) # supertrend_loop multiplier es s')"

definition supertrend :: "candle list \<Rightarrow> int \<Rightarrow> pyfloat \<Rightarrow> exn + opt_series \<times> int option list" where
  "supertrend candles period multiplier =
     rbind (atr candles period) (\<lambda>atr_s.
       let out = supertrend_loop multiplier (zip candles atr_s) \<lparr>sp_line = None, sp_dir = 1\<rparr>
       in Inr (map fst out, map snd out))"

definition pivot_points :: "pyfloat \<Rightarrow> pyfloat \<Rightarrow> pyfloat \<Rightarrow> (string \<times> pyfloat) list" where
  "pivot_points prev_high prev_low prev_close =
     (let pivot = fdiv (fadd (fadd prev_high prev_low) prev_close) 3
      in [(''pivot'', pivot),
          (''r1'', fsub (fmul 2 pivot) prev_low),
          (''s1'', fsub (fmul 2 pivot) prev_high),
          (''r2'', fadd pivot (fsub prev_high prev_low)),
          (''s2'', fsub pivot (fsub prev_high prev_low)),
          (''r3'', fadd prev_high (fmul 2 (fsub pivot prev_low))),
          (''s3'', fsub prev_low (fmul 2 (fsub prev_high pivot)))])"

text \<open>\<^verbatim>\<open>xs[-1]\<close>\<close>

definition last_item :: "'a list \<Rightarrow> exn + 'a" where
  "last_item xs = (if xs = [] then Inl (PyExn ''IndexError'' ''list index out of range'') else Inr (last xs))"

definition detect_trend :: "pyfloat list \<Rightarrow> int \<Rightarrow> int \<Rightarrow> exn + string" where
  "detect_trend closes sh lg =
     (if int (length closes) < lg then Inr ''unknown''
      else
        rbind (rbind (sma closes sh) last_item) (\<lambda>s.
        rbind (rbind (sma closes lg) last_item) (\<lambda>l.
          Inr (case (s, l) of
                 (Some s', Some l') \<Rightarrow>
                   (let spread = (if l' \<noteq> 0 then fdiv (fsub s' l') l' else 0)
                    in if fl (1/1000) < spread then ''up'' else if spread < - fl (1/1000) then ''down'' else ''sideways'')
               | _ \<Rightarrow> ''unknown''))))"

end
