(* ===== verification/Market_Service.thy ===== *)
theory Market_Service
  imports Factory Indicators
begin

text \<open>
  The public market-data service (\<^verbatim>\<open>app/services/market_service.py\<close>): every operation builds a
  credential-free adapter and makes one guarded call through it; closing it is modelled in \<open>Client_Lifecycle\<close>.
\<close>

definition supported_indicators :: "string list" where
  "supported_indicators = [''rsi'', ''sma'', ''ema'', ''atr'', ''vwap'', ''adx'', ''macd'', ''bollinger'', ''stochastic'', ''supertrend'']"

definition supported_timeframes :: "string list" where
  "supported_timeframes = [''1m'', ''3m'', ''5m'', ''15m'', ''30m'', ''1h'', ''2h'', ''4h'', ''6h'', ''12h'', ''1d'', ''1w'', ''1M'']"

definition validate_timeframe :: "string \<Rightarrow> exn + string" where
  "validate_timeframe timeframe =
     (if timeframe \<in> set supported_timeframes then Inr timeframe
      else Inl (raise_app ValidationError ''Unsupported timeframe: {}'' [VStr timeframe]))"

text \<open>Build the public adapter, then use it.\<close>

definition with_public_adapter ::
    "string \<Rightarrow> (ccxt_adapter \<Rightarrow> ('x net, exn, 'a) action) \<Rightarrow> ('x net, exn, 'a) action" where
  "with_public_adapter exchange_id body = (\<lambda>(bs, x).
     case public_market_adapter exchange_id bs of
       (Inl e, bs') \<Rightarrow> (Inl e, (bs', x))
     | (Inr ad, bs') \<Rightarrow> body ad (bs', x))"

definition market_ticker ::
    "'x ccxt_env \<Rightarrow> pyfloat \<times> pyfloat \<Rightarrow> string \<Rightarrow> string \<Rightarrow> ('x net, exn, ticker) action" where
  "market_ticker env clk exchange_id symbol =
     with_public_adapter exchange_id (\<lambda>ad. ccxt_fetch_ticker env clk ad symbol)"

definition market_order_book ::
    "'x ccxt_env \<Rightarrow> pyfloat \<times> pyfloat \<Rightarrow> string \<Rightarrow> string \<Rightarrow> int \<Rightarrow> ('x net, exn, order_book) action" where
  "market_order_book env clk exchange_id symbol limit =
     with_public_adapter exchange_id (\<lambda>ad. ccxt_fetch_order_book env clk ad symbol limit)"

definition market_candles ::
    "'x ccxt_env \<Rightarrow> pyfloat \<times> pyfloat \<Rightarrow> string \<Rightarrow> string \<Rightarrow> string \<Rightarrow> int \<Rightarrow> ('x net, exn, candle list) action" where
  "market_candles env clk exchange_id symbol timeframe limit =
     abind (apure (validate_timeframe timeframe)) (\<lambda>_.
       with_public_adapter exchange_id (\<lambda>ad. ccxt_fetch_ohlcv env clk ad symbol timeframe limit))"

definition unknown_indicator :: "string \<Rightarrow> exn" where
  "unknown_indicator name = raise_app ValidationError ''Unknown indicator: {}'' [VStr name]"

definition compute_indicator ::
    "(pyfloat \<Rightarrow> pyfloat \<Rightarrow> pyfloat) \<Rightarrow> string \<Rightarrow> candle list \<Rightarrow> int \<Rightarrow> exn + opt_series" where
  "compute_indicator cpow name0 candles period =
     (let name = py_lower name0; closes = map cd_close candles
      in if name = ''rsi'' then rsi closes period
         else if name = ''sma'' then sma closes period
         else if name = ''ema'' then ema closes period
         else if name = ''atr'' then atr candles period
         else if name = ''vwap'' then Inr (vwap candles)
         else if name = ''adx'' then adx candles period
         else if name = ''macd'' then rbind (macd closes 12 26 9) (\<lambda>r. Inr (fst r))
         else if name = ''bollinger'' then rbind (bollinger_bands cpow closes period 2) (\<lambda>r. Inr (fst (snd r)))
         else if name = ''stochastic'' then rbind (stochastic candles period 3) (\<lambda>r. Inr (fst r))
         else if name = ''supertrend'' then rbind (supertrend candles period 3) (\<lambda>r. Inr (fst r))
         else Inl (unknown_indicator name))"

definition market_indicator ::
    "(pyfloat \<Rightarrow> pyfloat \<Rightarrow> pyfloat) \<Rightarrow> 'x ccxt_env \<Rightarrow> pyfloat \<times> pyfloat \<Rightarrow> string \<Rightarrow> string \<Rightarrow> string
       \<Rightarrow> string \<Rightarrow> int \<Rightarrow> int \<Rightarrow> ('x net, exn, opt_series) action" where
  "market_indicator cpow env clk exchange_id symbol name0 timeframe period limit =
     (let name = py_lower name0
      in if name \<notin> set supported_indicators then apure (Inl (unknown_indicator name))
         else abind (market_candles env clk exchange_id symbol timeframe limit) (\<lambda>cs.
                apure (compute_indicator cpow name cs period)))"

end
