(* ===== verification/Client_Address.thy ===== *)
theory Client_Address
  imports Settings
begin

text \<open>
  The address a request came from (\<^verbatim>\<open>app/api/client_address.py\<close>), with the part of
  Python's \<^verbatim>\<open>ipaddress\<close> module it uses: parsing of addresses and networks of both
  versions and membership. An address is its version and its number; a network has its
  network address already masked and its prefix length. A request carries the peer that opened the
  connection, its method, path and headers; header names are lower case, as the server delivers them,
  and a look-up takes the first match.
\<close>

section \<open>Addresses and networks\<close>

datatype ip_version = V4 | V6

fun max_prefixlen :: "ip_version \<Rightarrow> nat" where
  "max_prefixlen V4 = 32"
| "max_prefixlen V6 = 128"

record ip_address =
  ip_version :: ip_version
  ip_number :: int

record ip_network =
  net_version :: ip_version
  net_address :: int
  net_prefixlen :: nat

definition digit_value :: "char \<Rightarrow> nat option" where
  "digit_value c = (let n = of_char c :: nat in
     if 48 \<le> n \<and> n \<le> 57 then Some (n - 48)
     else if 97 \<le> n \<and> n \<le> 102 then Some (n - 87)
     else if 65 \<le> n \<and> n \<le> 70 then Some (n - 55)
     else None)"

text \<open>\<^verbatim>\<open>int(s, base)\<close> on a string of digits.\<close>

definition int_of_digits :: "int \<Rightarrow> string \<Rightarrow> int" where
  "int_of_digits base s = foldl (\<lambda>n c. n * base + (case digit_value c of None \<Rightarrow> 0 | Some d \<Rightarrow> int d)) 0 s"

text \<open>Big-endian composition of the parts of an address.\<close>

definition from_parts :: "int \<Rightarrow> int list \<Rightarrow> int" where
  "from_parts b xs = foldl (\<lambda>n x. n * b + x) 0 xs"

text \<open>Parse every part, or fail.\<close>

primrec parse_all :: "(string \<Rightarrow> int option) \<Rightarrow> string list \<Rightarrow> int list option" where
  "parse_all f [] = Some []"
| "parse_all f (s # ss) = (case f s of None \<Rightarrow> None | Some n \<Rightarrow>
     (case parse_all f ss of None \<Rightarrow> None | Some ns \<Rightarrow> Some (n # ns)))"

definition parse_octet :: "string \<Rightarrow> int option" where
  "parse_octet s =
     (if \<not> py_isdigit s \<or> 3 < length s \<or> (s \<noteq> ''0'' \<and> hd s = CHR ''0'') \<or> 255 < int_of_digits 10 s
      then None else Some (int_of_digits 10 s))"

definition parse_v4 :: "string \<Rightarrow> int option" where
  "parse_v4 s =
     (let octets = split_on CHR ''.'' s
      in if length octets \<noteq> 4 then None else map_option (from_parts 256) (parse_all parse_octet octets))"

definition parse_hextet :: "string \<Rightarrow> int option" where
  "parse_hextet s =
     (if s = [] \<or> 4 < length s \<or> (\<exists>c \<in> set s. digit_value c = None) then None else Some (int_of_digits 16 s))"

text \<open>
  The groups of a version-6 address: a dotted suffix stands for two groups, one empty inner group
  stands for as many zero groups as are missing, and an empty first or last group is only allowed
  next to it.
\<close>

definition v6_suffix :: "string list \<Rightarrow> (string list \<times> int list) option" where
  "v6_suffix parts =
     (if CHR ''.'' \<in> set (last parts)
      then (case parse_v4 (last parts) of
              None \<Rightarrow> None
            | Some n \<Rightarrow> Some (butlast parts, [n div 65536, n mod 65536]))
      else Some (parts, []))"

definition empty_inner :: "string list \<Rightarrow> nat list" where
  "empty_inner parts = filter (\<lambda>i. parts ! i = []) [1 ..< length parts - 1]"

definition v6_groups :: "string list \<Rightarrow> int list option" where
  "v6_groups parts =
     (case empty_inner parts of
        [] \<Rightarrow> if length parts = 8 then parse_all parse_hextet parts else None
      | [i] \<Rightarrow>
          (let hi = (if hd parts = [] then i - 1 else i);
               lo = (if last parts = [] then length parts - i - 2 else length parts - i - 1)
           in if hd parts = [] \<and> hi \<noteq> 0 \<or> last parts = [] \<and> lo \<noteq> 0 \<or> 8 < hi + lo + 1 then None
              else (case (parse_all parse_hextet (take hi parts), parse_all parse_hextet (drop (length parts - lo) parts)) of
                     (Some xs, Some ys) \<Rightarrow> Some (xs @ replicate (8 - (hi + lo)) 0 @ ys)
                   | _ \<Rightarrow> None))
      | _ \<Rightarrow> None)"

text \<open>The two groups of a dotted suffix are written back as hexadecimal text, as the library does.\<close>

definition hex_char :: "int \<Rightarrow> char" where
  "hex_char d = char_of (if d < 10 then 48 + d else 87 + d)"

definition hex_text :: "int \<Rightarrow> string" where
  "hex_text n =
     (let s = map hex_char [n div 4096 mod 16, n div 256 mod 16, n div 16 mod 16, n mod 16]
      in case dropWhile (\<lambda>c. c = CHR ''0'') s of [] \<Rightarrow> ''0'' | t \<Rightarrow> t)"

definition parse_v6 :: "string \<Rightarrow> int option" where
  "parse_v6 s =
     (let parts = split_on CHR '':'' s
      in if length parts < 3 then None
         else case v6_suffix parts of
                None \<Rightarrow> None
              | Some (front, tail) \<Rightarrow>
                  (let all = front @ map hex_text tail
                   in if 9 < length all then None else map_option (from_parts 65536) (v6_groups all)))"

text \<open>A scope identifier after the percent sign is dropped; it has to be there and to be the only one.\<close>

definition strip_scope :: "string \<Rightarrow> string option" where
  "strip_scope s = (case split1 CHR ''%'' s of
       (a, None) \<Rightarrow> Some a
     | (a, Some scope) \<Rightarrow> if scope = [] \<or> CHR ''%'' \<in> set scope then None else Some a)"

definition ip_address_v4 :: "string \<Rightarrow> int option" where
  "ip_address_v4 s = (if CHR ''/'' \<in> set s then None else parse_v4 s)"

definition ip_address_v6 :: "string \<Rightarrow> int option" where
  "ip_address_v6 s = (if CHR ''/'' \<in> set s then None else Option.bind (strip_scope s) parse_v6)"

definition ip_address :: "string \<Rightarrow> ip_address option" where
  "ip_address s =
     (case ip_address_v4 s of
        Some n \<Rightarrow> Some \<lparr>ip_version = V4, ip_number = n\<rparr>
      | None \<Rightarrow> map_option (\<lambda>n. \<lparr>ip_version = V6, ip_number = n\<rparr>) (ip_address_v6 s))"

text \<open>A mask keeps the leading bits of a number.\<close>

definition mask_bits :: "ip_version \<Rightarrow> nat \<Rightarrow> int \<Rightarrow> int" where
  "mask_bits v p n = n - n mod 2 ^ (max_prefixlen v - p)"

definition prefix_of_text :: "ip_version \<Rightarrow> string \<Rightarrow> nat option" where
  "prefix_of_text v s =
     (if py_isdigit s \<and> int_of_digits 10 s \<le> int (max_prefixlen v) then Some (nat (int_of_digits 10 s)) else None)"

text \<open>A version-4 mask may also be written as an address: leading ones, or their complement.\<close>

definition netmask_prefix :: "int \<Rightarrow> nat option" where
  "netmask_prefix n = List.find (\<lambda>p. n = 2 ^ 32 - 2 ^ (32 - p)) [0 ..< 33]"

definition prefix_of_mask :: "string \<Rightarrow> nat option" where
  "prefix_of_mask s =
     (case parse_v4 s of
        None \<Rightarrow> None
      | Some n \<Rightarrow> (case netmask_prefix n of
          Some p \<Rightarrow> Some p
        | None \<Rightarrow> netmask_prefix (2 ^ 32 - 1 - n)))"

definition make_netmask :: "ip_version \<Rightarrow> string option \<Rightarrow> nat option" where
  "make_netmask v msk =
     (case msk of
        None \<Rightarrow> Some (max_prefixlen v)
      | Some t \<Rightarrow> (case (prefix_of_text v t, v) of
          (Some p, _) \<Rightarrow> Some p
        | (None, V4) \<Rightarrow> prefix_of_mask t
        | (None, V6) \<Rightarrow> None))"

definition network_of :: "ip_version \<Rightarrow> (string \<Rightarrow> int option) \<Rightarrow> string \<Rightarrow> ip_network option" where
  "network_of v parse s =
     (let (addr, msk) = split1 CHR ''/'' s
      in if (case msk of None \<Rightarrow> False | Some t \<Rightarrow> CHR ''/'' \<in> set t) then None
         else (case (parse addr, make_netmask v msk) of
                 (Some n, Some p) \<Rightarrow> Some \<lparr>net_version = v, net_address = mask_bits v p n, net_prefixlen = p\<rparr>
               | _ \<Rightarrow> None))"

definition ip_network :: "string \<Rightarrow> ip_network option" where
  "ip_network s =
     (case network_of V4 ip_address_v4 s of Some n \<Rightarrow> Some n | None \<Rightarrow> network_of V6 ip_address_v6 s)"

definition in_network :: "ip_address \<Rightarrow> ip_network \<Rightarrow> bool" where
  "in_network a n \<longleftrightarrow> ip_version a = net_version n \<and>
     mask_bits (net_version n) (net_prefixlen n) (ip_number a) = net_address n"

section \<open>Trusted proxies\<close>

record request =
  rq_client :: "string option"
  rq_method :: string
  rq_path :: string
  rq_headers :: "(string, string) dict"

definition parse_networks :: "string list \<Rightarrow> ip_network list" where
  "parse_networks raw = List.map_filter (\<lambda>entry.
     let e = py_strip entry in if e = [] then None else ip_network e) raw"

definition is_trusted :: "string \<Rightarrow> ip_network list \<Rightarrow> bool" where
  "is_trusted candidate networks \<longleftrightarrow>
     (case ip_address candidate of None \<Rightarrow> False | Some a \<Rightarrow> \<exists>n \<in> set networks. in_network a n)"

fun first_untrusted :: "ip_network list \<Rightarrow> string list \<Rightarrow> string option" where
  "first_untrusted networks [] = None"
| "first_untrusted networks (c # cs) = (if \<not> is_trusted c networks then Some c else first_untrusted networks cs)"

definition header :: "string \<Rightarrow> request \<Rightarrow> string" where
  "header name req = (case dict_get (rq_headers req) name of None \<Rightarrow> [] | Some v \<Rightarrow> v)"

definition resolve_client_ip :: "settings \<Rightarrow> request \<Rightarrow> string option" where
  "resolve_client_ip st req =
     (let networks = parse_networks (trusted_proxy_ips st)
      in case rq_client req of
           None \<Rightarrow> None
         | Some peer \<Rightarrow>
             if networks = [] \<or> \<not> is_trusted peer networks then Some peer
             else (case first_untrusted networks (rev (comma_list (header ''x-forwarded-for'' req))) of
                     Some c \<Rightarrow> Some c
                   | None \<Rightarrow> Some peer))"

section \<open>Lemmas\<close>

lemma is_trusted_append: "is_trusted c (ns @ ms) \<longleftrightarrow> is_trusted c ns \<or> is_trusted c ms"
  by (auto simp: is_trusted_def split: option.splits)

lemma is_trusted_nil [simp]: "\<not> is_trusted c []"
  by (auto simp: is_trusted_def split: option.splits)

lemma parse_networks_append: "parse_networks (xs @ ys) = parse_networks xs @ parse_networks ys"
  by (simp add: parse_networks_def map_filter_def)

text \<open>An entry that does not parse widens nobody's trust.\<close>

lemma bad_entry_dropped:
  "ip_network (py_strip e) = None \<Longrightarrow> parse_networks (xs @ e # ys) = parse_networks (xs @ ys)"
  by (simp add: parse_networks_def map_filter_def Let_def)

lemma first_untrusted_append:
  "first_untrusted ns (xs @ ys) = (case first_untrusted ns xs of Some c \<Rightarrow> Some c | None \<Rightarrow> first_untrusted ns ys)"
  by (induction xs) auto

lemma first_untrusted_None_iff: "first_untrusted ns xs = None \<longleftrightarrow> (\<forall>c \<in> set xs. is_trusted c ns)"
  by (induction xs) auto

lemma first_untrusted_Some: "first_untrusted ns xs = Some c \<Longrightarrow> c \<in> set xs \<and> \<not> is_trusted c ns"
  by (induction xs) (auto split: if_splits)

text \<open>Masking: two numbers agree on the leading bits exactly if their quotients agree.\<close>

lemma mask_bits_eq_iff:
  "mask_bits v p m = mask_bits v p n \<longleftrightarrow> m div 2 ^ (max_prefixlen v - p) = n div 2 ^ (max_prefixlen v - p)"
  by (metis div_mult_mod_eq mask_bits_def minus_mod_eq_div_mult nonzero_mult_div_cancel_right power_not_zero zero_neq_numeral)

lemma host_network: "mask_bits v (max_prefixlen v) n = n"
  by (simp add: mask_bits_def)

section \<open>The resolved address cannot be forged\<close>

definition trusted_networks :: "settings \<Rightarrow> ip_network list" where
  "trusted_networks st = parse_networks (trusted_proxy_ips st)"

lemma resolve_untrusted_peer:
  "rq_client req = Some peer \<Longrightarrow> \<not> is_trusted peer (trusted_networks st) \<Longrightarrow> resolve_client_ip st req = Some peer"
  by (simp add: resolve_client_ip_def trusted_networks_def Let_def)

lemma resolve_trusted_peer:
  assumes "rq_client req = Some peer" "is_trusted peer (trusted_networks st)"
  shows "resolve_client_ip st req =
    (case first_untrusted (trusted_networks st) (rev (comma_list (header ''x-forwarded-for'' req))) of
       Some c \<Rightarrow> Some c | None \<Rightarrow> Some peer)"
  using assms by (auto simp: resolve_client_ip_def trusted_networks_def Let_def)

lemma header_singleton [simp]: "header n (r\<lparr>rq_headers := [(n, v)]\<rparr>) = v"
  by (simp add: header_def)


definition ex_proxied :: request where
  "ex_proxied = \<lparr>rq_client = Some ''10.0.0.1'', rq_method = ''POST'', rq_path = ''/api/v1/auth/login'',
     rq_headers = [(''host'', ''hub''), (''x-forwarded-for'', ''6.6.6.6,203.0.113.7, 10.0.0.2'')]\<rparr>"

definition behind_proxy :: settings where
  "behind_proxy = default_settings\<lparr>trusted_proxy_ips := [''10.0.0.0/8'', ''not-a-network'']\<rparr>"


end
