(* ===== verification/Api.thy ===== *)
theory Api
  imports Schemas Trading_Service Auth_Service Market_Service Client_Address "HOL-Library.Char_ord" "HOL-Library.List_Lexorder"
begin

text \<open>
  The HTTP endpoints (\<^verbatim>\<open>app/api/v1\<close>) with the dependencies that guard them
  (\<^verbatim>\<open>app/api/deps.py\<close>). A call is a route with its decoded path, query and body parameters.
  The framework resolves the dependencies of a route first (authentication, permission, services),
  then validates the parameters, then runs the handler in the session of the request; the errors of
  the first two steps are answered by the registered exception handlers. Reading the bearer token from
  the header is the framework's and a parameter, as is the status of its refusal.
\<close>

section \<open>Calls\<close>

datatype api_call =
    Health | Ready | List_exchanges
  | Register string string
  | Login string string "string option"
  | Refresh_tokens string
  | Logout string
  | Me | Enroll_2fa | Confirm_2fa string | Disable_2fa string
  | List_accounts | Get_account string
  | Create_paper_account account_payload
  | Create_live_account account_payload string string "string option"
  | Delete_account string
  | Get_ticker string string
  | Get_order_book string string int
  | Get_candles string string string int
  | Get_indicator string string string string int int
  | Calc_position_size risk_calc_request
  | Place_order order_create
  | List_orders "string option" "string option" int int
  | Get_order string
  | Cancel_order string
  | Open_orders string
  | Positions string
  | Balances

text \<open>What a route demands of the caller: nothing, a valid access token, or a permission.\<close>

datatype access = Public | Signed_in | Needs permission

fun access_of :: "api_call \<Rightarrow> access" where
  "access_of Me = Signed_in"
| "access_of Enroll_2fa = Signed_in"
| "access_of (Confirm_2fa _) = Signed_in"
| "access_of (Disable_2fa _) = Signed_in"
| "access_of List_accounts = Needs Account_read"
| "access_of (Get_account _) = Needs Account_read"
| "access_of (Create_paper_account _) = Needs Account_write"
| "access_of (Create_live_account _ _ _ _) = Needs Account_write"
| "access_of (Delete_account _) = Needs Account_write"
| "access_of (Get_ticker _ _) = Needs Market_read"
| "access_of (Get_order_book _ _ _) = Needs Market_read"
| "access_of (Get_candles _ _ _ _) = Needs Market_read"
| "access_of (Get_indicator _ _ _ _ _ _) = Needs Market_read"
| "access_of (Place_order _) = Needs Order_create"
| "access_of (List_orders _ _ _ _) = Needs Order_read"
| "access_of (Get_order _) = Needs Order_read"
| "access_of (Cancel_order _) = Needs Order_cancel"
| "access_of (Open_orders _) = Needs Order_read"
| "access_of (Positions _) = Needs Order_read"
| "access_of Balances = Needs Portfolio_read"
| "access_of _ = Public"

section \<open>Environment and state\<close>

record 'x api =
  av_app :: "'x app"
  av_auth :: auth
  av_limits :: risk_limits
  av_cpow :: "pyfloat \<Rightarrow> pyfloat \<Rightarrow> pyfloat"
  av_valid_email :: email_check
  av_bearer :: "request \<Rightarrow> string option"
  av_bearer_status :: int

text \<open>What one request draws from clocks and randomness.\<close>

record api_inputs =
  in_auth :: auth_inputs
  in_place :: place_inputs
  in_account_id :: string
  in_now :: rat
  in_nonces :: "string \<times> string \<times> string"
  in_clk :: "pyfloat \<times> pyfloat"
  in_account_clk :: "string \<Rightarrow> pyfloat \<times> pyfloat"

type_synonym 'x app_state = "db \<times> (stores \<times> 'x net)"

record current_user =
  cu_id :: string
  cu_role :: string

definition get_current_user :: "'x api \<Rightarrow> rat \<Rightarrow> string \<Rightarrow> exn + current_user" where
  "get_current_user av now token =
     rbind (decode_token (at_jwt (av_auth av)) (at_tokens (av_auth av)) now token (Some Access)) (\<lambda>claims.
       Inr \<lparr>cu_id = tc_subject claims, cu_role = tc_role claims\<rparr>)"

definition require :: "permission \<Rightarrow> current_user \<Rightarrow> exn + current_user" where
  "require p user =
     (if has_permission (cu_role user) p then Inr user
      else Inl (AppExn (mk_error PermissionDeniedError
        (Some (VFmt ''Role '{}' lacks permission '{}'.'' [VStr (cu_role user), VStr (permission_value p)])) [])))"

definition client_ip :: "settings \<Rightarrow> request \<Rightarrow> string option" where
  "client_ip st req = resolve_client_ip st req"

text \<open>The three kinds of work a handler does: in a session with the exchanges, in a session with the authentication stores, or on the exchanges alone.\<close>

definition trading_work :: "dbms \<Rightarrow> ('x svc_state, exn, 'a) action \<Rightarrow> ('x app_state, exn, 'a) action" where
  "trading_work dm act = (\<lambda>(d, (sts, net)).
     case with_session dm act (d, net) of (r, (d', net')) \<Rightarrow> (r, (d', (sts, net'))))"

definition auth_work :: "dbms \<Rightarrow> (auth_state, exn, 'a) action \<Rightarrow> ('x app_state, exn, 'a) action" where
  "auth_work dm act = (\<lambda>(d, (sts, net)).
     case with_session dm act (d, sts) of (r, (d', sts')) \<Rightarrow> (r, (d', (sts', net))))"

definition market_work :: "('x net, exn, 'a) action \<Rightarrow> ('x app_state, exn, 'a) action" where
  "market_work act = (\<lambda>(d, (sts, net)). case act net of (r, net') \<Rightarrow> (r, (d, (sts, net'))))"

definition respond :: "int \<Rightarrow> ('a \<Rightarrow> exn + pyval) \<Rightarrow> ('s, exn, 'a) action \<Rightarrow> ('s, exn, response) action" where
  "respond status out act =
     abind act (\<lambda>a. apure (rbind (out a) (\<lambda>v. Inr \<lparr>resp_status = status, resp_body = v, resp_headers = []\<rparr>)))"

section \<open>Handlers\<close>

definition position_size_out :: "risk_calc_request \<Rightarrow> exn + pyval" where
  "position_size_out p =
     rbind (position_size (rr_account_balance p) (rr_risk_per_trade p) (rr_entry_price p) (rr_stop_loss_price p) (rr_leverage p)) (\<lambda>sizing.
     rbind (case rr_take_profit_price p of
              None \<Rightarrow> Inr None
            | Some tp \<Rightarrow> rbind (risk_reward_ratio (rr_entry_price p) (rr_stop_loss_price p) tp) (\<lambda>q. Inr (Some q))) (\<lambda>rr.
       Inr (VDict [(''quantity'', VNum (sz_quantity sizing)), (''risk_amount'', VNum (sz_risk_amount sizing)),
                   (''notional'', VNum (sz_notional sizing)), (''risk_reward_ratio'', opt_num rr)])))"

definition order_request_of :: "order_create \<Rightarrow> order_request" where
  "order_request_of p =
     \<lparr>rq_symbol = oc_symbol p, rq_side = oc_side p, rq_type = oc_type p, rq_amount = oc_amount p, rq_price = oc_price p,
      rq_stop_price = oc_stop_price p, rq_time_in_force = oc_time_in_force p, rq_reduce_only = oc_reduce_only p,
      rq_post_only = oc_post_only p, rq_leverage = oc_leverage p, rq_client_order_id = None, rq_params = []\<rparr>"

definition page_out :: "int \<Rightarrow> int \<Rightarrow> order_row list \<times> int \<Rightarrow> pyval" where
  "page_out page page_size r = VDict
     [(''items'', VList (map order_out (fst r))),
      (''meta'', VDict [(''page'', VInt page), (''page_size'', VInt page_size), (''total'', VInt (snd r))])]"

definition balances_out :: "(string, balance) dict \<Rightarrow> pyval" where
  "balances_out bs = VList (map balance_out (sort_key bal_asset (map snd bs)))"

definition exchanges_out :: pyval where
  "exchanges_out = VDict [(''exchanges'', VList (map (\<lambda>(k, i). VDict
     [(''id'', VStr (ei_id i)), (''name'', VStr (ei_name i)), (''requires_passphrase'', VBool (ei_requires_passphrase i)),
      (''supports_futures'', VBool (ei_supports_futures i)), (''supports_margin'', VBool (ei_supports_margin i)),
      (''has_testnet'', VBool (ei_has_testnet i))]) supported_exchanges))]"

text \<open>The constraints on the parameters of a call.\<close>

fun param_errors :: "'x api \<Rightarrow> api_call \<Rightarrow> string list" where
  "param_errors av (Register email password) = register_errors (av_valid_email av) email password"
| "param_errors av (Login email password code) = login_errors (av_valid_email av) email password code"
| "param_errors av (Confirm_2fa code) = totp_errors code"
| "param_errors av (Disable_2fa code) = totp_errors code"
| "param_errors av (Create_paper_account p) = account_errors p"
| "param_errors av (Create_live_account p k s pass) = live_account_errors p k s pass"
| "param_errors av (Get_order_book e s limit) = check ''limit'' (1 \<le> limit \<and> limit \<le> 1000)"
| "param_errors av (Get_candles e s tf limit) = check ''limit'' (1 \<le> limit \<and> limit \<le> 1000)"
| "param_errors av (Get_indicator e s n tf period limit) =
     check ''period'' (1 \<le> period \<and> period \<le> 500) @ check ''limit'' (10 \<le> limit \<and> limit \<le> 1000)"
| "param_errors av (Calc_position_size p) = risk_calc_errors p"
| "param_errors av (Place_order p) = order_create_errors p"
| "param_errors av (List_orders sy st page page_size) =
     check ''page'' (1 \<le> page) @ check ''page_size'' (1 \<le> page_size \<and> page_size \<le> 200)"
| "param_errors av _ = []"

definition dbms_of :: "'x api \<Rightarrow> dbms" where
  "dbms_of av = ap_dbms (av_app av)"

text \<open>Validated addresses and exchange names reach the handler in their normal form.\<close>

definition normal_email :: "'x api \<Rightarrow> string \<Rightarrow> string" where
  "normal_email av email = (case av_valid_email av email of None \<Rightarrow> email | Some e \<Rightarrow> e)"

text \<open>The handlers of the routes that need no caller.\<close>

definition api_health where
  "api_health =
     respond 200 Inr (apure (Inr (VDict [(''status'', VStr ''ok'')])))"

definition api_ready where
  "api_ready av =
     respond 200 Inr (apure (Inr (VDict
     [(''status'', VStr ''ok''), (''environment'', VStr (app_env_value (app_env (ap_settings (av_app av))))),
      (''live_trading_enabled'', VBool (live_trading_enabled (ap_settings (av_app av)))),
      (''testnet'', VBool (use_exchange_testnet (ap_settings (av_app av))))])))"

definition api_list_exchanges where
  "api_list_exchanges =
     respond 200 Inr (apure (Inr exchanges_out))"

definition api_register where
  "api_register av inp email password =
     respond 201 (user_out (av_valid_email av))
       (auth_work (dbms_of av) (register (av_auth av) (in_auth inp) (normal_email av email) password))"

definition api_login where
  "api_login av inp req email password code =
     respond 200 (\<lambda>p. Inr (token_out p))
       (auth_work (dbms_of av) (authenticate (av_auth av) (in_auth inp) (normal_email av email) password code
          (client_ip (ap_settings (av_app av)) req)))"

definition api_refresh_tokens where
  "api_refresh_tokens av inp token =
     respond 200 (\<lambda>p. Inr (token_out p)) (auth_work (dbms_of av) (refresh (av_auth av) (in_auth inp) token))"

definition api_logout where
  "api_logout av inp token =
     respond 204 (\<lambda>_. Inr VNone) (auth_work (dbms_of av) (logout (av_auth av) (in_auth inp) token))"

definition api_calc_position_size where
  "api_calc_position_size p =
     respond 200 Inr (apure (position_size_out p))"

fun public_handler :: "'x api \<Rightarrow> api_inputs \<Rightarrow> request \<Rightarrow> api_call \<Rightarrow> ('x app_state, exn, response) action" where
  "public_handler av inp req Health = api_health"
| "public_handler av inp req Ready = api_ready av"
| "public_handler av inp req List_exchanges = api_list_exchanges"
| "public_handler av inp req (Register email password) = api_register av inp email password"
| "public_handler av inp req (Login email password code) = api_login av inp req email password code"
| "public_handler av inp req (Refresh_tokens token) = api_refresh_tokens av inp token"
| "public_handler av inp req (Logout token) = api_logout av inp token"
| "public_handler av inp req (Calc_position_size p) = api_calc_position_size p"
| "public_handler av inp req _ = apure (Inl (PyExn ''LookupError'' ''no such route''))"

text \<open>The handlers that act for a caller; \<open>u\<close> is the caller's identifier.\<close>

definition api_me where
  "api_me av u =
     respond 200 (user_out (av_valid_email av)) (auth_work (dbms_of av) (get_user u))"

definition api_enroll_2fa where
  "api_enroll_2fa av inp u =
     respond 200 (\<lambda>(secret, uri). Inr (VDict [(''secret'', VStr secret), (''provisioning_uri'', VStr uri)]))
       (auth_work (dbms_of av) (begin_totp_enrollment (av_auth av) (in_auth inp) u))"

definition api_confirm_2fa where
  "api_confirm_2fa av inp u code =
     respond 204 (\<lambda>_. Inr VNone) (auth_work (dbms_of av) (confirm_totp (av_auth av) (in_auth inp) u code))"

definition api_disable_2fa where
  "api_disable_2fa av inp u code =
     respond 204 (\<lambda>_. Inr VNone) (auth_work (dbms_of av) (disable_totp (av_auth av) (in_auth inp) u code))"

definition api_list_accounts where
  "api_list_accounts av u =
     respond 200 (\<lambda>as. Inr (VList (map account_out as))) (trading_work (dbms_of av) (list_accounts u))"

definition api_get_account where
  "api_get_account av u aid =
     respond 200 (\<lambda>a. Inr (account_out a)) (trading_work (dbms_of av) (get_account aid u))"

definition api_create_paper_account where
  "api_create_paper_account av inp u p =
     respond 201 (\<lambda>a. Inr (account_out a)) (trading_work (dbms_of av)
       (create_paper_account (in_account_id inp) (in_now inp) u (py_lower (pl_exchange_id p)) (pl_label p) (pl_market_type p)))"

definition api_create_live_account where
  "api_create_live_account av inp u p key secret pass =
     respond 201 (\<lambda>a. Inr (account_out a)) (trading_work (dbms_of av)
       (create_live_account (av_app av) (in_account_id inp) (in_now inp) (in_nonces inp) u (py_lower (pl_exchange_id p))
          (pl_label p) (pl_market_type p) key secret pass))"

definition api_delete_account where
  "api_delete_account av u aid =
     respond 204 (\<lambda>_. Inr VNone) (trading_work (dbms_of av) (delete_account (dbms_of av) aid u))"

definition api_get_ticker where
  "api_get_ticker av inp e symbol =
     respond 200 (\<lambda>t. Inr (ticker_out t)) (market_work (market_ticker (ap_ccxt (av_app av)) (in_clk inp) e symbol))"

definition api_get_order_book where
  "api_get_order_book av inp e symbol limit =
     respond 200 (\<lambda>ob. Inr (order_book_out ob)) (market_work (market_order_book (ap_ccxt (av_app av)) (in_clk inp) e symbol limit))"

definition api_get_candles where
  "api_get_candles av inp e symbol tf limit =
     respond 200 (\<lambda>cs. Inr (VList (map candle_out cs))) (market_work (market_candles (ap_ccxt (av_app av)) (in_clk inp) e symbol tf limit))"

definition api_get_indicator where
  "api_get_indicator av inp e symbol name tf period limit =
     respond 200 (\<lambda>vs. Inr (indicator_out symbol tf name vs))
       (market_work (market_indicator (av_cpow av) (ap_ccxt (av_app av)) (in_clk inp) e symbol name tf period limit))"

definition api_place_order where
  "api_place_order av inp u p =
     respond 200 (\<lambda>r. Inr (order_out r)) (trading_work (dbms_of av)
       (place_order (av_app av) (av_limits av) (in_place inp) u (oc_account_id p) (order_request_of p)))"

definition api_list_orders where
  "api_list_orders av u symbol status page page_size =
     respond 200 (\<lambda>r. Inr (page_out page page_size r)) (trading_work (dbms_of av) (list_orders u symbol status page page_size))"

definition api_get_order where
  "api_get_order av u oid =
     respond 200 (\<lambda>r. Inr (order_out r)) (trading_work (dbms_of av) (get_order u oid))"

definition api_cancel_order where
  "api_cancel_order av inp u oid =
     respond 200 (\<lambda>r. Inr (order_out r)) (trading_work (dbms_of av) (cancel_order (av_app av) (in_clk inp) u oid))"

definition api_open_orders where
  "api_open_orders av inp u aid =
     respond 200 (\<lambda>os. Inr (VList (map exchange_order_to_out os)))
       (trading_work (dbms_of av) (list_open_orders (av_app av) (in_clk inp) u aid))"

definition api_positions where
  "api_positions av inp u aid =
     respond 200 (\<lambda>ps. Inr (VList (map position_to_out ps))) (trading_work (dbms_of av) (list_positions (av_app av) (in_clk inp) u aid))"

definition api_balances where
  "api_balances av inp u =
     respond 200 (\<lambda>bs. Inr (balances_out bs)) (trading_work (dbms_of av) (aggregate_balances (av_app av) (in_account_clk inp) u))"

fun caller_handler :: "'x api \<Rightarrow> api_inputs \<Rightarrow> string \<Rightarrow> api_call \<Rightarrow> ('x app_state, exn, response) action" where
  "caller_handler av inp u Me = api_me av u"
| "caller_handler av inp u Enroll_2fa = api_enroll_2fa av inp u"
| "caller_handler av inp u (Confirm_2fa code) = api_confirm_2fa av inp u code"
| "caller_handler av inp u (Disable_2fa code) = api_disable_2fa av inp u code"
| "caller_handler av inp u List_accounts = api_list_accounts av u"
| "caller_handler av inp u (Get_account aid) = api_get_account av u aid"
| "caller_handler av inp u (Create_paper_account p) = api_create_paper_account av inp u p"
| "caller_handler av inp u (Create_live_account p key secret pass) = api_create_live_account av inp u p key secret pass"
| "caller_handler av inp u (Delete_account aid) = api_delete_account av u aid"
| "caller_handler av inp u (Get_ticker e symbol) = api_get_ticker av inp e symbol"
| "caller_handler av inp u (Get_order_book e symbol limit) = api_get_order_book av inp e symbol limit"
| "caller_handler av inp u (Get_candles e symbol tf limit) = api_get_candles av inp e symbol tf limit"
| "caller_handler av inp u (Get_indicator e symbol name tf period limit) = api_get_indicator av inp e symbol name tf period limit"
| "caller_handler av inp u (Place_order p) = api_place_order av inp u p"
| "caller_handler av inp u (List_orders symbol status page page_size) = api_list_orders av u symbol status page page_size"
| "caller_handler av inp u (Get_order oid) = api_get_order av u oid"
| "caller_handler av inp u (Cancel_order oid) = api_cancel_order av inp u oid"
| "caller_handler av inp u (Open_orders aid) = api_open_orders av inp u aid"
| "caller_handler av inp u (Positions aid) = api_positions av inp u aid"
| "caller_handler av inp u Balances = api_balances av inp u"
| "caller_handler av inp u _ = apure (Inl (PyExn ''LookupError'' ''no such route''))"

lemmas handler_defs =
  api_health_def api_ready_def api_list_exchanges_def api_register_def api_login_def api_refresh_tokens_def api_logout_def api_calc_position_size_def api_me_def api_enroll_2fa_def api_confirm_2fa_def api_disable_2fa_def api_list_accounts_def api_get_account_def api_create_paper_account_def api_create_live_account_def api_delete_account_def api_get_ticker_def api_get_order_book_def api_get_candles_def api_get_indicator_def api_place_order_def api_list_orders_def api_get_order_def api_cancel_order_def api_open_orders_def api_positions_def api_balances_def

section \<open>The router\<close>

text \<open>Resolve the caller: the bearer token, its claims, the permission.\<close>

definition resolve_caller :: "'x api \<Rightarrow> api_inputs \<Rightarrow> request \<Rightarrow> access \<Rightarrow> response + (exn + current_user option)" where
  "resolve_caller av inp req acc =
     (case acc of
        Public \<Rightarrow> Inr (Inr None)
      | _ \<Rightarrow>
          (case av_bearer av req of
             None \<Rightarrow> Inl (handle_http (av_bearer_status av) ''Not authenticated'')
           | Some token \<Rightarrow> Inr (rbind (get_current_user av (ai_now (in_auth inp)) token) (\<lambda>user.
               rbind (case acc of Needs p \<Rightarrow> require p user | _ \<Rightarrow> Inr user) (\<lambda>user. Inr (Some user))))))"

definition handle_call :: "'x api \<Rightarrow> api_inputs \<Rightarrow> request \<Rightarrow> api_call \<Rightarrow> ('x app_state, exn, response) action" where
  "handle_call av inp req c =
     (case resolve_caller av inp req (access_of c) of
        Inl resp \<Rightarrow> apure (Inr resp)
      | Inr (Inl e) \<Rightarrow> apure (Inl e)
      | Inr (Inr caller) \<Rightarrow>
          if param_errors av c \<noteq> [] then apure (Inr (handle_validation (param_errors av c)))
          else case caller of
                 None \<Rightarrow> public_handler av inp req c
               | Some user \<Rightarrow> caller_handler av inp (cu_id user) c)"

end
