(* ===== verification/Trading_Properties.thy ===== *)
theory Trading_Properties
  imports Trading_Service
begin

text \<open>
  Properties of the account and trading services: atomic requests, the absolute paper mode, tenant
  isolation, the risk gate, and the refinement of the persistent ledger to the in-memory one.
\<close>

section \<open>Isolation of tenants\<close>

lemma adapter_session_work:
  assumes "\<And>ad lg net. P (ss_work (fst (snd (body ad (s, (lg, net))))))"
    and "P (ss_work s)" and "\<And>lg d. P d \<Longrightarrow> P (save_ledger (ac_id a) lg d)"
  shows "P (ss_work (fst (snd (adapter_session ap a persist body (s, bs, x)))))"
proof -
  have "P (ss_work s')" if "body ad (s, (lg, net)) = (r, (s', st'))" for ad lg net r s' st'
    using assms(1) [of ad lg net] that by simp
  then show ?thesis using assms(2,3)
    by (auto simp: adapter_session_def split: sum.splits prod.splits)
qed

lemma lift_body_work [simp]: "fst (snd (lift_body act s)) = fst s"
  by (auto simp: lift_body_def split: prod.splits)

lemma change_work_work [simp]: "ss_work (fst (snd (change_work f s))) = f (ss_work (fst s))"
  by (auto simp: change_work_def on_work_def split: prod.splits)

lemma keeps_others:
  "keeps (\<lambda>s. others u own (ss_work (fst s))) (lift_body act)"
  "keeps (\<lambda>s. others u own (ss_work (fst s))) (change_work (audit_record act' u' ip det))"
  "or_user_id r = u \<Longrightarrow> keeps (\<lambda>s. others u own (ss_work (fst s))) (on_work (order_add r))"
  using others_order_add [of r u own]
  by (auto simp: keeps_def on_work_def split: prod.splits) (metis snd_conv)

lemma place_body_others:
  "others u own (ss_work (fst (snd (place_body ap limits inp u aid a rq ad (s, st))))) = others u own (ss_work s)"
proof -
  have "keeps (\<lambda>s. others u own (ss_work (fst s))) (place_body ap limits inp u aid a rq ad)"
    unfolding place_body_def persist_order_def Let_def
    by (intro keeps_bind keeps_pure keeps_others) (simp add: persist_row_def)
  then show ?thesis unfolding keeps_def by (metis fst_conv)
qed

lemma cancel_body_work:
  "ss_work (fst (snd (cancel_body ap clk u r ad (s, st)))) = ss_work s
   \<or> (\<exists>status det. ss_work (fst (snd (cancel_body ap clk u r ad (s, st))))
        = audit_record ''order.cancel'' (Some u) None det (order_update (or_id r) (\<lambda>q. q\<lparr>or_status := status\<rparr>) (ss_work s)))"
  unfolding cancel_body_def
  by (cases "lift_body (cancel_status (ap_ccxt ap) clk ad r) (s, st)"; cases "fst (lift_body (cancel_status (ap_ccxt ap) clk ad r) (s, st))")
    (auto simp: abind_def change_work_def on_work_def lift_body_def apure_def split: prod.splits)

lemma find_SomeD: "find P xs = Some x \<Longrightarrow> x \<in> set xs \<and> P x"
  by (auto simp: find_Some_iff)

definition owned :: "string \<Rightarrow> db \<Rightarrow> string set" where
  "owned uid d = {ac_id a | a. a \<in> set (db_accounts d) \<and> ac_user_id a = uid}"

lemma get_account_cases:
  obtains (missing) "get_account aid u (s, y) = (Inl (raise_app NotFoundError ''Account not found.'' []), (s, y))"
  | (found) a where "get_account aid u (s, y) = (Inr a, (s, y))" "a \<in> set (db_accounts (ss_work s))" "ac_id a = aid" "ac_user_id a = u"
    "account_get_for_user aid u (ss_work s) = Some a"
  by (cases "account_get_for_user aid u (ss_work s)")
    (auto simp: get_account_def read_work_def on_work_def account_get_for_user_def dest!: find_SomeD)

lemma get_order_cases:
  obtains (missing) "get_order u oid (s, y) = (Inl (raise_app NotFoundError ''Order not found.'' []), (s, y))"
  | (found) r where "get_order u oid (s, y) = (Inr r, (s, y))" "r \<in> set (db_orders (ss_work s))" "or_id r = oid" "or_user_id r = u"
  by (cases "order_get_for_user oid u (ss_work s)")
    (auto simp: get_order_def read_work_def on_work_def order_get_for_user_def dest!: find_SomeD)

lemma place_order_others:
  "others u (owned u (ss_work s)) (ss_work (fst (snd (place_order ap limits inp u aid rq (s, bs, x))))) = others u (owned u (ss_work s)) (ss_work s)"
proof (cases rule: get_account_cases [of aid u s "(bs, x)"])
  case missing
  then show ?thesis by (simp add: place_order_def)
next
  case (found a)
  then have "ac_id a \<in> owned u (ss_work s)" by (auto simp: owned_def)
  then show ?thesis using found(1)
    by (auto simp: place_order_def place_body_others others_save
        intro!: adapter_session_work [where P = "\<lambda>d. others u (owned u (ss_work s)) d = others u (owned u (ss_work s)) (ss_work s)"])
qed

lemma cancel_order_others:
  assumes "distinct (map or_id (db_orders (ss_work s)))"
  shows "others u (owned u (ss_work s)) (ss_work (fst (snd (cancel_order ap clk u oid (s, bs, x))))) = others u (owned u (ss_work s)) (ss_work s)"
proof (cases rule: get_order_cases [of u oid s "(bs, x)"])
  case missing
  then show ?thesis by (simp add: cancel_order_def)
next
  case (found r)
  have own: "\<forall>q \<in> set (db_orders (ss_work s)). or_id q = or_id r \<longrightarrow> or_user_id q = u"
    using assms found by (metis (no_types, lifting) distinct_map inj_onD)
  have b: "others u own' (ss_work (fst (snd (cancel_body ap clk u r ad (s, st))))) = others u own' (ss_work s)" for ad st own'
    using cancel_body_work [of ap clk u r ad s st] others_order_update [OF own, of "\<lambda>q. q\<lparr>or_status := status\<rparr>" own' for status]
    by auto
  show ?thesis
  proof (cases rule: get_account_cases [of "or_account_id r" u s "(bs, x)"])
    case missing
    then show ?thesis using found(1) by (simp add: cancel_order_def apure_def)
  next
    case acct: (found a)
    then have "ac_id a \<in> owned u (ss_work s)" unfolding owned_def by blast
    then show ?thesis using found(1) acct(1)
      by (auto simp: cancel_order_def b others_save apure_def
          intro!: adapter_session_work [where P = "\<lambda>d. others u (owned u (ss_work s)) d = others u (owned u (ss_work s)) (ss_work s)"])
  qed
qed

section \<open>A placement on paper\<close>

definition equity_of :: "paper_ledger \<Rightarrow> string \<Rightarrow> decimal" where
  "equity_of lg q = (case find (\<lambda>b. bal_asset b = q) (paper_fetch_balance lg) of None \<Rightarrow> 0 | Some b \<Rightarrow> bal_total b)"

definition risk_equity :: "risk_limits \<Rightarrow> paper_ledger \<Rightarrow> order_request \<Rightarrow> decimal \<Rightarrow> decimal" where
  "risk_equity limits lg rq refp =
     (if 0 < equity_of lg (quote_of (rq_symbol rq)) then equity_of lg (quote_of (rq_symbol rq))
      else dmul (dmul (rq_amount rq) refp) (rl_max_leverage limits))"

lemma reference_price_paper:
  assumes "reference_price env inp rq (Paper_adapter pa m) (lg, net) = (Inr refp, st)"
  shows "\<exists>net'. st = (lg, net') \<and> (\<forall>p. rq_price rq = Some p \<longrightarrow> refp = p)"
  using assms
  by (auto simp: reference_price_def adapter_fetch_ticker_def on_net_def abind_def apure_def
      split: option.splits prod.splits sum.splits)

lemma risk_check_paper:
  "risk_check env limits inp rq (Paper_adapter pa m) refp (lg, net) =
     (check_order limits (dmul (rq_amount rq) refp) (risk_equity limits lg rq refp) (leverage_of rq) None, (lg, net))"
  by (simp add: risk_check_def quote_equity_def adapter_fetch_balance_def on_ledger_def equity_of_def risk_equity_def)

lemma create_order_paper:
  assumes "adapter_create_order env clk hex (Paper_adapter pa m) rq (lg, net) = (Inr ord, st)"
  shows "\<exists>t lg' net'. st = (lg', net') \<and> paper_create_order pa (\<lambda>_. Inr t) hex rq lg = (Inr ord, lg')"
proof -
  obtain t net' where f: "ccxt_fetch_ticker env clk m (rq_symbol rq) net = (t, net')" by (metis surj_pair)
  obtain tk where "t = Inr tk"
    using assms by (cases t) (auto simp: adapter_create_order_def f paper_create_order_def)
  then show ?thesis using assms by (auto simp: adapter_create_order_def f split: prod.splits)
qed

lemma place_body_paper:
  assumes "place_body ap limits inp u aid a rq (Paper_adapter pa m) (s, (lg, net)) = (Inr r, (s', (lg', net')))"
  obtains refp t ord where "\<forall>p. rq_price rq = Some p \<longrightarrow> refp = p"
    "check_order limits (dmul (rq_amount rq) refp) (risk_equity limits lg rq refp) (leverage_of rq) None = Inr ()"
    "paper_create_order pa (\<lambda>_. Inr t) (pi_order_hex inp) (the_request inp rq) lg = (Inr ord, lg')"
    "r = persist_row (pi_row_id inp) (pi_now inp) u a ord"
    "\<exists>det. ss_work s' = audit_record ''order.place'' (Some u) None det ((ss_work s)\<lparr>db_orders := db_orders (ss_work s) @ [r]\<rparr>)"
proof -
  obtain refp st1 where 1: "reference_price (ap_ccxt ap) inp rq (Paper_adapter pa m) (lg, net) = (Inr refp, st1)"
    using assms by (auto simp: place_body_def abind_def lift_body_def split: prod.splits sum.splits)
  then obtain net1 where st1: "st1 = (lg, net1)" and p: "\<forall>p. rq_price rq = Some p \<longrightarrow> refp = p"
    using reference_price_paper by blast
  note step1 = assms [unfolded place_body_def, unfolded abind_def lift_body_def, simplified, unfolded 1 st1, simplified, unfolded risk_check_paper, simplified]
  have 2: "check_order limits (dmul (rq_amount rq) refp) (risk_equity limits lg rq refp) (leverage_of rq) None = Inr ()"
    using step1 by (auto split: sum.splits)
  obtain ord st3 where 3: "adapter_create_order (ap_ccxt ap) (pi_clk_create inp) (pi_order_hex inp) (Paper_adapter pa m) (the_request inp rq) (lg, net1) = (Inr ord, st3)"
    using step1 by (auto simp: 2 split: sum.splits prod.splits)
  then obtain t lg3 net3 where st3: "st3 = (lg3, net3)" and c: "paper_create_order pa (\<lambda>_. Inr t) (pi_order_hex inp) (the_request inp rq) lg = (Inr ord, lg3)"
    using create_order_paper by blast
  have "lg' = lg3" "r = persist_row (pi_row_id inp) (pi_now inp) u a ord"
    "\<exists>det. ss_work s' = audit_record ''order.place'' (Some u) None det ((ss_work s)\<lparr>db_orders := db_orders (ss_work s) @ [r]\<rparr>)"
    using step1 by (auto simp: 2 3 st3 persist_order_def order_add_def on_work_def change_work_def apure_def abind_def Let_def
        split: sum.splits prod.splits if_splits)
  then show ?thesis using that p 2 c by blast
qed

lemma paper_effective_adapter:
  assumes "is_paper_effective ap a" and "build_adapter ap a bs = (Inr ad, bs')"
  obtains e m where "ad = Paper_adapter (new_paper_adapter e ''USDT'' default_fee) m"
proof -
  obtain creds where "fst (build_adapter_for (ap_settings ap) (ac_exchange_id a) creds (ac_is_paper a) (ac_market_type a) bs) = Inr ad"
    using assms(2) by (auto simp: build_adapter_def split: sum.splits) (metis fst_conv)
  then show ?thesis using assms(1) that
    by (cases rule: build_adapter_cases) (auto simp: is_paper_effective_def live_trading_enabled_def)
qed

lemma adapter_session_paper:
  assumes "adapter_session ap a True body (s, bs, x) = (Inr r, (s', net'))"
    and "is_paper_effective ap a" and "load_ledger (ac_id a) (ss_work s) = Inr lg"
  obtains e m bs' s1 lg1 where "body (Paper_adapter (new_paper_adapter e ''USDT'' default_fee) m) (s, (lg, (bs', x))) = (Inr r, (s1, (lg1, net')))"
    "ss_work s' = save_ledger (ac_id a) lg1 (ss_work s1)"
proof -
  obtain ad bs' where b: "build_adapter ap a bs = (Inr ad, bs')"
    using assms by (auto simp: adapter_session_def split: prod.splits sum.splits)
  then obtain e m where ad: "ad = Paper_adapter (new_paper_adapter e ''USDT'' default_fee) m"
    using paper_effective_adapter [OF assms(2)] by metis
  obtain r' s1 lg1 net1 where body: "body ad (s, (lg, (bs', x))) = (r', (s1, (lg1, net1)))" by (metis surj_pair)
  have "r' = Inr r" "net1 = net'" "ss_work s' = save_ledger (ac_id a) lg1 (ss_work s1)"
    using assms b body by (auto simp: adapter_session_def)
  then show ?thesis using that body ad by blast
qed

lemma place_order_paper:
  assumes "place_order ap limits inp u aid rq (s, bs, x) = (Inr r, (s', net'))"
    and "account_get_for_user aid u (ss_work s) = Some a" and "is_paper_effective ap a"
    and "load_ledger aid (ss_work s) = Inr lg"
  obtains refp t ord lg' e where "\<forall>p. rq_price rq = Some p \<longrightarrow> refp = p"
    "check_order limits (dmul (rq_amount rq) refp) (risk_equity limits lg rq refp) (leverage_of rq) None = Inr ()"
    "paper_create_order (new_paper_adapter e ''USDT'' default_fee) (\<lambda>_. Inr t) (pi_order_hex inp) (the_request inp rq) lg = (Inr ord, lg')"
    "r = persist_row (pi_row_id inp) (pi_now inp) u a ord"
    "\<exists>det. ss_work s' = save_ledger aid lg' (audit_record ''order.place'' (Some u) None det ((ss_work s)\<lparr>db_orders := db_orders (ss_work s) @ [r]\<rparr>))"
proof -
  have id: "ac_id a = aid" using assms(2) by (auto simp: account_get_for_user_def dest!: find_SomeD)
  have "adapter_session ap a True (place_body ap limits inp u aid a rq) (s, bs, x) = (Inr r, (s', net'))"
    using assms(1,2) by (auto simp: place_order_def get_account_def read_work_def on_work_def abind_def)
  from adapter_session_paper [OF this assms(3)] assms(4) id
  obtain e m bs' s1 lg1 where b: "place_body ap limits inp u aid a rq (Paper_adapter (new_paper_adapter e ''USDT'' default_fee) m) (s, (lg, (bs', x))) = (Inr r, (s1, (lg1, net')))"
    "ss_work s' = save_ledger aid lg1 (ss_work s1)" by metis
  from place_body_paper [OF b(1)] b(2) that show ?thesis by metis
qed

section \<open>The persistent ledger refines the in-memory one\<close>

definition covers :: "string \<Rightarrow> balance_row list \<Rightarrow> paper_ledger \<Rightarrow> bool" where
  "covers aid rows lg \<longleftrightarrow> dict_wf (lg_balances lg) \<and> keyed (lg_balances lg) \<and> lg_balances lg \<noteq> []
     \<and> (\<forall>a. row_for aid a rows \<noteq> None \<longrightarrow> dict_get (lg_balances lg) a \<noteq> None)"

lemma load_balances_wf: "dict_wf (load_balances aid d)"
proof -
  have "dict_wf acc \<Longrightarrow> dict_wf (fold (\<lambda>r. dict_set (f r) (g r)) rows acc)" for f g and rows :: "balance_row list" and acc :: "(string, balance) dict"
    by (induction rows arbitrary: acc) auto
  then show ?thesis by (simp add: load_balances_def)
qed

lemma covers_load:
  assumes "balances_unique (db_balances d)" and "load_ledger aid d = Inr lg"
  shows "covers aid (db_balances d) lg"
proof (cases "load_balances aid d = []")
  case True
  then have "row_for aid a (db_balances d) = None" for a
    using load_balances_get [OF assms(1), of aid a] by simp
  then show ?thesis using assms(2) True by (auto simp: covers_def load_ledger_def keyed_def dict_wf_def Let_def rbind_Inr_iff split: if_splits)
next
  case False
  then have "lg_balances lg = load_balances aid d" using assms(2) by (auto simp: load_ledger_def Let_def rbind_Inr_iff)
  then show ?thesis using False load_balances_wf [of aid d]
    by (auto simp: covers_def keyed_def load_balances_get [OF assms(1)] balance_of_row_def dest: row_for_SomeD)
qed

lemma covers_set_balance: "covers aid rows lg \<Longrightarrow> covers aid rows (set_balance a f u lg)"
  by (auto simp: covers_def keyed_def set_balance_def dict_get_set update_nonempty)

lemma covers_steps:
  "covers aid rows lg \<Longrightarrow> covers aid rows (credit a x lg)" "covers aid rows lg \<Longrightarrow> covers aid rows (release a x lg)"
  "covers aid rows (put_order ord lg) \<longleftrightarrow> covers aid rows lg" "covers aid rows (lg\<lparr>lg_orders := os\<rparr>) \<longleftrightarrow> covers aid rows lg"
  by (auto simp: credit_def release_def Let_def covers_set_balance) (auto simp: covers_def put_order_def)

lemma create_order_effect:
  assumes "paper_create_order ad fetch hex rq lg = (Inr ord, lg')"
  shows "(covers aid rows lg \<longrightarrow> covers aid rows lg') \<and> o_id ord = new_order_id hex \<and> o_is_paper ord
     \<and> (o_status ord = Open \<or> o_status ord = Filled) \<and> lg_orders lg' = dict_set (o_id ord) ord (lg_orders lg)"
  by (cases rule: create_order_cases [where fetch = fetch and rq = rq and ad = ad and hex = hex and lg = lg])
    (use assms in \<open>auto simp: Let_def covers_steps covers_set_balance put_order_def resting_order_def filled_order_def\<close>)

definition store_ord :: "dbms \<Rightarrow> order \<Rightarrow> order" where
  "store_ord dm ord = ord\<lparr>o_amount := dm_numeric dm (o_amount ord), o_filled := dm_numeric dm (o_filled ord),
     o_price := map_option (dm_numeric dm) (o_price ord), o_average := map_option (dm_numeric dm) (o_average ord),
     o_fee := dm_numeric dm (o_fee ord), o_timestamp := None\<rparr>"

lemma order_of_persisted:
  "o_is_paper ord \<Longrightarrow> order_of_row (o_id ord) (store_order dm (persist_row rid now u a ord)) = Inr (store_ord dm ord)"
  by (simp add: order_of_row_def store_order_def persist_row_def store_ord_def)

lemma work_sel [simp]:
  "db_orders (save_ledger aid lg d) = db_orders d" "db_orders (audit_record act u ip det d) = db_orders d"
  "db_balances (audit_record act u ip det d) = db_balances d"
  by (simp_all add: save_ledger_def audit_record_def)

lemma open_rows_cong: "db_orders d = db_orders d' \<Longrightarrow> open_rows aid d = open_rows aid d'"
  by (simp add: open_rows_def)

lemma load_after_place:
  assumes lg: "load_ledger aid d = Inr lg" and st: "stored dm d" and u: "balances_unique (db_balances d)"
    and create: "paper_create_order ad fetch hex rq lg = (Inr ord, lg')"
    and r: "r = persist_row rid now user a ord" "ac_id a = aid"
    and d'_def: "d' = store_db dm (save_ledger aid lg' (audit_record act us ip det (d\<lparr>db_orders := db_orders d @ [r]\<rparr>)))"
  shows "\<exists>lg''. load_ledger aid d' = Inr lg''
     \<and> (\<forall>x. dict_get (lg_balances lg'') x = map_option (store_bal dm) (dict_get (lg_balances lg') x))
     \<and> lg_orders lg'' = (if o_status ord = Open then dict_set (o_id ord) (store_ord dm ord) (lg_orders lg) else lg_orders lg)"
proof -
  note eff = create_order_effect [OF create, of aid "db_balances d"]
  have ne: "o_id ord \<noteq> []" using eff by (simp add: new_order_id_def)
  let ?d1 = "d\<lparr>db_orders := db_orders d @ [r]\<rparr>"
  have "open_rows aid d' = map (store_order dm) (open_rows aid ?d1)"
    unfolding d'_def open_rows_store by (simp cong: open_rows_cong add: open_rows_def)
  also have "open_rows aid ?d1 = open_rows aid d @ (if o_status ord = Open then [r] else [])"
    using eff r by (auto simp: open_rows_def persist_row_def open_statuses_def)
  finally have rows: "open_rows aid d' = open_rows aid d @ (if o_status ord = Open then [store_order dm r] else [])"
    using stored_open_rows [OF st, of aid] by simp
  have old: "add_open_orders (open_rows aid d) [] = Inr (lg_orders lg)"
    using lg by (auto simp: load_ledger_def load_open_orders_def Let_def rbind_Inr_iff)
  have xid: "or_exchange_order_id r = Some (o_id ord)" using r by (simp add: persist_row_def)
  have "order_of_row (o_id ord) (store_order dm r) = Inr (store_ord dm ord)"
    unfolding r(1) using eff by (intro order_of_persisted) simp
  then have new: "load_open_orders aid d' = Inr (if o_status ord = Open then dict_set (o_id ord) (store_ord dm ord) (lg_orders lg) else lg_orders lg)"
    using ne by (cases "o_id ord") (auto simp: load_open_orders_def rows add_open_orders_append old xid)
  then obtain lg'' where l: "load_ledger aid d' = Inr lg''"
    "lg_orders lg'' = (if o_status ord = Open then dict_set (o_id ord) (store_ord dm ord) (lg_orders lg) else lg_orders lg)"
    by (simp add: load_ledger_def Let_def)
  have c: "covers aid (db_balances d) lg'" using eff covers_load [OF u lg] by simp
  have "dict_get (lg_balances lg'') x = map_option (store_bal dm) (dict_get (lg_balances lg') x)" for x
    by (rule load_save_balances [of "audit_record act us ip det ?d1" lg' aid dm lg'' x])
      (use c u l in \<open>auto simp: covers_def d'_def audit_record_def\<close>)
  then show ?thesis using l by blast
qed

section \<open>Fixtures\<close>

text \<open>
  An exchange that counts the orders it receives and quotes every symbol at 100; an application in
  the default configuration; a database with one paper account of user \<open>u1\<close>.
\<close>

definition ex_exchange :: "client_config \<Rightarrow> string \<Rightarrow> pyval list \<Rightarrow> int \<Rightarrow> (exn + pyval) \<times> int" where
  "ex_exchange cfg meth args n =
     (if meth = ''fetch_ticker'' then (Inr (VDict [(''last'', VInt 100)]), n)
      else if meth = ''create_order'' then (Inr (VDict [(''id'', VStr ''1''), (''side'', VStr ''buy'')]), n + 1)
      else (Inr (VDict []), n))"

definition ex_app :: "int app" where
  "ex_app = \<lparr>ap_settings = default_settings,
     ap_ccxt = \<lparr>cx_installed = True, cx_sandbox_ok = (\<lambda>_. True), cx_call = ex_exchange\<rparr>,
     ap_dbms = \<lparr>dm_numeric = (\<lambda>v. v), dm_cascade = True\<rparr>, ap_fernet = ex_fernet, ap_cipher = \<lparr>sc_keys = [''k'']\<rparr>\<rparr>"

definition ex_account :: account_row where
  "ex_account = \<lparr>ac_id = ''a1'', ac_user_id = ''u1'', ac_exchange_id = ''binance'', ac_label = ''main'',
     ac_market_type = ''spot'', ac_is_paper = True, ac_api_key_enc = None, ac_api_secret_enc = None,
     ac_passphrase_enc = None, ac_is_active = True, ac_created_at = 0\<rparr>"

definition ex_db :: db where
  "ex_db = empty_db\<lparr>db_accounts := [ex_account]\<rparr>"

definition ex_inputs :: place_inputs where
  "ex_inputs = \<lparr>pi_client_hex = ''c0'', pi_order_hex = ''00ff'', pi_row_id = ''r1'', pi_now = 5,
     pi_clk_ticker = (0, 0), pi_clk_balance = (0, 0), pi_clk_create = (0, 0)\<rparr>"

definition ex_place where
  "ex_place rq = with_session (ap_dbms ex_app) (place_order ex_app default_risk_limits ex_inputs ''u1'' ''a1'' rq) (ex_db, ([], 0))"

lemma ex_read_only: "read_only (\<lambda>n. n) [''fetch_ticker''] (ap_ccxt ex_app)"
  by (simp add: read_only_def ex_app_def ex_exchange_def)

lemma ex_paper: "\<not> allow_live_trading (ap_settings ex_app)"
  by (simp add: ex_app_def default_settings_def)

section \<open>Properties\<close>

text \<open>C8: placing and cancelling are atomic: a request that ends in an error leaves the database exactly as
  it was, whatever the error and wherever it was raised.\<close>

theorem failed_trading_request_rolls_back:
  "(case with_session dm (place_order ap limits inp u aid rq) (d, net) of (Inl e, (d', net')) \<Rightarrow> d' = d | (Inr r, _) \<Rightarrow> True)
   \<and> (case with_session dm (cancel_order ap clk u oid) (d, net) of (Inl e, (d', net')) \<Rightarrow> d' = d | (Inr r, _) \<Rightarrow> True)"
  using with_session_failure [OF place_order_keeps [of ap limits inp u aid rq], of dm d net]
    with_session_failure [OF cancel_order_keeps [of ap clk u oid], of dm d net]
  by (auto split: prod.splits sum.splits)

lemma with_session_view:
  assumes "keeps (\<lambda>s. g (snd s)) body"
  shows "g (snd (snd (with_session dm body (d, x)))) = g x"
proof -
  have "g (snd (snd (body (\<lparr>ss_committed = d, ss_work = d\<rparr>, x)))) = g x" using assms by (simp add: keeps_def)
  then show ?thesis by (auto simp: with_session_def split: prod.splits sum.splits)
qed

text \<open>C1: safe by default: while the server does not allow live trading, no order request reaches an
  exchange. Whatever account it names, live or paper, placing or cancelling changes nothing of the
  outside world but what fetching a ticker may change.\<close>

theorem paper_mode_sends_no_orders:
  assumes "\<not> allow_live_trading (ap_settings ap)" and "read_only view [''fetch_ticker''] (ap_ccxt ap)"
  shows "view (snd (snd (snd (with_session dm (place_order ap limits inp u aid rq) (d, (bs, x)))))) = view x
     \<and> view (snd (snd (snd (with_session dm (cancel_order ap clk u oid) (d, (bs, x)))))) = view x"
  using with_session_view [where g = "\<lambda>net. view (snd net)", OF place_order_view [OF assms, of limits inp u aid rq], of dm d "(bs, x)"]
    with_session_view [where g = "\<lambda>net. view (snd net)", OF cancel_order_view [OF assms(1), of view clk u oid], of dm d "(bs, x)"]
  by simp

theorem paper_mode_sends_no_orders_witness:
  "is_ok (fst (ex_place (ex_request Buy Market 2 None))) \<and> snd (snd (snd (ex_place (ex_request Buy Market 2 None)))) = 0"
proof -
  have "is_ok (fst (ex_place (ex_request Buy Market 2 None)))" by code_simp
  then show ?thesis using paper_mode_sends_no_orders [OF ex_paper ex_read_only] by (simp add: ex_place_def)
qed

text \<open>Tenants are isolated: whatever order a user places or cancels, and whatever the outcome, the
  request's session leaves all users, all accounts, the orders of every other user and the paper
  balances of every account the user does not own as they were.\<close>

theorem trading_isolates_tenants:
  assumes "distinct (map or_id (db_orders (ss_work s)))"
  shows "others u (owned u (ss_work s)) (ss_work (fst (snd (place_order ap limits inp u aid rq (s, bs, x)))))
       = others u (owned u (ss_work s)) (ss_work s)
     \<and> others u (owned u (ss_work s)) (ss_work (fst (snd (cancel_order ap clk u oid (s, bs, x)))))
       = others u (owned u (ss_work s)) (ss_work s)"
  by (simp add: place_order_others cancel_order_others [OF assms])

theorem trading_isolates_tenants_witness:
  "others ''u1'' {''a1''} (ss_work (fst (snd (place_order ex_app default_risk_limits ex_inputs ''u1'' ''a1'' (ex_request Buy Market 2 None)
       (\<lparr>ss_committed = ex_db, ss_work = ex_db\<rparr>, [], 0))))) = others ''u1'' {''a1''} ex_db"
proof -
  have "owned ''u1'' ex_db = {''a1''}" by (auto simp: owned_def ex_db_def ex_account_def)
  then show ?thesis
    using trading_isolates_tenants [of "\<lparr>ss_committed = ex_db, ss_work = ex_db\<rparr>" "''u1''" ex_app default_risk_limits ex_inputs "''a1''"]
    by (simp add: ex_db_def empty_db_def)
qed

lemma with_session_ok:
  assumes "with_session dm body (d, x) = (Inr r, (d', x'))"
  obtains s' where "body (\<lparr>ss_committed = d, ss_work = d\<rparr>, x) = (Inr r, (s', x'))" "d' = store_db dm (ss_work s')"
  using assms by (auto simp: with_session_def session_commit_def split: prod.splits sum.splits)

text \<open>C4: the persistent ledger refines the in-memory paper ledger: a successful placement on a paper
  account runs one order of the paper adapter on the ledger loaded from the database, and the ledger
  the next request loads has exactly the resulting balances and open orders, as far as the numeric
  columns keep the values.\<close>

theorem place_order_refines_ledger:
  assumes "with_session (ap_dbms ap) (place_order ap limits inp u aid rq) (d, (bs, x)) = (Inr r, (d', net'))"
    and "account_get_for_user aid u d = Some a" and "is_paper_effective ap a" and "load_ledger aid d = Inr lg"
    and "balances_unique (db_balances d)" and "stored (ap_dbms ap) d"
  shows "\<exists>e t ord lg' lg''.
       paper_create_order (new_paper_adapter e ''USDT'' default_fee) (\<lambda>_. Inr t) (pi_order_hex inp) (the_request inp rq) lg = (Inr ord, lg')
     \<and> r = persist_row (pi_row_id inp) (pi_now inp) u a ord
     \<and> load_ledger aid d' = Inr lg''
     \<and> (\<forall>asset. dict_get (lg_balances lg'') asset = map_option (store_bal (ap_dbms ap)) (dict_get (lg_balances lg') asset))
     \<and> lg_orders lg'' = (if o_status ord = Open then dict_set (o_id ord) (store_ord (ap_dbms ap) ord) (lg_orders lg) else lg_orders lg)"
proof -
  have id: "ac_id a = aid" using assms(2) by (auto simp: account_get_for_user_def dest!: find_SomeD)
  obtain s' where s: "place_order ap limits inp u aid rq (\<lparr>ss_committed = d, ss_work = d\<rparr>, (bs, x)) = (Inr r, (s', net'))"
    "d' = store_db (ap_dbms ap) (ss_work s')"
    using with_session_ok [OF assms(1)] by metis
  from place_order_paper [OF s(1), simplified, OF assms(2-4)]
  obtain t ord lg' e det where p:
    "paper_create_order (new_paper_adapter e ''USDT'' default_fee) (\<lambda>_. Inr t) (pi_order_hex inp) (the_request inp rq) lg = (Inr ord, lg')"
    "r = persist_row (pi_row_id inp) (pi_now inp) u a ord"
    "ss_work s' = save_ledger aid lg' (audit_record ''order.place'' (Some u) None det (d\<lparr>db_orders := db_orders d @ [r]\<rparr>))"
    by metis
  from load_after_place [OF assms(4,6,5) p(1,2) id s(2) [unfolded p(3)]] p(1,2) show ?thesis by blast
qed

lemma ex_place_account: "account_get_for_user ''a1'' ''u1'' ex_db = Some ex_account"
  by (simp add: account_get_for_user_def ex_db_def ex_account_def)

definition ex_loaded :: paper_ledger where
  "ex_loaded = \<lparr>lg_quote_asset = ''USDT'', lg_starting_balance = 100000,
    lg_balances = [(''USDT'', \<lparr>bal_asset = ''USDT'', bal_free = 100000, bal_used = 0\<rparr>)], lg_orders = []\<rparr>"

lemma ex_ledger_loaded: "load_ledger ''a1'' ex_db = Inr ex_loaded"
  by (simp add: ex_loaded_def load_ledger_def load_open_orders_def load_balances_def open_rows_def balance_rows_def ex_db_def empty_db_def)

lemma ex_db_ok: "balances_unique (db_balances ex_db)" "stored (ap_dbms ex_app) ex_db"
  by (simp_all add: balances_unique_def stored_def store_db_def ex_db_def empty_db_def)

lemma ex_effective: "is_paper_effective ex_app ex_account"
  by (simp add: is_paper_effective_def ex_account_def)

theorem place_order_refines_ledger_witness:
  "\<exists>r d' net' lg''. ex_place (ex_request Buy Limit 2 (Some 90)) = (Inr r, (d', net')) \<and> load_ledger ''a1'' d' = Inr lg''"
proof -
  have "is_ok (fst (ex_place (ex_request Buy Limit 2 (Some 90))))" by code_simp
  then obtain r d' net' where p: "ex_place (ex_request Buy Limit 2 (Some 90)) = (Inr r, (d', net'))"
    by (metis is_ok_iff prod.collapse)
  from place_order_refines_ledger [OF p [unfolded ex_place_def] ex_place_account ex_effective ex_ledger_loaded ex_db_ok] p
  show ?thesis by blast
qed

text \<open>C20: no order passes the risk gate above the limits: a priced order accepted on a paper account with a
  positive balance of the quote asset has at most the maximal leverage, and its notional is at most
  equity times leverage times the configured share.\<close>

theorem placed_order_within_limits:
  assumes "place_order ap limits inp u aid rq (s, bs, x) = (Inr r, (s', net'))"
    and "account_get_for_user aid u (ss_work s) = Some a" and "is_paper_effective ap a"
    and "load_ledger aid (ss_work s) = Inr lg" and "rq_price rq = Some p" and "0 < equity_of lg (quote_of (rq_symbol rq))"
  shows "leverage_of rq \<le> rl_max_leverage limits
     \<and> dmul (rq_amount rq) p \<le> dmul (dmul (equity_of lg (quote_of (rq_symbol rq))) (leverage_of rq)) (rl_max_position_margin_pct limits)"
proof -
  obtain refp where "\<forall>p. rq_price rq = Some p \<longrightarrow> refp = p"
    "check_order limits (dmul (rq_amount rq) refp) (risk_equity limits lg rq refp) (leverage_of rq) None = Inr ()"
    using place_order_paper [OF assms(1-4)] by metis
  then show ?thesis
    using assms(5,6) check_order_ok_iff [of limits "dmul (rq_amount rq) p" "risk_equity limits lg rq p" "leverage_of rq" None]
    by (auto simp: risk_equity_def is_ok_iff)
qed

theorem placed_order_within_limits_witness:
  "dmul (rq_amount (ex_request Buy Limit 2 (Some 90))) 90 \<le> dmul (dmul 100000 1) (1/2)"
proof -
  let ?rq = "ex_request Buy Limit 2 (Some 90)" and ?s = "\<lparr>ss_committed = ex_db, ss_work = ex_db\<rparr>"
  have "is_ok (fst (place_order ex_app default_risk_limits ex_inputs ''u1'' ''a1'' ?rq (?s, [], 0)))" by code_simp
  then obtain r s' net' where p: "place_order ex_app default_risk_limits ex_inputs ''u1'' ''a1'' ?rq (?s, [], 0) = (Inr r, (s', net'))"
    by (metis is_ok_iff prod.collapse)
  have e: "equity_of ex_loaded (quote_of (rq_symbol ?rq)) = 100000" "leverage_of ?rq = 1"
    "rl_max_position_margin_pct default_risk_limits = 1/2" by code_simp+
  have "account_get_for_user ''a1'' ''u1'' (ss_work ?s) = Some ex_account" "load_ledger ''a1'' (ss_work ?s) = Inr ex_loaded"
    "rq_price ?rq = Some 90" by (simp_all add: ex_place_account ex_ledger_loaded) (simp add: ex_request_def)
  from placed_order_within_limits [OF p this(1) ex_effective this(2,3)] show ?thesis unfolding e by simp
qed

text \<open>
  The gate compares the notional of a sale with the quote balance too: an account that holds one
  base unit bought for 49000 of 100000 cannot sell it back at the same price.
\<close>

definition ex_holding_db :: db where
  "ex_holding_db = ex_db\<lparr>db_balances :=
     [\<lparr>br_account_id = ''a1'', br_asset = ''USDT'', br_free = 51000, br_used = 0\<rparr>,
      \<lparr>br_account_id = ''a1'', br_asset = ''BTC'', br_free = 1, br_used = 0\<rparr>]\<rparr>"

lemma sell_back_rejected:
  "(case fst (with_session (ap_dbms ex_app) (place_order ex_app default_risk_limits ex_inputs ''u1'' ''a1''
       (ex_request Sell Limit 1 (Some 49000))) (ex_holding_db, ([], 0))) of
      Inl e \<Rightarrow> is_app RiskLimitError e | Inr r \<Rightarrow> False)"
  by code_simp

section \<open>Paging\<close>

lemma take_drop_chunks:
  fixes xs :: "'a list"
  assumes "0 < n"
  shows "concat (map (\<lambda>k. take n (drop (k * n) xs)) [0..<m]) = take (m * n) xs"
proof (induction m)
  case (Suc m)
  have "take (m * n) xs @ take n (drop (m * n) xs) = take (n + m * n) xs"
    by (metis add.commute take_add)
  then show ?case using Suc by simp
qed simp

lemma upto_as_upt: "[1..int m] = map (\<lambda>k. int k + 1) [0..<m]"
proof (induction m)
  case (Suc m)
  have "[1..int (Suc m)] = [1..int m] @ [int m + 1]"
    using upto_rec2 [of 1 "int m + 1"] by (simp add: add.commute)
  then show ?case using Suc by simp
qed simp

text \<open>Paging loses and repeats nothing: the pages from the first to the reported last one, put
  together, are exactly the user's orders that match the filters, newest first, no page is longer
  than the page size, and every page reports the same total.\<close>

theorem pages_partition_orders:
  assumes "0 < psize"
  shows "\<exists>items. (\<forall>p. fst (list_orders u symbol status p psize (s, y)) = Inr (items p, order_count_for_user u symbol status (ss_work s)))
     \<and> (\<forall>p. int (length (items p)) \<le> psize)
     \<and> concat (map items [1..page_count (order_count_for_user u symbol status (ss_work s)) psize])
       = sort_key (\<lambda>r. - or_created_at r) (orders_matching u symbol status (ss_work s))"
proof -
  let ?xs = "sort_key (\<lambda>r. - or_created_at r) (orders_matching u symbol status (ss_work s))"
  define items where "items p = take (nat psize) (drop (nat ((p - 1) * psize)) ?xs)" for p
  define n where "n = nat psize"
  have n: "0 < n" "psize = int n" using assms by (simp_all add: n_def)
  let ?m = "(length ?xs + n - 1) div n"
  have pc: "page_count (order_count_for_user u symbol status (ss_work s)) psize = int ?m"
    using n by (simp add: page_count_def order_count_for_user_def zdiv_int of_nat_diff)
  have "items (int k + 1) = take n (drop (k * n) ?xs)" for k
    by (simp add: items_def n_def [symmetric] n(2) nat_mult_distrib)
  then have "concat (map items [1..int ?m]) = concat (map (\<lambda>k. take n (drop (k * n) ?xs)) [0..<?m])"
    unfolding upto_as_upt by (simp add: comp_def)
  also have "\<dots> = take (?m * n) ?xs" by (rule take_drop_chunks [OF n(1)])
  also have "length ?xs \<le> ?m * n"
  proof -
    have "length ?xs + n - 1 < (?m + 1) * n"
      using n(1) by (metis add.commute add_mult_distrib mult_1 dividend_less_div_times)
    then show ?thesis using n(1) by simp
  qed
  then have "take (?m * n) ?xs = ?xs" by simp
  finally have c: "concat (map items [1..int ?m]) = ?xs" .
  have "fst (list_orders u symbol status p psize (s, y)) = Inr (items p, order_count_for_user u symbol status (ss_work s))" for p
    by (simp add: list_orders_def read_work_def on_work_def order_list_for_user_def items_def)
  moreover have "int (length (items p)) \<le> psize" for p using n by (simp add: items_def)
  ultimately show ?thesis using c pc by auto
qed

theorem pages_partition_orders_witness:
  "\<exists>items. concat (map items [1..page_count (order_count_for_user ''u1'' None None ex_db) 50])
     = sort_key (\<lambda>r. - or_created_at r) (orders_matching ''u1'' None None ex_db)"
  using pages_partition_orders [of 50 "''u1''" None None "\<lparr>ss_committed = ex_db, ss_work = ex_db\<rparr>" "()"] by auto

section \<open>Stored credentials\<close>

text \<open>C40: the credentials of a live account survive storage: what an account created with an API key and
  secret holds are ciphertexts from which the service recovers exactly the key, the secret and the
  passphrase.\<close>

theorem live_credentials_roundtrip:
  assumes "fst (create_live_account ap aid now ns u e label mt key secret pass st) = Inr a"
    and "fernet_laws (ap_fernet ap)" and "sc_keys (ap_cipher ap) \<noteq> []"
  shows "\<exists>c. decrypt_credentials ap a = Inr (Some c) \<and> cr_api_key c = key \<and> cr_api_secret c = secret
     \<and> (cr_passphrase c = pass \<or> pass = Some [])"
proof -
  let ?f = "ap_fernet ap" and ?c = "ap_cipher ap"
  let ?enc = "\<lambda>n p. fn_encrypt ?f (sc_keys ?c) n p"
  have dec: "cipher_decrypt ?f ?c (?enc n p) = Inr p" and ne: "?enc n p \<noteq> []" for n p
    using assms(2,3) by (auto simp: cipher_decrypt_def fernet_laws_def)
  have a: "\<not> ac_is_paper a" "ac_api_key_enc a = Some (?enc (fst ns) key)" "ac_api_secret_enc a = Some (?enc (fst (snd ns)) secret)"
    "ac_passphrase_enc a = (case pass of None \<Rightarrow> None | Some [] \<Rightarrow> None | Some p \<Rightarrow> Some (?enc (snd (snd ns)) p))"
    using assms(1)
    by (auto simp: create_live_account_def cipher_encrypt_def encrypt_opt_def abind_ok_iff apure_def Let_def
        split: option.splits if_splits list.splits)
  show ?thesis
  proof (cases "pass = None \<or> pass = Some []")
    case True
    then show ?thesis using a dec ne by (auto simp: decrypt_credentials_def)
  next
    case False
    then obtain h t where "pass = Some (h # t)" by (cases pass; cases "the pass") auto
    then show ?thesis using a dec ne by (auto simp: decrypt_credentials_def)
  qed
qed

theorem live_credentials_roundtrip_witness:
  "\<exists>a c. fst (create_live_account ex_app ''a2'' 1 ([], [], []) ''u1'' ''okx'' ''live'' ''spot'' ''key-1'' ''secret-1'' (Some ''pw'')
        (\<lparr>ss_committed = ex_db, ss_work = ex_db\<rparr>, ())) = Inr a
     \<and> decrypt_credentials ex_app a = Inr (Some c) \<and> cr_api_key c = ''key-1'' \<and> cr_passphrase c = Some ''pw''"
proof -
  let ?r = "fst (create_live_account ex_app ''a2'' 1 ([], [], []) ''u1'' ''okx'' ''live'' ''spot'' ''key-1'' ''secret-1'' (Some ''pw'')
        (\<lparr>ss_committed = ex_db, ss_work = ex_db\<rparr>, ()))"
  have "is_ok ?r" by code_simp
  then obtain a where a: "?r = Inr a" by (auto simp: is_ok_iff)
  have "fernet_laws (ap_fernet ex_app)" "sc_keys (ap_cipher ex_app) \<noteq> []" by (simp_all add: ex_app_def ex_fernet_laws)
  from live_credentials_roundtrip [OF a this] a show ?thesis by auto
qed

section \<open>Live cancellations\<close>

text \<open>
  An exchange may acknowledge a cancellation without repeating the status (ccxt then reports none):
  the local record of the cancelled order is set back to open.
\<close>

lemma live_cancel_without_status:
  assumes "ccxt_call env clk ad ''cancel_order'' [VStr oid, VStr (or_symbol r)] net = (Inr raw, net')"
    and "parse_order raw (or_symbol r) = Inr ord" and "vget raw ''status'' VNone = Inr VNone"
    and "or_exchange_order_id r = Some oid" "oid \<noteq> []"
  shows "fst (cancel_status env clk (Live_adapter ad) r (lg, net)) = Inr (status_value Open)"
proof -
  have "o_status ord = Open"
    using assms(2,3) by (auto simp: parse_order_def rbind_Inr_iff parse_status_def vget_def ccxt_status_map_def
        split: pyval.splits option.splits)
  then show ?thesis
    using assms by (cases oid) (auto simp: cancel_status_def adapter_cancel_order_def ccxt_cancel_order_def on_net_def call_then_def)
qed

text \<open>An acknowledgement with an explicit empty side cannot be parsed at all.\<close>

lemma order_without_side_raises:
  assumes "map_of d ''side'' = Some VNone" "parse_fee (VDict d) = Inr fee" "map_of d ''symbol'' = None" "map_of d ''id'' = Some (VStr i)"
  shows "parse_order (VDict d) sy = Inl (PyExn ''ValueError'' ''None'')"
  using assms by (simp add: parse_order_def vget_def order_id_text_def vtext_def enum_value_def)

end
