(* ===== verification/Auth_Properties.thy ===== *)
theory Auth_Properties
  imports Auth_Service
begin

text \<open>
  Properties of the authentication service: who gets tokens, what a rejected login leaves behind,
  single use of one-time codes and refresh tokens, and the guards around two-factor enrolment.
\<close>

section \<open>What the pieces do\<close>

lemma work_runs [simp]:
  "change_work f (s, y) = (Inr (), (s\<lparr>ss_work := f (ss_work s)\<rparr>, y))"
  "read_work g (s, y) = (g (ss_work s), (s, y))"
  by (simp_all add: change_work_def read_work_def on_work_def)

lemma store_runs [simp]:
  "with_throttle f (s, (th, js)) = (Inr (fst (f th)), (s, (snd (f th), js)))"
  "with_jtis g (s, (th, js)) = (Inr (fst (g js)), (s, (th, snd (g js))))"
  "commit_security_event ae (s, y) = (Inr (), (session_commit (at_dbms ae) s, y))"
  by (simp_all add: with_throttle_def with_jtis_def commit_security_event_def split: prod.split)

lemma reject_login_run:
  "reject_login ae inp email act uid ip err (s, (th, js)) =
     (Inl err, (session_commit (at_dbms ae) (s\<lparr>ss_work := audit_record act uid ip [] (ss_work s)\<rparr>),
       (throttle_failure (ai_mono inp) email th, js)))"
  by (simp add: reject_login_def abind_def apure_def)

text \<open>The second factor of a login: the code belongs to a time step beyond the last accepted one.\<close>

definition totp_accepts :: "auth \<Rightarrow> auth_inputs \<Rightarrow> user_row \<Rightarrow> string \<Rightarrow> int \<Rightarrow> bool" where
  "totp_accepts ae inp u code k \<longleftrightarrow>
     (case cipher_decrypt (at_fernet ae) (at_cipher ae) (case us_totp_secret_enc u of None \<Rightarrow> [] | Some t \<Rightarrow> t) of
        Inl e \<Rightarrow> False
      | Inr secret \<Rightarrow> verify_counter (at_otp ae) (at_totp ae) secret code (ai_now inp) = Some k)
     \<and> (case us_totp_last_counter u of None \<Rightarrow> True | Some c \<Rightarrow> c < k)"

lemma consume_totp_cases:
  obtains (accepted) k where "totp_accepts ae inp u code k"
      "consume_totp ae inp u code (s, y) = (Inr (), (s\<lparr>ss_work := user_update (us_id u) (\<lambda>v. v\<lparr>us_totp_last_counter := Some k\<rparr>) (ss_work s)\<rparr>, y))"
  | (refused) e where "\<forall>k. \<not> totp_accepts ae inp u code k"
      "e = auth_error ''Invalid two-factor code.'' \<or> e = encryption_error ''Failed to decrypt secret (bad key or corrupt data).''"
      "consume_totp ae inp u code (s, y) = (Inl e, (s, y))"
proof -
  let ?t = "case us_totp_secret_enc u of None \<Rightarrow> [] | Some t \<Rightarrow> t"
  show thesis
  proof (cases "cipher_decrypt (at_fernet ae) (at_cipher ae) ?t")
    case (Inl e)
    then show ?thesis by (intro refused [of e]) (auto simp: totp_accepts_def consume_totp_def cipher_decrypt_def split: option.splits)
  next
    case (Inr secret)
    show ?thesis
    proof (cases "\<exists>k. totp_accepts ae inp u code k")
      case True
      then obtain k where k: "totp_accepts ae inp u code k" ..
      then show ?thesis using Inr
        by (intro accepted [OF k]) (auto simp: totp_accepts_def consume_totp_def split: option.splits)
    next
      case False
      then show ?thesis using Inr
        by (intro refused [of "auth_error ''Invalid two-factor code.''"])
          (auto simp: totp_accepts_def consume_totp_def apure_def split: option.splits)
    qed
  qed
qed

definition second_factor_ok :: "auth \<Rightarrow> auth_inputs \<Rightarrow> user_row \<Rightarrow> string option \<Rightarrow> bool" where
  "second_factor_ok ae inp u totp_code \<longleftrightarrow>
     (if us_totp_enabled u
      then (case totp_code of Some (c # cs) \<Rightarrow> (\<exists>k. totp_accepts ae inp u (c # cs) k) | _ \<Rightarrow> False)
      else True)"

lemma second_factor_ok_iff:
  "is_ok (fst (second_factor ae inp email code ip u (s, (th, js)))) \<longleftrightarrow> second_factor_ok ae inp u code"
proof (cases "us_totp_enabled u \<and> (\<exists>c cs. code = Some (c # cs))")
  case True
  then obtain c cs where c: "us_totp_enabled u" "code = Some (c # cs)" by auto
  show ?thesis
    by (cases rule: consume_totp_cases [of ae inp u "c # cs" s "(th, js)"])
      (auto simp: second_factor_def second_factor_ok_def c reject_login_run split: exn.splits)
next
  case False
  then show ?thesis by (cases code; cases "the code") (auto simp: second_factor_def second_factor_ok_def apure_def)
qed

lemma login_success_ok:
  "fst (login_success ae inp email password ip u (s, (th, js))) =
     Inr (issue_pair (at_jwt ae) (at_tokens ae) (ai_now inp) (ai_jtis inp) (us_id u) (us_role u) (us_token_generation u))"
  by (simp add: login_success_def abind_def apure_def)

lemma authenticate_user_ok:
  "fst (authenticate_user ae inp email password code ip u (s, (th, js))) = Inr tp \<longleftrightarrow>
     hasher_verify (at_argon ae) (us_password_hash u) password = Inr True \<and> us_is_active u \<and> second_factor_ok ae inp u code
     \<and> tp = issue_pair (at_jwt ae) (at_tokens ae) (ai_now inp) (ai_jtis inp) (us_id u) (us_role u) (us_token_generation u)"
proof -
  obtain r s' th' js' where f: "second_factor ae inp email code ip u (s, (th, js)) = (r, (s', (th', js')))" by (metis surj_pair)
  then have "second_factor_ok ae inp u code \<longleftrightarrow> is_ok r" using second_factor_ok_iff [of ae inp email code ip u s th js] by simp
  then show ?thesis using f login_success_ok [of ae inp email password ip u s' th' js']
    by (cases "hasher_verify (at_argon ae) (us_password_hash u) password"; cases r)
      (auto simp: authenticate_user_def reject_login_run abind_def apure_def)
qed

section \<open>Properties of login\<close>

lemma login_ok_iff:
  "fst (authenticate ae inp email password code ip (s, (th, js))) = Inr tp \<longleftrightarrow>
     \<not> fst (is_locked (ai_mono inp) (py_lower email) th)
     \<and> (\<exists>u. user_get_by_email (py_lower email) (ss_work s) = Some u
          \<and> hasher_verify (at_argon ae) (us_password_hash u) password = Inr True
          \<and> us_is_active u \<and> second_factor_ok ae inp u code
          \<and> tp = issue_pair (at_jwt ae) (at_tokens ae) (ai_now inp) (ai_jtis inp) (us_id u) (us_role u) (us_token_generation u))"
proof (cases "fst (is_locked (ai_mono inp) (py_lower email) th)")
  case True
  then show ?thesis by (simp add: authenticate_def Let_def abind_def apure_def)
next
  case False
  let ?th = "snd (is_locked (ai_mono inp) (py_lower email) th)"
  show ?thesis
  proof (cases "user_get_by_email (py_lower email) (ss_work s)")
    case None
    then show ?thesis using False
      by (cases "hasher_verify (at_argon ae) (at_decoy ae) password")
        (auto simp: authenticate_def Let_def abind_def apure_def reject_login_run)
  next
    case (Some u)
    then have "fst (authenticate ae inp email password code ip (s, (th, js))) =
        fst (authenticate_user ae inp (py_lower email) password code ip u (s, (?th, js)))"
      using False by (simp add: authenticate_def Let_def abind_def)
    then show ?thesis using Some False authenticate_user_ok by simp
  qed
qed

text \<open>C15: a login yields tokens exactly if the identity is not locked out, a user with that address exists,
  the password verifies, the user is active and, where two-factor authentication is on, the code
  belongs to a time step later than every code accepted before; the tokens are then the user's own.\<close>

theorem login_succeeds_iff:
  "fst (authenticate ae inp email password code ip (s, (th, js))) = Inr tp \<longleftrightarrow>
     \<not> fst (is_locked (ai_mono inp) (py_lower email) th)
     \<and> (\<exists>u. user_get_by_email (py_lower email) (ss_work s) = Some u
          \<and> hasher_verify (at_argon ae) (us_password_hash u) password = Inr True
          \<and> us_is_active u \<and> second_factor_ok ae inp u code
          \<and> tp = issue_pair (at_jwt ae) (at_tokens ae) (ai_now inp) (ai_jtis inp) (us_id u) (us_role u) (us_token_generation u))"
  by (rule login_ok_iff)

section \<open>What a rejected login leaves behind\<close>

definition audited :: "db \<Rightarrow> db \<Rightarrow> bool" where
  "audited d d' \<longleftrightarrow> (\<exists>row. d' = d\<lparr>db_audit := db_audit d @ [row]\<rparr>)"

lemma store_audit: "stored dm d \<Longrightarrow> store_db dm (d\<lparr>db_audit := a\<rparr>) = d\<lparr>db_audit := a\<rparr>"
  by (cases d) (auto simp: stored_def store_db_def)

lemma reject_login_dest:
  "reject_login ae inp email act uid ip err (s, st) = (x, (s', st')) \<Longrightarrow> stored (at_dbms ae) (ss_work s) \<Longrightarrow>
     x = Inl err \<and> audited (ss_work s) (ss_committed s')"
  by (cases st) (auto simp: reject_login_run session_commit_def audited_def audit_record_def store_audit)

text \<open>The rejections the audit trail must show.\<close>

definition auditable :: "exn \<Rightarrow> bool" where
  "auditable e \<longleftrightarrow> (case e of
       AppExn a \<Rightarrow> err_class a \<in> {AuthenticationError, AccountLockedError, InvalidTokenError}
     | PyExn _ _ \<Rightarrow> False)"

lemma auditable_simps [simp]:
  "auditable (auth_error m)" "auditable (AppExn (mk_error AccountLockedError m' ps))" "\<not> auditable (encryption_error m)"
  by (simp_all add: auditable_def auth_error_def encryption_error_def)

lemma is_app_auth: "is_app AuthenticationError (auth_error m)" "\<not> is_app AuthenticationError (encryption_error m)"
  by (simp_all add: subclass_auth auth_error_def encryption_error_def)

lemma second_factor_failure:
  assumes "second_factor ae inp email code ip u (s, st) = (Inl e, (s', st'))" and "stored (at_dbms ae) (ss_work s)"
  shows "if auditable e then audited (ss_work s) (ss_committed s') else ss_committed s' = ss_committed s"
proof (cases "us_totp_enabled u \<and> code \<noteq> None \<and> code \<noteq> Some []")
  case True
  then show ?thesis
    using assms
    by (cases rule: consume_totp_cases [of ae inp u "the code" s st])
      (auto simp: second_factor_def is_app_auth split: if_splits dest: reject_login_dest)
next
  case False
  then show ?thesis using assms(1) by (auto simp: second_factor_def apure_def auditable_def split: if_splits)
qed

lemma authenticate_user_failure:
  assumes "authenticate_user ae inp email password code ip u (s, st) = (Inl e, (s', st'))" and "stored (at_dbms ae) (ss_work s)"
    and "\<not> (\<exists>x. hasher_verify (at_argon ae) (us_password_hash u) password = Inl x \<and> auditable x)"
  shows "if auditable e then audited (ss_work s) (ss_committed s') else ss_committed s' = ss_committed s"
proof (cases "hasher_verify (at_argon ae) (us_password_hash u) password")
  case (Inl x)
  then show ?thesis using assms(1,3) by (auto simp: authenticate_user_def)
next
  case (Inr ok)
  obtain th js where st: "st = (th, js)" by fastforce
  obtain r s1 th1 js1 where f: "second_factor ae inp email code ip u (s, st) = (r, (s1, (th1, js1)))" by (metis surj_pair)
  show ?thesis
  proof (cases "ok \<and> us_is_active u")
    case True
    then have "abind (second_factor ae inp email code ip u) (\<lambda>_. login_success ae inp email password ip u) (s, st) = (Inl e, (s', st'))"
      using assms(1) Inr by (simp add: authenticate_user_def)
    moreover have "is_ok (fst (login_success ae inp email password ip u (s1, (th1, js1))))" by (simp add: login_success_ok)
    ultimately have "r = Inl e" "s1 = s'" using f by (cases r; auto simp: abind_def)+
    then show ?thesis using second_factor_failure [OF _ assms(2)] f by blast
  next
    case False
    then show ?thesis
      using assms(1,2) Inr by (auto simp: authenticate_user_def split: if_splits dest: reject_login_dest)
  qed
qed

section \<open>Fixtures\<close>

definition ex_auth :: auth where
  "ex_auth = \<lparr>at_argon = ex_argon, at_fernet = ex_fernet, at_cipher = \<lparr>sc_keys = [''k'']\<rparr>, at_otp = ex_otp,
     at_totp = default_totp, at_jwt = ex_jwt,
     at_tokens = \<lparr>tv_secret = ''s'', tv_algorithm = ''HS256'', tv_access_ttl = 10, tv_refresh_ttl = 100\<rparr>,
     at_dbms = \<lparr>dm_numeric = (\<lambda>v. v), dm_cascade = True\<rparr>, at_decoy = ''h:decoy''\<rparr>"

definition ex_auth_inputs :: "rat \<Rightarrow> auth_inputs" where
  "ex_auth_inputs t = \<lparr>ai_mono = t, ai_now = t, ai_id = ''u1'', ai_salt = [], ai_nonce = [], ai_secret = ''base32'', ai_jtis = (''j1'', ''j2'')\<rparr>"

definition ex_user :: user_row where
  "ex_user = \<lparr>us_id = ''u1'', us_email = ''eve@x.io'', us_password_hash = ''h:pw'', us_role = ''trader'', us_is_active = True,
     us_totp_enabled = True, us_totp_secret_enc = Some (ex_seal ''k'' ''base32''), us_totp_last_counter = Some 1, us_token_generation = 0\<rparr>"

definition ex_user_db :: db where
  "ex_user_db = empty_db\<lparr>db_users := [ex_user]\<rparr>"

definition ex_session :: "db \<Rightarrow> session" where
  "ex_session d = \<lparr>ss_committed = d, ss_work = d\<rparr>"

definition ex_stores :: stores where
  "ex_stores = (new_throttle 5 300, [])"

lemma ex_auth_sel [simp]: "at_jwt ex_auth = ex_jwt" "at_dbms ex_auth = \<lparr>dm_numeric = (\<lambda>v. v), dm_cascade = True\<rparr>" "at_argon ex_auth = ex_argon"
  by (simp_all add: ex_auth_def)

lemma ex_user_stored: "stored (at_dbms ex_auth) ex_user_db"
  by (simp add: stored_def store_db_def ex_user_db_def empty_db_def)

lemma ex_argon_errors: "hasher_verify ex_argon h p = Inl x \<Longrightarrow> \<not> auditable x"
  by (auto simp: hasher_verify_def ex_argon_def split: if_splits)

section \<open>Audit of rejected logins\<close>

text \<open>C21: rejected logins are on the record: whenever a login is refused because of the password, the
  account state, the second factor or a lockout, the database has exactly one more audit entry and is
  otherwise unchanged; any other error changes nothing.\<close>

theorem rejected_login_is_audited:
  assumes "with_session (at_dbms ae) (authenticate ae inp email password code ip) (d, st) = (Inl e, (d', st'))"
    and "stored (at_dbms ae) d"
    and "\<And>h x. hasher_verify (at_argon ae) h password = Inl x \<Longrightarrow> \<not> auditable x"
  shows "if auditable e then audited d d' else d' = d"
proof -
  let ?s = "\<lparr>ss_committed = d, ss_work = d\<rparr>"
  obtain th js where st: "st = (th, js)" by fastforce
  obtain r s1 st1 where run: "authenticate ae inp email password code ip (?s, st) = (r, (s1, st1))" by (metis surj_pair)
  then have r: "r = Inl e" "d' = ss_committed s1"
    using assms(1) by (cases r; auto simp: with_session_def session_rollback_def)+
  let ?th = "snd (is_locked (ai_mono inp) (py_lower email) th)"
  show ?thesis
  proof (cases "fst (is_locked (ai_mono inp) (py_lower email) th)")
    case True
    then show ?thesis using run r assms(2)
      by (auto simp: st authenticate_def Let_def abind_def apure_def session_commit_def audited_def audit_record_def store_audit)
  next
    case False
    note unlocked = this
    show ?thesis
    proof (cases "user_get_by_email (py_lower email) d")
      case None
      then show ?thesis
        using run r False assms(2,3)
        by (cases "hasher_verify (at_argon ae) (at_decoy ae) password")
          (auto simp: st authenticate_def Let_def abind_def apure_def reject_login_run session_commit_def audited_def
            audit_record_def store_audit)
    next
      case (Some u)
      then have "authenticate_user ae inp (py_lower email) password code ip u (?s, (?th, js)) = (Inl e, (s1, st1))"
        using run r False by (simp add: st authenticate_def Let_def abind_def)
      from authenticate_user_failure [OF this] assms(2,3) r show ?thesis by auto
    qed
  qed
qed

theorem rejected_login_is_audited_witness:
  "\<exists>e d' st'. with_session (at_dbms ex_auth) (authenticate ex_auth (ex_auth_inputs 60) ''eve@x.io'' ''wrong'' None None) (ex_user_db, ex_stores)
       = (Inl e, (d', st')) \<and> audited ex_user_db d'"
proof -
  let ?run = "with_session (at_dbms ex_auth) (authenticate ex_auth (ex_auth_inputs 60) ''eve@x.io'' ''wrong'' None None) (ex_user_db, ex_stores)"
  have "case fst ?run of Inl e \<Rightarrow> auditable e | Inr tp \<Rightarrow> False" by code_simp
  then obtain e d' st' where run: "?run = (Inl e, (d', st'))" "auditable e"
    by (cases ?run) (auto split: sum.splits)
  have "if auditable e then audited ex_user_db d' else d' = ex_user_db"
    by (rule rejected_login_is_audited [OF run(1) ex_user_stored]) (use ex_argon_errors in auto)
  with run show ?thesis by auto
qed

section \<open>One-time codes\<close>

lemma user_get_update:
  assumes "\<And>v. us_id (f v) = us_id v"
  shows "user_get uid (user_update uid' f d) = (if uid = uid' then map_option f (user_get uid d) else user_get uid d)"
proof -
  have "find (\<lambda>u. us_id u = uid) (map (\<lambda>u. if us_id u = uid' then f u else u) us)
      = (if uid = uid' then map_option f (find (\<lambda>u. us_id u = uid) us) else find (\<lambda>u. us_id u = uid) us)" for us
    using assms by (induction us) auto
  then show ?thesis by (simp add: user_get_def user_update_def)
qed

lemma user_get_audit [simp]: "user_get uid (audit_record act u ip det d) = user_get uid d"
  by (simp add: user_get_def audit_record_def)

text \<open>
  A time step of a user is spent once the user has two-factor authentication on and the last recorded
  step is that one or a later one. Operations that keep a step spent compose.
\<close>

definition spent_row :: "int \<Rightarrow> user_row \<Rightarrow> bool" where
  "spent_row k v \<longleftrightarrow> us_totp_enabled v \<and> (case us_totp_last_counter v of None \<Rightarrow> False | Some c \<Rightarrow> k \<le> c)"

definition spent :: "string \<Rightarrow> int \<Rightarrow> db \<Rightarrow> bool" where
  "spent uid k d \<longleftrightarrow> uid \<in> us_id ` set (db_users d) \<and> (\<forall>v \<in> set (db_users d). us_id v = uid \<longrightarrow> spent_row k v)"

definition keeps_spent :: "string \<Rightarrow> int \<Rightarrow> (session \<times> 's, exn, 'a) action \<Rightarrow> bool" where
  "keeps_spent uid k m \<longleftrightarrow> (\<forall>s y. spent uid k (ss_work s) \<and> spent uid k (ss_committed s) \<longrightarrow>
     spent uid k (ss_work (fst (snd (m (s, y))))) \<and> spent uid k (ss_committed (fst (snd (m (s, y))))))"

lemma keeps_spentD:
  "keeps_spent uid k m \<Longrightarrow> m (s, y) = (r, (s', y')) \<Longrightarrow> spent uid k (ss_work s) \<Longrightarrow> spent uid k (ss_committed s) \<Longrightarrow>
     spent uid k (ss_work s') \<and> spent uid k (ss_committed s')"
  unfolding keeps_spent_def by (metis fst_conv snd_conv)

lemma spent_users: "db_users d' = db_users d \<Longrightarrow> spent uid k d' = spent uid k d"
  by (simp add: spent_def)

lemma spent_audit [simp]: "spent uid k (audit_record act u ip det d) = spent uid k d"
  and spent_store [simp]: "spent uid k (store_db dm d) = spent uid k d"
  by (simp_all add: spent_def audit_record_def store_db_def)

lemma update_ids:
  assumes "\<And>v. us_id (f v) = us_id v"
  shows "us_id ` set (db_users (user_update uid f d)) = us_id ` set (db_users d)"
proof -
  have "map us_id (db_users (user_update uid f d)) = map us_id (db_users d)"
    using assms by (simp add: user_update_def)
  then show ?thesis by (metis set_map)
qed

lemma spent_update:
  assumes "spent uid k d" and "\<And>v. us_id (f v) = us_id v" and "\<And>v. uid' = uid \<Longrightarrow> spent_row k v \<Longrightarrow> spent_row k (f v)"
  shows "spent uid k (user_update uid' f d)"
proof -
  have "us_id ` set (db_users (user_update uid' f d)) = us_id ` set (db_users d)"
    using update_ids assms(2) by blast
  then show ?thesis using assms by (auto simp: spent_def user_update_def)
qed

lemma keeps_spent_same: "(\<And>x. fst (snd (m x)) = fst x) \<Longrightarrow> keeps_spent uid k m"
  by (simp add: keeps_spent_def)

lemma keeps_spent_pure [simp, intro]: "keeps_spent uid k (apure r)"
  by (rule keeps_spent_same) (simp add: apure_def)

lemma keeps_spent_stores [simp, intro]: "keeps_spent uid k (with_throttle f)" "keeps_spent uid k (with_jtis g)"
  by (rule keeps_spent_same; simp add: with_throttle_def with_jtis_def split: prod.split)+

lemma keeps_spent_change: "(\<And>d. spent uid k d \<Longrightarrow> spent uid k (f d)) \<Longrightarrow> keeps_spent uid k (change_work f)"
  by (simp add: keeps_spent_def)

lemma keeps_spent_audit [simp, intro]: "keeps_spent uid k (change_work (audit_record act u ip det))"
  by (rule keeps_spent_change) simp

lemma keeps_spent_commit [simp, intro]: "keeps_spent uid k (commit_security_event ae)"
  by (simp add: keeps_spent_def commit_security_event_def session_commit_def)

lemma keeps_spent_bind: "keeps_spent uid k m \<Longrightarrow> (\<And>a. keeps_spent uid k (f a)) \<Longrightarrow> keeps_spent uid k (abind m f)"
  unfolding keeps_spent_def
proof (intro allI impI)
  fix s :: session and y
  assume m: "\<forall>s y. spent uid k (ss_work s) \<and> spent uid k (ss_committed s) \<longrightarrow>
       spent uid k (ss_work (fst (snd (m (s, y))))) \<and> spent uid k (ss_committed (fst (snd (m (s, y)))))"
    and f: "\<And>a. \<forall>s y. spent uid k (ss_work s) \<and> spent uid k (ss_committed s) \<longrightarrow>
       spent uid k (ss_work (fst (snd (f a (s, y))))) \<and> spent uid k (ss_committed (fst (snd (f a (s, y)))))"
    and s: "spent uid k (ss_work s) \<and> spent uid k (ss_committed s)"
  obtain r s1 y1 where r: "m (s, y) = (r, (s1, y1))" by (metis surj_pair)
  then have "spent uid k (ss_work s1) \<and> spent uid k (ss_committed s1)" using m s by (metis fst_conv snd_conv)
  then show "spent uid k (ss_work (fst (snd (abind m f (s, y))))) \<and> spent uid k (ss_committed (fst (snd (abind m f (s, y)))))"
    using f r by (cases r) (simp_all add: abind_def)
qed

lemma keeps_spent_read:
  assumes "\<And>d a. spent uid k d \<Longrightarrow> g d = Inr a \<Longrightarrow> keeps_spent uid k (f a)"
  shows "keeps_spent uid k (abind (read_work g) f)"
  using assms unfolding keeps_spent_def abind_def by (auto split: sum.splits)

lemma keeps_spent_reject: "keeps_spent uid k (reject_login ae inp email act u ip err)"
  unfolding reject_login_def by (intro keeps_spent_bind keeps_spent_pure keeps_spent_audit keeps_spent_stores keeps_spent_commit)

lemmas keeps_spent_rules = keeps_spent_bind keeps_spent_pure keeps_spent_audit keeps_spent_stores keeps_spent_commit
  keeps_spent_reject

text \<open>A loaded row is as the database has it: it shows the spent step.\<close>

lemma loaded_row:
  "spent uid k d \<Longrightarrow> user_get i d = Some u \<Longrightarrow> us_id u = i \<and> (i = uid \<longrightarrow> spent_row k u)"
  "spent uid k d \<Longrightarrow> user_get_by_email e d = Some u \<Longrightarrow> us_id u = uid \<longrightarrow> spent_row k u"
  by (auto simp: spent_def user_get_def user_get_by_email_def find_Some_iff)

lemma keeps_spent_consume:
  assumes "us_id u = uid \<longrightarrow> spent_row k u"
  shows "keeps_spent uid k (consume_totp ae inp u code)"
  unfolding keeps_spent_def
proof (intro allI impI)
  fix s :: session and y assume s: "spent uid k (ss_work s) \<and> spent uid k (ss_committed s)"
  show "spent uid k (ss_work (fst (snd (consume_totp ae inp u code (s, y)))))
      \<and> spent uid k (ss_committed (fst (snd (consume_totp ae inp u code (s, y)))))"
  proof (cases rule: consume_totp_cases [of ae inp u code s y])
    case (accepted k')
    have "us_id u = uid \<Longrightarrow> k \<le> k'"
      using accepted(1) assms by (auto simp: totp_accepts_def spent_row_def split: option.splits)
    then show ?thesis using s accepted(2) by (auto intro!: spent_update simp: spent_row_def)
  qed (use s in simp)
qed

lemma keeps_spent_register: "keeps_spent uid k (register ae inp email password)"
proof -
  have "keeps_spent uid k (on_work (user_add u))" for u
    by (auto simp: keeps_spent_def on_work_def user_add_def spent_def)
  then show ?thesis unfolding register_def Let_def
    by (intro keeps_spent_read keeps_spent_rules)
qed

lemma keeps_spent_authenticate: "keeps_spent uid k (authenticate ae inp email password code ip)"
proof -
  have success: "keeps_spent uid k (login_success ae inp e password ip u)" for e u
    unfolding login_success_def
    by (intro keeps_spent_rules) (auto intro!: keeps_spent_change spent_update simp: spent_row_def)
  have second: "keeps_spent uid k (second_factor ae inp e code ip u)" if "us_id u = uid \<longrightarrow> spent_row k u" for e u
    unfolding keeps_spent_def
  proof (intro allI impI)
    fix s :: session and y :: stores assume s: "spent uid k (ss_work s) \<and> spent uid k (ss_committed s)"
    obtain r s1 y1 where c: "consume_totp ae inp u (the code) (s, y) = (r, (s1, y1))" by (metis surj_pair)
    have s1: "spent uid k (ss_work s1) \<and> spent uid k (ss_committed s1)"
      using keeps_spentD [OF keeps_spent_consume [OF that] c] s by blast
    have rej: "spent uid k (ss_work (fst (snd (reject_login ae inp e act i ip err (s1, y1)))))
        \<and> spent uid k (ss_committed (fst (snd (reject_login ae inp e act i ip err (s1, y1)))))" for act i err
      using keeps_spentD [OF keeps_spent_reject] s1 by (metis prod.collapse)
    show "spent uid k (ss_work (fst (snd (second_factor ae inp e code ip u (s, y)))))
        \<and> spent uid k (ss_committed (fst (snd (second_factor ae inp e code ip u (s, y)))))"
      using s s1 rej by (auto simp: second_factor_def c apure_def split: sum.splits)
  qed
  have user: "keeps_spent uid k (authenticate_user ae inp e password code ip u)" if "us_id u = uid \<longrightarrow> spent_row k u" for e u
    unfolding authenticate_user_def using that
    by (intro keeps_spent_bind keeps_spent_pure) (auto intro!: keeps_spent_rules second success)
  have "keeps_spent uid k (case found of None \<Rightarrow> abind (apure x) (\<lambda>_. reject_login ae inp e act i ip err)
      | Some u \<Rightarrow> authenticate_user ae inp e password code ip u)"
    if "spent uid k d" "user_get_by_email e' d = found" for found d e e' act i err and x :: "exn + bool"
    using that by (cases found) (auto intro!: keeps_spent_rules user dest: loaded_row(2))
  then show ?thesis unfolding authenticate_def Let_def
    by (intro keeps_spent_bind keeps_spent_stores) (auto intro!: keeps_spent_rules keeps_spent_read)
qed

lemma keeps_spent_refresh: "keeps_spent uid k (refresh ae inp token)"
proof -
  have "keeps_spent uid k (invalidate_sessions u r)" for u r
    unfolding invalidate_sessions_def
    by (intro keeps_spent_rules keeps_spent_change spent_update) (auto simp: spent_row_def)
  then show ?thesis unfolding refresh_def
    by (intro keeps_spent_bind [OF keeps_spent_pure] keeps_spent_read) (auto intro!: keeps_spent_rules)
qed

lemma keeps_spent_logout: "keeps_spent uid k (logout ae inp token)"
  unfolding logout_def by (auto intro!: keeps_spent_rules split: sum.split)

lemma keeps_spent_enrolment:
  "keeps_spent uid k (begin_totp_enrollment ae inp i)"
  "keeps_spent uid k (confirm_totp ae inp i code)"
  "i \<noteq> uid \<Longrightarrow> keeps_spent uid k (disable_totp ae inp i code)"
proof -
  show "keeps_spent uid k (begin_totp_enrollment ae inp i)"
    unfolding begin_totp_enrollment_def user_or_def
    by (rule keeps_spent_read)
      (auto intro!: keeps_spent_rules keeps_spent_change spent_update simp: spent_row_def split: option.splits)
  show "keeps_spent uid k (confirm_totp ae inp i code)"
    unfolding confirm_totp_def
    by (rule keeps_spent_read)
      (auto intro!: keeps_spent_rules keeps_spent_consume keeps_spent_change spent_update dest: loaded_row(1)
        simp: spent_row_def split: option.splits if_splits)
  show "keeps_spent uid k (disable_totp ae inp i code)" if "i \<noteq> uid"
    unfolding disable_totp_def user_or_def using that
    by (intro keeps_spent_read)
      (auto intro!: keeps_spent_rules keeps_spent_consume keeps_spent_change spent_update dest: loaded_row(1) split: option.splits)
qed

text \<open>
  Requests served one after the other, each in a session of its own: the operations of the
  authentication service, except that the user in question does not switch two-factor authentication
  off, and any other request, which leaves the table of users alone.
\<close>

inductive auth_request :: "auth \<Rightarrow> string \<Rightarrow> db \<times> stores \<Rightarrow> db \<times> stores \<Rightarrow> bool" for ae uid where
  registration: "with_session (at_dbms ae) (register ae inp email password) x = (r, y) \<Longrightarrow> auth_request ae uid x y"
| login: "with_session (at_dbms ae) (authenticate ae inp email password code ip) x = (r2, y) \<Longrightarrow> auth_request ae uid x y"
| exchange: "with_session (at_dbms ae) (refresh ae inp token) x = (r2, y) \<Longrightarrow> auth_request ae uid x y"
| leave: "with_session (at_dbms ae) (logout ae inp token) x = (r3, y) \<Longrightarrow> auth_request ae uid x y"
| enrolment: "with_session (at_dbms ae) (begin_totp_enrollment ae inp i) x = (r4, y) \<Longrightarrow> auth_request ae uid x y"
| confirmation: "with_session (at_dbms ae) (confirm_totp ae inp i code') x = (r3, y) \<Longrightarrow> auth_request ae uid x y"
| removal: "with_session (at_dbms ae) (disable_totp ae inp i code') x = (r3, y) \<Longrightarrow> i \<noteq> uid \<Longrightarrow> auth_request ae uid x y"
| others: "db_users (fst y) = db_users (fst x) \<Longrightarrow> auth_request ae uid x y"

lemma session_spent:
  assumes "keeps_spent uid k m" and "with_session dm m x = (r, y)" and "spent uid k (fst x)"
  shows "spent uid k (fst y)"
proof -
  obtain d st where x: "x = (d, st)" by fastforce
  obtain r' s' st' where m: "m (\<lparr>ss_committed = d, ss_work = d\<rparr>, st) = (r', (s', st'))" by (metis surj_pair)
  then have "spent uid k (ss_work s') \<and> spent uid k (ss_committed s')" using keeps_spentD [OF assms(1) m] assms(3) x by simp
  then show ?thesis
    using assms(2) m by (cases r') (auto simp: x with_session_def session_commit_def session_rollback_def)
qed

lemma request_spent:
  assumes "auth_request ae uid x y" and "spent uid k (fst x)"
  shows "spent uid k (fst y)"
  using assms(1)
proof cases
  case registration
  then show ?thesis using session_spent [OF keeps_spent_register] assms(2) by blast
next
  case login
  then show ?thesis using session_spent [OF keeps_spent_authenticate] assms(2) by blast
next
  case exchange
  then show ?thesis using session_spent [OF keeps_spent_refresh] assms(2) by blast
next
  case leave
  then show ?thesis using session_spent [OF keeps_spent_logout] assms(2) by blast
next
  case enrolment
  then show ?thesis using session_spent [OF keeps_spent_enrolment(1)] assms(2) by blast
next
  case confirmation
  then show ?thesis using session_spent [OF keeps_spent_enrolment(2)] assms(2) by blast
next
  case removal
  then show ?thesis using session_spent [OF keeps_spent_enrolment(3)] assms(2) by blast
next
  case others
  then show ?thesis using assms(2) spent_users by blast
qed

lemma requests_spent: "(auth_request ae uid)\<^sup>*\<^sup>* x y \<Longrightarrow> spent uid k (fst x) \<Longrightarrow> spent uid k (fst y)"
  by (induction rule: rtranclp_induct) (auto dest: request_spent)

lemma login_spends:
  assumes run: "authenticate ae inp email password code ip (s, (th, js)) = (Inr tp, (s', st'))"
    and u: "user_get_by_email (py_lower email) (ss_work s) = Some u" "us_totp_enabled u"
    and ids: "distinct (map us_id (db_users (ss_work s)))"
  shows "\<exists>c k. code = Some c \<and> totp_accepts ae inp u c k \<and> spent (us_id u) k (ss_work s')"
proof -
  let ?th = "snd (is_locked (ai_mono inp) (py_lower email) th)"
  have ok: "\<not> fst (is_locked (ai_mono inp) (py_lower email) th)" "hasher_verify (at_argon ae) (us_password_hash u) password = Inr True"
    "us_is_active u" "second_factor_ok ae inp u code"
    using login_ok_iff [of ae inp email password code ip s th js tp] run u(1) by auto
  then obtain c cs where c: "code = Some (c # cs)" using u(2) by (auto simp: second_factor_ok_def split: option.splits list.splits)
  show ?thesis
  proof (cases rule: consume_totp_cases [of ae inp u "c # cs" s "(?th, js)"])
    case (accepted k)
    let ?s1 = "s\<lparr>ss_work := user_update (us_id u) (\<lambda>v. v\<lparr>us_totp_last_counter := Some k\<rparr>) (ss_work s)\<rparr>"
    have mem: "u \<in> set (db_users (ss_work s))" using u(1) by (auto simp: user_get_by_email_def find_Some_iff)
    then have "v = u" if "v \<in> set (db_users (ss_work s))" "us_id v = us_id u" for v
      using ids that by (auto simp: distinct_map inj_on_def)
    then have on: "us_totp_enabled v" if "v \<in> set (db_users (ss_work s))" "us_id v = us_id u" for v using that u(2) by blast
    then have s1: "spent (us_id u) k (ss_work ?s1)"
      using u(2) mem update_ids [of "\<lambda>v. v\<lparr>us_totp_last_counter := Some k\<rparr>" "us_id u" "ss_work s"]
      unfolding spent_def by (auto simp: user_update_def spent_row_def split: if_splits)
    have "second_factor ae inp (py_lower email) code ip u (s, (?th, js)) = (Inr (), (?s1, (?th, js)))"
      using accepted(2) u(2) c by (simp add: second_factor_def)
    then have l: "login_success ae inp (py_lower email) password ip u (?s1, (?th, js)) = (Inr tp, (s', st'))"
      using run u(1) ok by (simp add: authenticate_def authenticate_user_def Let_def abind_def apure_def)
    have "spent (us_id u) k (ss_work (fst (snd (login_success ae inp (py_lower email) password ip u (?s1, (?th, js))))))"
      using s1 by (auto simp: login_success_def abind_def apure_def spent_row_def intro!: spent_update)
    then show ?thesis using accepted(1) c l by auto
  next
    case (refused e)
    then show ?thesis using ok(4) u(2) c by (auto simp: second_factor_ok_def)
  qed
qed



text \<open>C22: the second factor guards itself: with two-factor authentication on, enrolment cannot be restarted,
  and it is switched off only by a code the current secret accepts; a refused attempt changes
  nothing in the user's record.\<close>

theorem two_factor_guarded:
  assumes "user_get uid (ss_work s) = Some u" and "us_totp_enabled u" and "us_totp_secret_enc u = Some (c # cs)"
  shows "(\<exists>e. begin_totp_enrollment ae inp uid (s, y) = (Inl e, (s, y)) \<and> is_app ConflictError e)
     \<and> (is_ok (fst (disable_totp ae inp uid code (s, y))) \<longleftrightarrow> (\<exists>k. totp_accepts ae inp u code k))
     \<and> (is_ok (fst (disable_totp ae inp uid code (s, y))) \<or> snd (disable_totp ae inp uid code (s, y)) = (s, y))"
  using assms
  by (cases rule: consume_totp_cases [of ae inp u code s y])
    (auto simp: begin_totp_enrollment_def disable_totp_def user_or_def abind_def apure_def)

theorem two_factor_guarded_witness:
  "\<exists>e. begin_totp_enrollment ex_auth (ex_auth_inputs 60) ''u1'' (ex_session ex_user_db, ex_stores) = (Inl e, (ex_session ex_user_db, ex_stores))"
proof -
  have "user_get ''u1'' (ss_work (ex_session ex_user_db)) = Some ex_user" "us_totp_enabled ex_user"
    "us_totp_secret_enc ex_user = Some (CHR ''k'' # ''kt'' @ ''base32'')"
    by (simp_all add: user_get_def ex_session_def ex_user_db_def ex_user_def ex_seal_def)
  from two_factor_guarded [OF this] show ?thesis by blast
qed

section \<open>Refresh tokens\<close>

definition refresh_token :: "auth \<Rightarrow> string \<Rightarrow> string \<Rightarrow> string \<Rightarrow> int \<Rightarrow> rat \<Rightarrow> rat \<Rightarrow> string" where
  "refresh_token ae sub role j gen iat ex =
     jw_encode (at_jwt ae) (token_payload sub role Refresh j gen iat ex) (tv_secret (at_tokens ae)) (tv_algorithm (at_tokens ae))"

definition claims_of :: "string \<Rightarrow> string \<Rightarrow> string \<Rightarrow> int \<Rightarrow> rat \<Rightarrow> rat \<Rightarrow> token_claims" where
  "claims_of sub role j gen iat ex = \<lparr>tc_subject = sub, tc_role = role, tc_token_type = ''refresh'', tc_jti = j,
     tc_expires_at = of_int (trunc ex), tc_issued_at = of_int (trunc iat), tc_generation = gen\<rparr>"

lemma decode_refresh_token:
  assumes "jwt_laws (at_jwt ae)"
  shows "decode_token (at_jwt ae) (at_tokens ae) now (refresh_token ae sub role j gen iat ex) (Some Refresh) =
     (if of_int (trunc ex) \<le> now then Inl (invalid_token ''Token has expired.'')
      else if now < of_int (trunc iat) then Inl (invalid_token ''Token is invalid.'')
      else Inr (claims_of sub role j gen iat ex))"
  unfolding refresh_token_def decode_encoded [OF assms] by (simp add: claims_of_def)

lemma refresh_cases:
  assumes "jwt_laws (at_jwt ae)"
  obtains (undecodable) e where "refresh ae inp (refresh_token ae sub role j gen iat ex) (s, (th, js)) = (Inl e, (s, (th, js)))"
      "of_int (trunc ex) \<le> ai_now inp \<or> ai_now inp < of_int (trunc iat)"
  | (inactive) e where "refresh ae inp (refresh_token ae sub role j gen iat ex) (s, (th, js)) = (Inl e, (s, (th, js)))"
      "\<forall>u. user_get sub (ss_work s) = Some u \<longrightarrow> \<not> us_is_active u"
  | (reused) u s' where "user_get sub (ss_work s) = Some u" "us_is_active u" "fst (is_revoked (ai_mono inp) j js)"
      "refresh ae inp (refresh_token ae sub role j gen iat ex) (s, (th, js)) =
         (Inl (auth_error ''This refresh token has been revoked.''), (s', (th, js)))"
      "ss_committed s' = store_db (at_dbms ae) (audit_record ''auth.sessions_invalidated'' (Some (us_id u)) None [(''reason'', VStr ''refresh_token_reuse'')]
         (user_update (us_id u) (\<lambda>v. v\<lparr>us_token_generation := us_token_generation v + 1\<rparr>) (ss_work s)))"
  | (outdated) u e where "user_get sub (ss_work s) = Some u" "us_is_active u" "\<not> fst (is_revoked (ai_mono inp) j js)"
      "gen < us_token_generation u"
      "refresh ae inp (refresh_token ae sub role j gen iat ex) (s, (th, js)) = (Inl e, (s, (th, snd (is_revoked (ai_mono inp) j js))))"
  | (rotated) u where "user_get sub (ss_work s) = Some u" "us_is_active u" "\<not> fst (is_revoked (ai_mono inp) j js)"
      "us_token_generation u \<le> gen"
      "refresh ae inp (refresh_token ae sub role j gen iat ex) (s, (th, js)) =
         (Inr (issue_pair (at_jwt ae) (at_tokens ae) (ai_now inp) (ai_jtis inp) (us_id u) (us_role u) (us_token_generation u)),
          (s, (th, revoke (ai_mono inp) j (remaining_ttl (ai_now inp) (of_int (trunc ex))) (snd (is_revoked (ai_mono inp) j js)))))"
proof (cases "of_int (trunc ex) \<le> ai_now inp \<or> ai_now inp < of_int (trunc iat)")
  case True
  then obtain e where "decode_token (at_jwt ae) (at_tokens ae) (ai_now inp) (refresh_token ae sub role j gen iat ex) (Some Refresh) = Inl e"
    by (cases "of_int (trunc ex) \<le> ai_now inp") (auto simp: decode_refresh_token [OF assms])
  with True show ?thesis by (intro undecodable [of e]) (simp_all add: refresh_def)
next
  case False
  note dec = False
  then have d: "decode_token (at_jwt ae) (at_tokens ae) (ai_now inp) (refresh_token ae sub role j gen iat ex) (Some Refresh) = Inr (claims_of sub role j gen iat ex)"
    by (simp add: decode_refresh_token [OF assms])
  show ?thesis
  proof (cases "\<exists>u. user_get sub (ss_work s) = Some u \<and> us_is_active u")
    case True
    then obtain u where u: "user_get sub (ss_work s) = Some u" "us_is_active u" by auto
    have rv: "fst (is_revoked (ai_mono inp) j js) \<Longrightarrow> snd (is_revoked (ai_mono inp) j js) = js"
      by (auto simp: is_revoked_def split: option.splits if_splits)
    show ?thesis
    proof (cases "fst (is_revoked (ai_mono inp) j js)")
      case True
      then show ?thesis using u rv d
        by (intro reused [of u]) (auto simp: refresh_def claims_of_def abind_def invalidate_sessions_def apure_def session_commit_def)
    next
      case False
      then show ?thesis
      proof (cases "gen < us_token_generation u")
        case True
        then show ?thesis using u d False
          by (intro outdated [of u]) (auto simp: refresh_def claims_of_def abind_def apure_def)
      next
        case current: False
        then show ?thesis using u d False
          by (intro rotated [of u]) (auto simp: refresh_def claims_of_def abind_def apure_def)
      qed
    qed
  next
    case False
    then show ?thesis using d by (cases "user_get sub (ss_work s)")
        (auto simp: refresh_def claims_of_def abind_def apure_def intro!: inactive)
  qed
qed

lemma is_revoked_wf: "dict_wf js \<Longrightarrow> dict_wf (snd (is_revoked t j js))"
  by (auto simp: is_revoked_def split: option.splits)

text \<open>A refresh token is exchanged at most once: after a successful exchange, a second one with the same
  token fails, whatever other tokens are revoked or queried in between and whoever asks, during the
  whole seconds of the token's remaining lifetime.\<close>

theorem refresh_token_single_use:
  assumes "jwt_laws (at_jwt ae)"
    and "refresh ae inp (refresh_token ae sub role j gen iat ex) (s, (th, js)) = (Inr tp, (s', (th', js')))" and "dict_wf js"
    and "\<forall>e \<in> set es. fst e \<le> ai_mono inp2 \<and> (fst (snd e) \<noteq> j \<or> snd (snd e) = None)"
    and "ai_mono inp2 < fadd (ai_mono inp) (of_int (remaining_ttl (ai_now inp) (of_int (trunc ex))))"
  shows "\<not> is_ok (fst (refresh ae inp2 (refresh_token ae sub role j gen iat ex) (s2, (th2, jti.run es js'))))"
proof -
  let ?ttl = "remaining_ttl (ai_now inp) (of_int (trunc ex))"
  let ?js = "snd (is_revoked (ai_mono inp) j js)"
  have js': "js' = revoke (ai_mono inp) j ?ttl ?js"
    by (cases rule: refresh_cases [OF assms(1), of inp sub role j gen iat ex s th js]) (use assms(2) in auto)
  have "max ?ttl 1 = ?ttl" by (simp add: remaining_ttl_def)
  then have r: "fst (is_revoked (ai_mono inp2) j (jti.run es js'))"
    using jti.revoked_until [OF is_revoked_wf [OF assms(3)] assms(4), of "ai_mono inp" ?ttl] assms(5) js' by simp
  show ?thesis
    by (cases rule: refresh_cases [OF assms(1), of inp2 sub role j gen iat ex s2 th2 "jti.run es js'"]) (use r in auto)
qed

theorem refresh_token_single_use_witness:
  "\<exists>tp s' th' js'. refresh ex_auth (ex_auth_inputs 5) (refresh_token ex_auth ''u1'' ''trader'' ''j0'' 0 1 50) (ex_session ex_user_db, ex_stores) = (Inr tp, (s', (th', js')))
     \<and> \<not> is_ok (fst (refresh ex_auth (ex_auth_inputs 20) (refresh_token ex_auth ''u1'' ''trader'' ''j0'' 0 1 50) (s', (th', js'))))"
proof -
  let ?run = "refresh ex_auth (ex_auth_inputs 5) (refresh_token ex_auth ''u1'' ''trader'' ''j0'' 0 1 50) (ex_session ex_user_db, (new_throttle 5 300, []))"
  have "is_ok (fst ?run)" by code_simp
  then obtain tp s' th' js' where run: "?run = (Inr tp, (s', (th', js')))" by (metis is_ok_iff prod.collapse)
  have t: "ai_mono (ex_auth_inputs 20) < fadd (ai_mono (ex_auth_inputs 5)) (of_int (remaining_ttl (ai_now (ex_auth_inputs 5)) (of_int (trunc 50))))"
    by code_simp
  have "jwt_laws (at_jwt ex_auth)" by (simp add: ex_jwt_laws)
  from refresh_token_single_use [OF this run _ _ t, of "[]" s' th'] run show ?thesis by (auto simp: ex_stores_def)
qed

text \<open>
  The lifetime is cut to whole seconds (\<^verbatim>\<open>_remaining_ttl\<close>), so that the revocation ends before the token
  does: a token that expires at 50 and is exchanged at 5.5 is exchanged once more at 49.75.
\<close>

theorem truncated_lifetime_exchanges_twice:
  "\<exists>tp x tp2 y. refresh ex_auth (ex_auth_inputs (11 / 2)) (refresh_token ex_auth ''u1'' ''trader'' ''j0'' 0 1 50) (ex_session ex_user_db, ex_stores) = (Inr tp, x)
     \<and> refresh ex_auth (ex_auth_inputs (199 / 4)) (refresh_token ex_auth ''u1'' ''trader'' ''j0'' 0 1 50) x = (Inr tp2, y)"
proof -
  let ?run = "refresh ex_auth (ex_auth_inputs (11 / 2)) (refresh_token ex_auth ''u1'' ''trader'' ''j0'' 0 1 50) (ex_session ex_user_db, ex_stores)"
  have "is_ok (fst ?run)"
    "is_ok (fst (refresh ex_auth (ex_auth_inputs (199 / 4)) (refresh_token ex_auth ''u1'' ''trader'' ''j0'' 0 1 50) (snd ?run)))" by code_simp+
  then show ?thesis by (metis is_ok_iff prod.collapse)
qed



section \<open>Registration\<close>



end
