(* ===== verification/Api_Properties.thy ===== *)
theory Api_Properties
  imports Api Trading_Properties Auth_Properties
begin

text \<open>
  Properties of the whole interface: calls that are not permitted have no effect, and a permitted call
  touches nothing of another tenant.
\<close>

section \<open>Authorisation\<close>

definition permitted :: "'x api \<Rightarrow> api_inputs \<Rightarrow> request \<Rightarrow> api_call \<Rightarrow> bool" where
  "permitted av inp req c =
     (access_of c = Public \<or>
      (case av_bearer av req of
         None \<Rightarrow> False
       | Some token \<Rightarrow>
           (case get_current_user av (ai_now (in_auth inp)) token of
              Inl _ \<Rightarrow> False
            | Inr user \<Rightarrow> (case access_of c of Needs p \<Rightarrow> has_permission (cu_role user) p | _ \<Rightarrow> True))))"

definition outcome_status :: "exn + response \<Rightarrow> int" where
  "outcome_status r = (case r of Inl e \<Rightarrow> resp_status (handle_exception e) | Inr resp \<Rightarrow> resp_status resp)"

lemma status_is_error: "400 \<le> status_code c"
  by (cases c) simp_all

lemma exception_is_error: "400 \<le> resp_status (handle_exception e)"
  by (cases e) (simp_all add: handle_exception_def handle_app_error_def handle_unexpected_def status_is_error)

lemma unauthorised_no_effect:
  assumes "\<not> permitted av inp req c" and "400 \<le> av_bearer_status av"
  shows "snd (handle_call av inp req c s) = s \<and> 400 \<le> outcome_status (fst (handle_call av inp req c s))
    \<and> (case av_bearer av req of
         Some token \<Rightarrow> (case get_current_user av (ai_now (in_auth inp)) token of
             Inr user \<Rightarrow> outcome_status (fst (handle_call av inp req c s)) = 403 | Inl e \<Rightarrow> fst (handle_call av inp req c s) = Inl e)
       | None \<Rightarrow> outcome_status (fst (handle_call av inp req c s)) = av_bearer_status av)"
proof -
  have acc: "access_of c \<noteq> Public" using assms(1) by (simp add: permitted_def)
  show ?thesis
  proof (cases "av_bearer av req")
    case None
    then show ?thesis using acc assms(2)
      by (cases "access_of c") (auto simp: handle_call_def resolve_caller_def outcome_status_def handle_http_def apure_def)
  next
    case (Some token)
    show ?thesis
    proof (cases "get_current_user av (ai_now (in_auth inp)) token")
      case (Inl e)
      then show ?thesis using Some acc exception_is_error [of e]
        by (cases "access_of c") (auto simp: handle_call_def resolve_caller_def outcome_status_def apure_def)
    next
      case (Inr user)
      then obtain p where "access_of c = Needs p" "\<not> has_permission (cu_role user) p"
        using Some assms(1) by (auto simp: permitted_def split: access.splits)
      then show ?thesis using Some Inr
        by (simp add: handle_call_def resolve_caller_def require_def outcome_status_def handle_exception_def handle_app_error_def apure_def)
    qed
  qed
qed

section \<open>Tenants\<close>

text \<open>Orders and accounts have unique identifiers, and an order belongs to the owner of its account.\<close>

definition tenants_ok :: "db \<Rightarrow> bool" where
  "tenants_ok d \<longleftrightarrow> distinct (map or_id (db_orders d)) \<and> distinct (map ac_id (db_accounts d))
     \<and> list_all (\<lambda>r. list_all (\<lambda>a. ac_id a = or_account_id r \<longrightarrow> ac_user_id a = or_user_id r) (db_accounts d)) (db_orders d)"

definition foreign_ids :: "string \<Rightarrow> db \<Rightarrow> string list" where
  "foreign_ids u d = map ac_id (filter (\<lambda>a. ac_user_id a \<noteq> u) (db_accounts d))"

text \<open>Everything that belongs to the other users.\<close>

definition foreign :: "string \<Rightarrow> db \<Rightarrow> user_row list \<times> account_row list \<times> order_row list \<times> balance_row list" where
  "foreign u d = (filter (\<lambda>v. us_id v \<noteq> u) (db_users d), filter (\<lambda>a. ac_user_id a \<noteq> u) (db_accounts d),
     filter (\<lambda>r. or_user_id r \<noteq> u) (db_orders d), filter (\<lambda>r. br_account_id r \<in> set (foreign_ids u d)) (db_balances d))"

definition tenant_step :: "string \<Rightarrow> db \<Rightarrow> db \<Rightarrow> bool" where
  "tenant_step u d d' \<longleftrightarrow> tenants_ok d' \<and> foreign u d' = foreign u d"

lemma tenant_step_refl: "tenants_ok d \<Longrightarrow> tenant_step u d d"
  by (simp add: tenant_step_def)

lemma tenant_step_trans: "tenant_step u d d' \<Longrightarrow> (tenants_ok d' \<Longrightarrow> tenant_step u d' d'') \<Longrightarrow> tenant_step u d d''"
  by (simp add: tenant_step_def)

lemma tenant_audit: "tenants_ok d \<Longrightarrow> tenant_step u d (audit_record act v ip det d)"
  by (simp add: tenant_step_def tenants_ok_def foreign_def foreign_ids_def audit_record_def)

lemma tenant_user_update: "(\<And>v. us_id (f v) = us_id v) \<Longrightarrow> tenants_ok d \<Longrightarrow> tenant_step u d (user_update u f d)"
proof -
  assume f: "\<And>v. us_id (f v) = us_id v" and ok: "tenants_ok d"
  have "filter (\<lambda>v. us_id v \<noteq> u) (map (\<lambda>v. if us_id v = u then f v else v) vs) = filter (\<lambda>v. us_id v \<noteq> u) vs" for vs
    using f by (induction vs) auto
  then show ?thesis using ok by (simp add: tenant_step_def tenants_ok_def foreign_def foreign_ids_def user_update_def)
qed

lemma foreign_eqI:
  assumes "filter (\<lambda>v. us_id v \<noteq> u) (db_users d') = filter (\<lambda>v. us_id v \<noteq> u) (db_users d)"
    and "filter (\<lambda>a. ac_user_id a \<noteq> u) (db_accounts d') = filter (\<lambda>a. ac_user_id a \<noteq> u) (db_accounts d)"
    and "filter (\<lambda>r. or_user_id r \<noteq> u) (db_orders d') = filter (\<lambda>r. or_user_id r \<noteq> u) (db_orders d)"
    and "filter (\<lambda>r. br_account_id r \<in> set (foreign_ids u d)) (db_balances d') = filter (\<lambda>r. br_account_id r \<in> set (foreign_ids u d)) (db_balances d)"
  shows "foreign u d' = foreign u d"
proof -
  have "foreign_ids u d' = foreign_ids u d" by (simp add: foreign_ids_def assms(2))
  then show ?thesis by (simp add: foreign_def assms)
qed

lemma tenants_unique:
  assumes "tenants_ok d"
  shows "a \<in> set (db_accounts d) \<Longrightarrow> b \<in> set (db_accounts d) \<Longrightarrow> ac_id b = ac_id a \<Longrightarrow> b = a"
    and "r \<in> set (db_orders d) \<Longrightarrow> q \<in> set (db_orders d) \<Longrightarrow> or_id q = or_id r \<Longrightarrow> q = r"
    and "r \<in> set (db_orders d) \<Longrightarrow> a \<in> set (db_accounts d) \<Longrightarrow> ac_id a = or_account_id r \<Longrightarrow> ac_user_id a = or_user_id r"
  using assms by (auto simp: tenants_ok_def distinct_map list_all_iff dest: inj_onD)

lemma not_foreign:
  "tenants_ok d \<Longrightarrow> a \<in> set (db_accounts d) \<Longrightarrow> ac_user_id a = u \<Longrightarrow> ac_id a \<notin> set (foreign_ids u d)"
  using tenants_unique(1) by (fastforce simp: foreign_ids_def)

lemma tenant_order_add:
  assumes "tenants_ok d" "or_user_id r = u" "a \<in> set (db_accounts d)" "ac_id a = or_account_id r" "ac_user_id a = u"
  shows "tenant_step u d (snd (order_add r d))"
proof (cases "\<exists>q \<in> set (db_orders d). or_id q = or_id r")
  case False
  have "\<forall>b \<in> set (db_accounts d). ac_id b = or_account_id r \<longrightarrow> ac_user_id b = u"
    using assms tenants_unique(1) [OF assms(1,3)] by metis
  then have "tenants_ok (snd (order_add r d))"
    using assms(1,2) False by (auto simp: tenants_ok_def order_add_def list_all_iff)
  moreover have "foreign u (snd (order_add r d)) = foreign u d"
    using assms(2) False by (intro foreign_eqI) (simp_all add: order_add_def)
  ultimately show ?thesis by (simp add: tenant_step_def)
qed (use assms in \<open>simp add: order_add_def tenant_step_refl\<close>)

lemma tenant_order_status:
  assumes "tenants_ok d" "r \<in> set (db_orders d)" "or_id r = oid" "or_user_id r = u"
  shows "tenant_step u d (order_update oid (\<lambda>q. q\<lparr>or_status := st\<rparr>) d)"
proof -
  have own: "\<forall>q \<in> set (db_orders d). or_id q = oid \<longrightarrow> or_user_id q = u"
    using assms tenants_unique(2) [OF assms(1,2)] by metis
  let ?f = "\<lambda>q :: order_row. if or_id q = oid then q\<lparr>or_status := st\<rparr> else q"
  have "tenants_ok (order_update oid (\<lambda>q. q\<lparr>or_status := st\<rparr>) d)"
  proof -
    have "(or_id :: order_row \<Rightarrow> string) \<circ> ?f = or_id" by (rule ext) simp
    then show ?thesis using assms(1) unfolding tenants_ok_def order_update_def by (auto simp: list_all_iff)
  qed
  moreover have "filter (\<lambda>q. or_user_id q \<noteq> u) (map ?f qs) = filter (\<lambda>q. or_user_id q \<noteq> u) qs"
    if "\<forall>q \<in> set qs. or_id q = oid \<longrightarrow> or_user_id q = u" for qs
    using that by (induction qs) auto
  then have "foreign u (order_update oid (\<lambda>q. q\<lparr>or_status := st\<rparr>) d) = foreign u d"
    using own by (intro foreign_eqI) (simp_all add: order_update_def)
  ultimately show ?thesis by (simp add: tenant_step_def)
qed

lemma tenant_save:
  assumes "tenants_ok d" "aid \<notin> set (foreign_ids u d)"
  shows "tenant_step u d (save_ledger aid lg d)"
proof -
  have "foreign u (save_ledger aid lg d) = foreign u d"
    using assms(2)
    by (intro foreign_eqI filter_coarser [of "\<lambda>r. br_account_id r \<in> set (foreign_ids u d)" "\<lambda>r. br_account_id r \<noteq> aid"])
      (auto simp: save_ledger_def save_fold_other)
  then show ?thesis using assms(1) by (simp add: tenant_step_def tenants_ok_def save_ledger_def)
qed

lemma tenant_account_add:
  assumes "tenants_ok d" "ac_user_id a = u" "ac_id a \<notin> or_account_id ` set (db_orders d)"
  shows "tenant_step u d (snd (account_add a d))"
proof (cases "\<exists>b \<in> set (db_accounts d). ac_id b = ac_id a \<or>
            ac_user_id b = ac_user_id a \<and> ac_exchange_id b = ac_exchange_id a \<and> ac_label b = ac_label a")
  case False
  then have d: "snd (account_add a d) = d\<lparr>db_accounts := db_accounts d @ [a]\<rparr>" by (auto simp: account_add_def)
  have "tenants_ok (snd (account_add a d))"
    using assms(1,3) False unfolding d tenants_ok_def list_all_iff by (auto simp: image_iff)
  moreover have "foreign u (snd (account_add a d)) = foreign u d"
    unfolding d using assms(2) by (intro foreign_eqI) simp_all
  ultimately show ?thesis by (simp add: tenant_step_def)
next
  case True
  then have "snd (account_add a d) = d" by (auto simp: account_add_def)
  then show ?thesis using assms(1) by (simp add: tenant_step_refl)
qed

lemma tenant_account_delete:
  assumes "tenants_ok d" "a \<in> set (db_accounts d)" "ac_user_id a = u"
  shows "tenant_step u d (account_delete dm a d)"
proof -
  have own: "\<forall>b \<in> set (db_accounts d). ac_id b = ac_id a \<longrightarrow> ac_user_id b = u"
    using tenants_unique(1) [OF assms(1,2)] assms(3) by metis
  have ord: "\<forall>r \<in> set (db_orders d). or_account_id r = ac_id a \<longrightarrow> or_user_id r = u"
    using tenants_unique(3) [OF assms(1) _ assms(2)] assms(3) by metis
  have "tenants_ok (account_delete dm a d)"
    using assms(1) by (auto simp: tenants_ok_def account_delete_def Let_def list_all_iff distinct_map_filter)
  moreover have "foreign u (account_delete dm a d) = foreign u d"
    using own ord not_foreign [OF assms] by (intro foreign_eqI) (auto simp: account_delete_def Let_def intro!: filter_cong)
  ultimately show ?thesis by (simp add: tenant_step_def)
qed

section \<open>Requests of a tenant\<close>

text \<open>An action of a session, started where \<open>P\<close> holds, stays within what belongs to user \<open>u\<close> and commits nothing.\<close>

definition acts_for :: "(db \<Rightarrow> bool) \<Rightarrow> string \<Rightarrow> (session \<times> 'y, exn, 'a) action \<Rightarrow> bool" where
  "acts_for P u act \<longleftrightarrow> (\<forall>s y. tenants_ok (ss_work s) \<longrightarrow> P (ss_work s) \<longrightarrow>
     tenant_step u (ss_work s) (ss_work (fst (snd (act (s, y))))) \<and> ss_committed (fst (snd (act (s, y)))) = ss_committed s)"

named_theorems acting \<open>actions confined to a tenant\<close>

lemma acts_for_pure [acting]: "acts_for P u (apure r)"
  by (simp add: acts_for_def tenant_step_refl)

lemma acts_for_same: "(\<And>s y. fst (snd (act (s, y))) = s) \<Longrightarrow> acts_for P u act"
  by (simp add: acts_for_def tenant_step_refl)

lemma acts_for_lift [acting]: "acts_for P u (lift_body act)"
  by (rule acts_for_same) simp

lemma acts_for_read [acting]: "acts_for P u (read_work f)"
  by (rule acts_for_same) (simp add: read_work_def on_work_def)

lemma acts_for_change: "(\<And>d. tenants_ok d \<Longrightarrow> P d \<Longrightarrow> tenant_step u d (f d)) \<Longrightarrow> acts_for P u (change_work f)"
  by (simp add: acts_for_def change_work_def on_work_def)

lemma acts_for_work: "(\<And>d. tenants_ok d \<Longrightarrow> P d \<Longrightarrow> tenant_step u d (snd (act d))) \<Longrightarrow> acts_for P u (on_work act)"
  by (auto simp: acts_for_def on_work_def split: prod.splits) (metis snd_conv)

lemma acts_for_audit [acting]: "acts_for P u (change_work (audit_record act v ip det))"
  by (rule acts_for_change) (rule tenant_audit)

lemma acts_for_bind:
  assumes "acts_for P u m" "\<And>a. acts_for (\<lambda>_. True) u (f a)"
  shows "acts_for P u (abind m f)"
  unfolding acts_for_def
proof (intro allI impI)
  fix s :: session and y assume ok: "tenants_ok (ss_work s)" "P (ss_work s)"
  show "tenant_step u (ss_work s) (ss_work (fst (snd (abind m f (s, y))))) \<and> ss_committed (fst (snd (abind m f (s, y)))) = ss_committed s"
  proof (cases rule: abind_cases [of m "(s, y)" f])
    case (fails e st)
    then show ?thesis using assms(1) ok unfolding acts_for_def by (metis snd_conv)
  next
    case (runs a st)
    obtain s1 y1 where st: "st = (s1, y1)" by fastforce
    have 1: "tenant_step u (ss_work s) (ss_work s1)" "ss_committed s1 = ss_committed s"
      using assms(1) ok runs(1) st unfolding acts_for_def by (metis fst_conv snd_conv)+
    then have "tenants_ok (ss_work s1)" by (simp add: tenant_step_def)
    then show ?thesis using assms(2) [of a] 1 runs(2) st unfolding acts_for_def by (metis tenant_step_trans)
  qed
qed

text \<open>A first step that leaves the session alone hands its precondition on.\<close>

lemma acts_for_bind_same:
  assumes "\<And>s y. fst (snd (m (s, y))) = s" "\<And>a. acts_for P u (f a)"
  shows "acts_for P u (abind m f)"
  unfolding acts_for_def
proof (intro allI impI)
  fix s :: session and y assume ok: "tenants_ok (ss_work s)" "P (ss_work s)"
  show "tenant_step u (ss_work s) (ss_work (fst (snd (abind m f (s, y))))) \<and> ss_committed (fst (snd (abind m f (s, y)))) = ss_committed s"
  proof (cases rule: abind_cases [of m "(s, y)" f])
    case (fails e st)
    then show ?thesis using assms(1) [of s y] ok by (simp add: tenant_step_refl)
  next
    case (runs a st)
    then have "fst st = s" using assms(1) [of s y] by simp
    then show ?thesis using assms(2) [of a] ok runs(2) unfolding acts_for_def by (metis prod.collapse)
  qed
qed

lemma acts_for_bind_pure: "(\<And>a. acts_for P u (f a)) \<Longrightarrow> acts_for P u (abind (apure r) f)"
  by (rule acts_for_bind_same) auto

lemma acts_for_bind_lift: "(\<And>a. acts_for P u (f a)) \<Longrightarrow> acts_for P u (abind (lift_body act) f)"
  by (rule acts_for_bind_same) auto

lemma acts_for_bind_read:
  assumes "\<And>d a. f d = Inr a \<Longrightarrow> acts_for (\<lambda>d'. P d' \<and> d' = d) u (g a)"
  shows "acts_for P u (abind (read_work f) g)"
  unfolding acts_for_def
proof (intro allI impI)
  fix s :: session and y assume ok: "tenants_ok (ss_work s)" "P (ss_work s)"
  show "tenant_step u (ss_work s) (ss_work (fst (snd (abind (read_work f) g (s, y))))) \<and> ss_committed (fst (snd (abind (read_work f) g (s, y)))) = ss_committed s"
    using assms [of "ss_work s"] ok
    by (cases "f (ss_work s)") (auto simp: abind_def read_work_def on_work_def tenant_step_refl acts_for_def)
qed

lemma acts_for_session:
  fixes body :: "adapter \<Rightarrow> ('x body_state, exn, 'a) action"
  assumes "\<And>ad. acts_for (\<lambda>d'. d' = d) u (body ad)" "a \<in> set (db_accounts d)" "ac_user_id a = u"
  shows "acts_for (\<lambda>d'. d' = d) u (adapter_session ap a persist body)"
  unfolding acts_for_def
proof (intro allI impI)
  fix s :: session and y :: "'x net" assume ok: "tenants_ok (ss_work s)" "ss_work s = d"
  obtain bs x where y: "y = (bs, x)" by fastforce
  have b: "tenant_step u d (ss_work s') \<and> ss_committed s' = ss_committed s" if "body ad (s, st) = (r, (s', st'))" for ad st r s' st'
    using assms(1) [of ad] ok that unfolding acts_for_def by (metis fst_conv snd_conv)
  have nf: "ac_id a \<notin> set (foreign_ids u d)" using not_foreign assms(2,3) ok by blast
  have sv: "tenant_step u d (save_ledger (ac_id a) lg d')" if "tenant_step u d d'" for d' lg
  proof (rule tenant_step_trans [OF that])
    have "foreign_ids u d' = foreign_ids u d" using that by (simp add: tenant_step_def foreign_def foreign_ids_def)
    then show "tenants_ok d' \<Longrightarrow> tenant_step u d' (save_ledger (ac_id a) lg d')" using nf by (simp add: tenant_save)
  qed
  show "tenant_step u (ss_work s) (ss_work (fst (snd (adapter_session ap a persist body (s, y)))))
      \<and> ss_committed (fst (snd (adapter_session ap a persist body (s, y)))) = ss_committed s"
    using ok y sv by (auto simp: adapter_session_def tenant_step_refl dest!: b split: sum.splits prod.splits)
qed

text \<open>Every operation of the services that a caller can reach.\<close>

lemma owned_account: "account_get_for_user aid u d = Some a \<Longrightarrow> a \<in> set (db_accounts d) \<and> ac_id a = aid \<and> ac_user_id a = u"
  by (auto simp: account_get_for_user_def dest!: find_SomeD)

lemma acts_for_with_account:
  assumes "\<And>d a. a \<in> set (db_accounts d) \<Longrightarrow> ac_user_id a = u \<Longrightarrow> ac_id a = aid \<Longrightarrow> acts_for (\<lambda>d'. P d' \<and> d' = d) u (g a)"
  shows "acts_for P u (abind (get_account aid u) g)"
  unfolding get_account_def
proof (rule acts_for_bind_read)
  fix d a assume "(case account_get_for_user aid u d of None \<Rightarrow> Inl (raise_app NotFoundError ''Account not found.'' []) | Some a \<Rightarrow> Inr a) = Inr a"
  then have "account_get_for_user aid u d = Some a" by (auto split: option.splits)
  then show "acts_for (\<lambda>d'. P d' \<and> d' = d) u (g a)" using owned_account assms by blast
qed

lemma acts_for_mono: "acts_for Q u act \<Longrightarrow> (\<And>d. P d \<Longrightarrow> Q d) \<Longrightarrow> acts_for P u act"
  by (simp add: acts_for_def)

lemma place_order_acts [acting]: "acts_for P u (place_order ap limits inp u aid rq)"
  unfolding place_order_def
proof (rule acts_for_with_account)
  fix d :: db and a assume a: "a \<in> set (db_accounts d)" "ac_user_id a = u"
  have "acts_for (\<lambda>d'. d' = d) u (on_work (order_add (persist_row rid now u a ord)))" for rid now ord
    by (rule acts_for_work) (use a in \<open>auto intro!: tenant_order_add [where a = a] simp: persist_row_def\<close>)
  then have "acts_for (\<lambda>d'. d' = d) u (place_body ap limits inp u aid a rq ad)" for ad
    unfolding place_body_def persist_order_def Let_def
    by (intro acts_for_bind_lift acts_for_bind) (auto intro: acting)
  from acts_for_session [OF this a] show "acts_for (\<lambda>d'. P d' \<and> d' = d) u (adapter_session ap a True (place_body ap limits inp u aid a rq))"
    by (rule acts_for_mono) simp
qed

lemma cancel_order_acts [acting]: "acts_for P u (cancel_order ap clk u oid)"
  unfolding cancel_order_def get_order_def
proof (rule acts_for_bind_read)
  fix d r assume "(case order_get_for_user oid u d of None \<Rightarrow> Inl (raise_app NotFoundError ''Order not found.'' []) | Some r \<Rightarrow> Inr r) = Inr r"
  then have r: "r \<in> set (db_orders d)" "or_user_id r = u" by (auto simp: order_get_for_user_def dest!: find_SomeD split: option.splits)
  have b: "acts_for (\<lambda>d'. d' = d) u (cancel_body ap clk u r ad)" for ad
    unfolding cancel_body_def
    by (intro acts_for_bind_lift acts_for_bind acts_for_change acting) (use r in \<open>auto intro: tenant_order_status\<close>)
  have "acts_for (\<lambda>d'. (P d' \<and> d' = d) \<and> d' = e) u (adapter_session ap a True (cancel_body ap clk u r))"
    if "a \<in> set (db_accounts e)" "ac_user_id a = u" for e a
  proof (cases "e = d")
    case True
    then have "acts_for (\<lambda>d'. d' = d) u (adapter_session ap a True (cancel_body ap clk u r))"
      using that b by (intro acts_for_session) auto
    then show ?thesis by (rule acts_for_mono) simp
  qed (auto simp: acts_for_def)
  then show "acts_for (\<lambda>d'. P d' \<and> d' = d) u
      (if or_status r \<in> {status_value Canceled, status_value Filled} then apure (Inr r)
       else abind (get_account (or_account_id r) u) (\<lambda>a. adapter_session ap a True (cancel_body ap clk u r)))"
    by (auto intro!: acting acts_for_with_account)
qed

lemma reads_act [acting]:
  "acts_for P u (list_accounts u')" "acts_for P u (get_account aid u')" "acts_for P u (get_order u' oid)" "acts_for P u (get_user u')"
  "acts_for P u (list_orders u' sy st pg ps)"
  by (simp_all add: list_accounts_def get_account_def get_order_def get_user_def user_or_def list_orders_def Let_def acting)

lemma session_reads_act [acting]:
  "acts_for P u (list_open_orders ap clk u aid)" "acts_for P u (list_positions ap clk u aid)"
  unfolding list_open_orders_def list_positions_def
  by (rule acts_for_with_account, rule acts_for_mono [OF acts_for_session [where u = u]]; simp add: acting)+

lemma balances_act [acting]: "acts_for P u (aggregate_balances ap clk v)"
  unfolding aggregate_balances_def list_accounts_def
  by (intro acts_for_bind_same acts_for_same)
    (auto simp: read_work_def on_work_def sum_accounts_same split: prod.splits, metis fst_conv snd_conv sum_accounts_same)

lemma create_account_acts:
  "acts_for (\<lambda>d. aid \<notin> or_account_id ` set (db_orders d)) u (create_paper_account aid now u e l m)"
  "acts_for (\<lambda>d. aid \<notin> or_account_id ` set (db_orders d)) u (create_live_account ap aid now ns u e l m k sec pass)"
  unfolding create_paper_account_def create_live_account_def Let_def
  by (auto intro!: acting acts_for_bind_pure acts_for_bind acts_for_work tenant_account_add split: option.splits)

lemma delete_account_acts [acting]: "acts_for P u (delete_account dm aid u)"
  unfolding delete_account_def
  by (rule acts_for_with_account) (auto intro!: acts_for_bind acting acts_for_change tenant_account_delete)

lemma user_got: "user_get uid d = Some v \<Longrightarrow> us_id v = uid"
  by (auto simp: user_get_def dest: find_SomeD)

lemma consume_totp_acts: "us_id v = u \<Longrightarrow> acts_for P u (consume_totp ae inp v code)"
  unfolding consume_totp_def
  by (auto intro!: acts_for_bind_pure acting acts_for_change tenant_user_update split: option.splits)

lemma totp_acts [acting]:
  "acts_for P u (begin_totp_enrollment ae inp u)" "acts_for P u (confirm_totp ae inp u code)" "acts_for P u (disable_totp ae inp u code)"
  unfolding begin_totp_enrollment_def confirm_totp_def disable_totp_def user_or_def
  by (rule acts_for_bind_read; auto dest: user_got split: option.splits if_splits
      intro!: acting acts_for_bind_pure acts_for_bind consume_totp_acts acts_for_change tenant_user_update)+

section \<open>Calls\<close>

text \<open>What the public routes leave alone: accounts, orders, balances.\<close>

definition books :: "db \<Rightarrow> account_row list \<times> order_row list \<times> balance_row list" where
  "books d = (db_accounts d, db_orders d, db_balances d)"

lemma books_simps [simp]:
  "books (audit_record act v ip det d) = books d" "books (user_update uid f d) = books d" "books (snd (user_add w d)) = books d"
  by (simp_all add: books_def audit_record_def user_update_def user_add_def)

lemma books_add: "user_add w d = (r, d') \<Longrightarrow> books d' = books d"
  using books_simps(3) [of w d] by simp

lemma stored_iff: "stored dm d \<longleftrightarrow> map (store_order dm) (db_orders d) = db_orders d \<and> map (store_balance dm) (db_balances d) = db_balances d"
  by (cases d) (simp add: stored_def store_db_def)

lemma books_stored: "stored dm d \<Longrightarrow> books d' = books d \<Longrightarrow> books (store_db dm d') = books d \<and> stored dm d'"
  unfolding stored_iff by (simp add: books_def store_db_def)

lemma books_ok: "books d' = books d \<Longrightarrow> tenants_ok d' = tenants_ok d" and books_stored_iff: "books d' = books d \<Longrightarrow> stored dm d' = stored dm d"
  unfolding stored_iff by (simp_all add: books_def tenants_ok_def)

definition books_kept :: "db \<Rightarrow> session \<times> 'y \<Rightarrow> bool" where
  "books_kept d st \<longleftrightarrow> books (ss_work (fst st)) = books d \<and> books (ss_committed (fst st)) = books d"

definition leaves_books :: "db \<Rightarrow> (session \<times> 'y, exn, 'a) action \<Rightarrow> bool" where
  "leaves_books d act \<longleftrightarrow> (\<forall>st. books_kept d st \<longrightarrow> books_kept d (snd (act st)))"

named_theorems bookless \<open>actions that leave the books alone\<close>

lemma leaves_bind [bookless]: "leaves_books d m \<Longrightarrow> (\<And>a. leaves_books d (f a)) \<Longrightarrow> leaves_books d (abind m f)"
  unfolding leaves_books_def by (metis abind_cases snd_conv)

lemma leaves_basic [bookless]:
  "leaves_books d (apure r)" "leaves_books d (read_work g)" "leaves_books d (change_work (audit_record act v ip det))"
  "leaves_books d (change_work (user_update uid f))" "leaves_books d (on_work (user_add w))"
  "leaves_books d (with_throttle h)" "leaves_books d (with_jtis k)"
  by (auto simp: leaves_books_def books_kept_def read_work_def change_work_def on_work_def with_throttle_def with_jtis_def
      dest!: books_add split: prod.splits)

lemma leaves_commit [bookless]: "stored (at_dbms ae) d \<Longrightarrow> leaves_books d (commit_security_event ae)"
  using books_stored by (auto simp: leaves_books_def books_kept_def commit_security_event_def session_commit_def)

lemma leaves_reject [bookless]: "stored (at_dbms ae) d \<Longrightarrow> leaves_books d (reject_login ae inp email act v ip e)"
  unfolding reject_login_def by (intro bookless)

lemma leaves_consume [bookless]: "leaves_books d (consume_totp ae inp v code)"
  unfolding consume_totp_def by (intro bookless) (auto intro: bookless split: option.splits)

lemma leaves_except [bookless]:
  fixes m :: "(session \<times> 'y, exn, 'a) action"
  assumes "leaves_books d m" "\<And>e. leaves_books d (h e)"
  shows "leaves_books d (\<lambda>st. case m st of (Inl e, st') \<Rightarrow> if c e then h e st' else (Inl e, st') | (Inr _, st') \<Rightarrow> (Inr (), st'))"
  unfolding leaves_books_def
proof (intro allI impI)
  fix st :: "session \<times> 'y" assume k: "books_kept d st"
  obtain r st' where m: "m st = (r, st')" by (metis surj_pair)
  have k': "books_kept d st'" using assms(1) k m unfolding leaves_books_def by (metis snd_conv)
  show "books_kept d (snd (case m st of (Inl e, st') \<Rightarrow> if c e then h e st' else (Inl e, st') | (Inr _, st') \<Rightarrow> (Inr (), st')))"
  proof (cases r)
    case (Inl e)
    have "books_kept d (snd (h e st'))" using assms(2) [of e] k' unfolding leaves_books_def by blast
    then show ?thesis using k' by (simp add: m Inl)
  qed (simp add: m k')
qed

lemma leaves_second_factor [bookless]: "stored (at_dbms ae) d \<Longrightarrow> leaves_books d (second_factor ae inp email code ip v)"
  unfolding second_factor_def by (auto intro!: bookless)

lemma leaves_auth [bookless]:
  "leaves_books d (register ae inp email password)"
  "stored (at_dbms ae) d \<Longrightarrow> leaves_books d (authenticate ae inp email password code ip)"
  "stored (at_dbms ae) d \<Longrightarrow> leaves_books d (refresh ae inp token)"
  "leaves_books d (logout ae inp token)"
     apply (simp add: register_def Let_def, intro bookless)
    apply (auto simp: authenticate_def authenticate_user_def login_success_def Let_def intro!: bookless split: option.splits)[1]
   apply (auto simp: refresh_def invalidate_sessions_def intro!: bookless)[1]
  by (auto simp: logout_def intro!: bookless split: sum.splits)

text \<open>From the actions of a session to requests.\<close>

definition numeric_idem :: "dbms \<Rightarrow> bool" where
  "numeric_idem dm \<longleftrightarrow> (\<forall>x. dm_numeric dm (dm_numeric dm x) = dm_numeric dm x)"

lemma stored_store: "numeric_idem dm \<Longrightarrow> stored dm (store_db dm d)"
  by (auto simp: stored_def store_db_def numeric_idem_def store_order_def store_balance_def option.map_comp comp_def)

lemma foreign_store:
  "foreign u (store_db dm d) = (case foreign u d of (us, as, os, bs) \<Rightarrow> (us, as, map (store_order dm) os, map (store_balance dm) bs))"
  by (simp add: foreign_def foreign_ids_def store_db_def filter_map comp_def store_order_def store_balance_def)

lemma tenants_store: "tenants_ok (store_db dm d) = tenants_ok d"
  by (simp add: tenants_ok_def store_db_def comp_def list_all_iff store_order_def)

definition request_ok :: "string \<Rightarrow> dbms \<Rightarrow> db \<Rightarrow> db \<Rightarrow> bool" where
  "request_ok u dm d d' \<longleftrightarrow> tenants_ok d' \<and> stored dm d' \<and> foreign u d' = foreign u d"

lemma with_session_acts:
  assumes "acts_for P u act" "tenants_ok d" "P d" "stored dm d" "numeric_idem dm"
  shows "request_ok u dm d (fst (snd (with_session dm act (d, y))))"
proof -
  let ?s = "\<lparr>ss_committed = d, ss_work = d\<rparr>"
  obtain r s' y' where run: "act (?s, y) = (r, (s', y'))" by (metis surj_pair)
  have w: "tenant_step u d (ss_work s')" "ss_committed s' = d"
    using assms(1-3) run unfolding acts_for_def by (metis fst_conv snd_conv session.select_convs)+
  show ?thesis
  proof (cases r)
    case (Inl e)
    then show ?thesis using run w assms by (simp add: with_session_def session_rollback_def request_ok_def)
  next
    case (Inr a)
    have "foreign u (store_db dm (ss_work s')) = foreign u (store_db dm d)"
      using w(1) by (simp add: foreign_store tenant_step_def)
    also have "\<dots> = foreign u d" using assms(4) by (simp add: stored_def)
    finally show ?thesis using Inr run w(1) assms(5)
      by (simp add: with_session_def session_commit_def request_ok_def tenants_store stored_store tenant_step_def)
  qed
qed

lemma with_session_leaves:
  assumes "leaves_books d act" "stored dm d"
  shows "books (fst (snd (with_session dm act (d, y)))) = books d"
proof -
  let ?s = "\<lparr>ss_committed = d, ss_work = d\<rparr>"
  obtain r s' y' where run: "act (?s, y) = (r, (s', y'))" by (metis surj_pair)
  have "books_kept d (s', y')"
    using assms(1) run unfolding leaves_books_def by (metis books_kept_def fst_conv session.select_convs snd_conv)
  then show ?thesis using run books_stored [OF assms(2)]
    by (cases r) (simp_all add: with_session_def session_commit_def session_rollback_def books_kept_def)
qed

lemma respond_state: "snd (respond st out act s) = snd (act s)"
  by (auto simp: respond_def abind_def apure_def split: prod.splits sum.splits)

lemma work_states:
  "fst (snd (trading_work dm act (d, (sts, net)))) = fst (snd (with_session dm act (d, net)))"
  "fst (snd (auth_work dm act' (d, (sts, net)))) = fst (snd (with_session dm act' (d, sts)))"
  "fst (snd (market_work act'' (d, (sts, net)))) = d"
  by (auto simp: trading_work_def auth_work_def market_work_def split: prod.splits)

lemma caller_handler_ok:
  assumes "tenants_ok d" "stored (dbms_of av) d" "numeric_idem (dbms_of av)" "in_account_id inp \<notin> or_account_id ` set (db_orders d)"
  shows "request_ok u (dbms_of av) d (fst (snd (caller_handler av inp u c (d, (sts, net)))))"
proof -
  have same: "request_ok u (dbms_of av) d d" using assms by (simp add: request_ok_def)
  show ?thesis
    by (cases c) (simp_all add: handler_defs respond_state work_states same apure_def,
      auto intro!: with_session_acts [OF _ assms(1) _ assms(2,3)] acting create_account_acts assms(4))
qed

lemma public_handler_books:
  assumes "stored (dbms_of av) d" "at_dbms (av_auth av) = dbms_of av"
  shows "books (fst (snd (public_handler av inp req c (d, (sts, net))))) = books d"
  using assms by (cases c) (auto simp: handler_defs respond_state work_states apure_def intro!: with_session_leaves bookless)

section \<open>Examples\<close>

definition ex_api :: "int api" where
  "ex_api = \<lparr>av_app = ex_app, av_auth = ex_auth, av_limits = default_risk_limits, av_cpow = (\<lambda>x y. x), av_valid_email = Some,
     av_bearer = (\<lambda>req. dict_get (rq_headers req) ''authorization''), av_bearer_status = 401\<rparr>"

definition ex_api_inputs :: api_inputs where
  "ex_api_inputs = \<lparr>in_auth = ex_auth_inputs 5, in_place = ex_inputs, in_account_id = ''a9'', in_now = 5, in_nonces = ([], [], []),
     in_clk = (0, 0), in_account_clk = (\<lambda>_. (0, 0))\<rparr>"

definition ex_call_by :: "string \<Rightarrow> request" where
  "ex_call_by role = \<lparr>rq_client = Some ''203.0.113.7'', rq_method = ''POST'', rq_path = ''/api/v1/trading/orders'',
     rq_headers = [(''authorization'', fst (encode_token ex_jwt (at_tokens ex_auth) 1 ''j0'' ''u1'' role Access 10 0))]\<rparr>"

definition ex_order :: api_call where
  "ex_order = Place_order \<lparr>oc_account_id = ''a1'', oc_symbol = ''BTC/USDT'', oc_side = Buy, oc_type = Market, oc_amount = 2, oc_price = None,
     oc_stop_price = None, oc_time_in_force = GTC, oc_reduce_only = False, oc_post_only = False, oc_leverage = None\<rparr>"

section \<open>Properties\<close>



text \<open>Tenants are isolated at the interface: on a database where orders belong to the owners of their
  accounts, no call, whatever its outcome, breaks that; a call with a caller's token leaves the user
  records, accounts, orders and balances of all other users unchanged, a call without a valid token
  leaves the whole database unchanged, and the public routes change no account, order or balance.\<close>

lemma api_isolates_tenants:
  assumes "tenants_ok d" and "stored (dbms_of av) d" and "numeric_idem (dbms_of av)" and "at_dbms (av_auth av) = dbms_of av"
    and "in_account_id inp \<notin> or_account_id ` set (db_orders d)" and "400 \<le> av_bearer_status av"
    and "handle_call av inp req c (d, st) = (r, (d', st'))"
  shows "tenants_ok d' \<and> stored (dbms_of av) d'
    \<and> (if access_of c = Public then books d' = books d
       else case av_bearer av req of
              None \<Rightarrow> d' = d
            | Some token \<Rightarrow> (case get_current_user av (ai_now (in_auth inp)) token of
                Inl e \<Rightarrow> d' = d
              | Inr user \<Rightarrow> foreign (cu_id user) d' = foreign (cu_id user) d))"
proof (cases "permitted av inp req c")
  case False
  then have "d' = d" using unauthorised_no_effect [OF False assms(6), of "(d, st)"] assms(7) by simp
  then show ?thesis using False assms(1,2) by (auto simp: permitted_def split: option.splits sum.splits)
next
  case True
  obtain sts net where st: "st = (sts, net)" by (metis surj_pair)
  show ?thesis
  proof (cases "access_of c = Public")
    case pub: True
    then have "handle_call av inp req c = (if param_errors av c \<noteq> [] then apure (Inr (handle_validation (param_errors av c))) else public_handler av inp req c)"
      by (simp add: handle_call_def resolve_caller_def)
    then have "books d' = books d"
      using assms(7) public_handler_books [OF assms(2,4), of inp req c sts net] st
      by (cases "param_errors av c = []") (simp_all add: apure_def)
    then show ?thesis using pub assms(1,2) books_ok [of d' d] books_stored_iff [of d' d "dbms_of av"] by simp
  next
    case prot: False
    then obtain token user where u: "av_bearer av req = Some token" "get_current_user av (ai_now (in_auth inp)) token = Inr user"
      using True by (auto simp: permitted_def split: option.splits sum.splits)
    then have "resolve_caller av inp req (access_of c) = Inr (Inr (Some user))"
      using True prot by (auto simp: permitted_def resolve_caller_def require_def split: access.splits)
    then have "handle_call av inp req c = (if param_errors av c \<noteq> [] then apure (Inr (handle_validation (param_errors av c)))
        else caller_handler av inp (cu_id user) c)"
      by (simp add: handle_call_def)
    then have "request_ok (cu_id user) (dbms_of av) d d'"
      using assms(1,2,7) caller_handler_ok [OF assms(1-3,5), of "cu_id user" c sts net] st
      by (cases "param_errors av c = []") (simp_all add: apure_def request_ok_def)
    then show ?thesis using prot u by (simp add: request_ok_def)
  qed
qed

lemma api_isolates_tenants_example:
  "\<exists>r d' st'. handle_call ex_api ex_api_inputs (ex_call_by ''trader'') ex_order (ex_db, (ex_stores, ([], 0))) = (Inr r, (d', st'))
     \<and> tenants_ok d' \<and> foreign ''u1'' d' = foreign ''u1'' ex_db"
proof -
  let ?run = "handle_call ex_api ex_api_inputs (ex_call_by ''trader'') ex_order (ex_db, (ex_stores, ([], 0)))"
  have "is_ok (fst ?run)" by code_simp
  then obtain r d' st' where run: "?run = (Inr r, (d', st'))" by (metis is_ok_iff prod.collapse)
  have ok: "tenants_ok ex_db" "stored (dbms_of ex_api) ex_db" "at_dbms (av_auth ex_api) = dbms_of ex_api"
    "in_account_id ex_api_inputs \<notin> or_account_id ` set (db_orders ex_db)" "400 \<le> av_bearer_status ex_api"
    by (simp_all add: tenants_ok_def stored_iff ex_db_def empty_db_def ex_api_def ex_auth_def ex_app_def dbms_of_def)
  have idem: "numeric_idem (dbms_of ex_api)" by (simp add: numeric_idem_def dbms_of_def ex_api_def ex_app_def)
  have acc: "access_of ex_order \<noteq> Public" by (simp add: ex_order_def)
  obtain token where t: "av_bearer ex_api (ex_call_by ''trader'') = Some token" by (simp add: ex_api_def ex_call_by_def)
  have "map_option (\<lambda>t. get_current_user ex_api (ai_now (in_auth ex_api_inputs)) t) (av_bearer ex_api (ex_call_by ''trader''))
      = Some (Inr \<lparr>cu_id = ''u1'', cu_role = ''trader''\<rparr>)" by code_simp
  then show ?thesis using api_isolates_tenants [OF ok(1,2) idem ok(3,4,5) run] acc t run
    by (intro exI [of _ r] exI [of _ d'] exI [of _ st']) auto
qed

end
