(* ===== verification/Middleware.thy ===== *)
theory Middleware
  imports Client_Address Security
begin

text \<open>
  The ASGI middleware (\<^verbatim>\<open>app/api/middleware.py\<close>) and how the application stacks it
  (\<^verbatim>\<open>create_app\<close> in \<^verbatim>\<open>app/main.py\<close>). A handler is an action on the state of
  the application that returns a response or raises; a middleware turns a handler into a handler.
  The rate limiter has no suspension point between reading its bucket and writing it, so one request
  is one atomic step on it. Clock readings and the random request identifier are arguments.
\<close>

section \<open>Responses and handlers\<close>

type_synonym 's handler = "request \<Rightarrow> ('s, exn, response) action"

text \<open>Header names are compared without regard to case.\<close>

definition has_header :: "string \<Rightarrow> response \<Rightarrow> bool" where
  "has_header name r \<longleftrightarrow> py_lower name \<in> set (map (\<lambda>h. py_lower (fst h)) (resp_headers r))"

definition setdefault_header :: "string \<Rightarrow> string \<Rightarrow> response \<Rightarrow> response" where
  "setdefault_header name v r = (if has_header name r then r else r\<lparr>resp_headers := resp_headers r @ [(name, v)]\<rparr>)"

definition set_header :: "string \<Rightarrow> string \<Rightarrow> response \<Rightarrow> response" where
  "set_header name v r =
     r\<lparr>resp_headers := (if has_header name r
        then map (\<lambda>h. if py_lower (fst h) = py_lower name then (name, v) else h) (resp_headers r)
        else resp_headers r @ [(name, v)])\<rparr>"

section \<open>Request context and security headers\<close>

definition apply_security_headers :: "response \<Rightarrow> response" where
  "apply_security_headers r =
     setdefault_header ''Strict-Transport-Security'' ''max-age=63072000; includeSubDomains''
     (setdefault_header ''Content-Security-Policy'' (''default-src 'self'; frame-ancestors 'none'' @ [CHR 0x27])
     (setdefault_header ''Referrer-Policy'' ''no-referrer''
     (setdefault_header ''X-Frame-Options'' ''DENY''
     (setdefault_header ''X-Content-Type-Options'' ''nosniff'' r))))"

text \<open>
  \<^verbatim>\<open>str(round((now - start) * 1000, 2))\<close> for a non-negative number below $10^{15}$: rounding
  to two digits takes the nearest hundredth of the exact value, and the shortest text of the result
  has one or two digits after the point.
\<close>

definition elapsed_text :: "pyfloat \<Rightarrow> pyfloat \<Rightarrow> string" where
  "elapsed_text start now =
     (let k = rhe (fmul (fsub now start) 1000 * 100)
      in py_str_int (k div 100) @ ''.'' @
         (if k mod 10 = 0 then py_str_int (k div 10 mod 10)
          else py_str_int (k div 10 mod 10) @ py_str_int (k mod 10)))"

record context_inputs =
  ci_uuid :: string
  ci_start :: pyfloat
  ci_end :: pyfloat

definition request_id :: "context_inputs \<Rightarrow> request \<Rightarrow> string" where
  "request_id ci req = (if header ''x-request-id'' req = [] then ci_uuid ci else header ''x-request-id'' req)"

definition request_context :: "context_inputs \<Rightarrow> 's handler \<Rightarrow> 's handler" where
  "request_context ci call_next req =
     abind (call_next req) (\<lambda>r.
       apure (Inr (apply_security_headers
         (set_header ''x-response-time-ms'' (elapsed_text (ci_start ci) (ci_end ci))
           (set_header ''x-request-id'' (request_id ci req) r)))))"

section \<open>Rate limiter\<close>

record rate_limiter =
  lim_limit :: int
  lim_hits :: "(string, pyfloat list) dict"
  lim_last_sweep :: pyfloat
  lim_exempt :: "string list"

definition new_rate_limiter :: "int \<Rightarrow> string list \<Rightarrow> rate_limiter" where
  "new_rate_limiter limit exempt = \<lparr>lim_limit = limit, lim_hits = [], lim_last_sweep = 0, lim_exempt = exempt\<rparr>"

definition lim_window :: pyfloat where
  "lim_window = 60"

definition expired :: "pyfloat \<Rightarrow> pyfloat \<Rightarrow> bool" where
  "expired now t \<longleftrightarrow> lim_window < fsub now t"

definition bucket_of :: "string \<Rightarrow> rate_limiter \<Rightarrow> pyfloat list" where
  "bucket_of client rl = (case dict_get (lim_hits rl) client of None \<Rightarrow> [] | Some b \<Rightarrow> b)"

definition maybe_sweep :: "pyfloat \<Rightarrow> rate_limiter \<Rightarrow> rate_limiter" where
  "maybe_sweep now rl =
     (if fsub now (lim_last_sweep rl) < lim_window then rl
      else rl\<lparr>lim_last_sweep := now,
              lim_hits := filter (\<lambda>(ip, hits). \<not> (hits = [] \<or> expired now (last hits))) (lim_hits rl)\<rparr>)"

definition too_many_requests :: "pyfloat \<Rightarrow> pyfloat list \<Rightarrow> response" where
  "too_many_requests now bucket =
     (let err = mk_error RateLimitError None [];
          retry = (case bucket of [] \<Rightarrow> 60 | t # _ \<Rightarrow> max 0 (trunc (fsub lim_window (fsub now t))))
      in \<lparr>resp_status = status_code (err_class err), resp_body = to_dict err,
          resp_headers = [(''Retry-After'', py_str_int retry)]\<rparr>)"

definition client_key :: "settings \<Rightarrow> request \<Rightarrow> string" where
  "client_key st req = (case resolve_client_ip st req of None \<Rightarrow> ''unknown'' | Some [] \<Rightarrow> ''unknown'' | Some c \<Rightarrow> c)"

text \<open>The decision for one request: a response of its own, or none to let the request pass.\<close>

definition rate_limit :: "settings \<Rightarrow> pyfloat \<Rightarrow> request \<Rightarrow> rate_limiter \<Rightarrow> response option \<times> rate_limiter" where
  "rate_limit st now req rl =
     (if rq_path req \<in> set (lim_exempt rl) then (None, rl)
      else
        let client = client_key st req;
            bucket = dropWhile (expired now) (bucket_of client rl);
            rl' = rl\<lparr>lim_hits := dict_set client bucket (lim_hits rl)\<rparr>
        in if lim_limit rl \<le> int (length bucket) then (Some (too_many_requests now bucket), rl')
           else (None, maybe_sweep now (rl\<lparr>lim_hits := dict_set client (bucket @ [now]) (lim_hits rl)\<rparr>)))"

definition rate_limited :: "settings \<Rightarrow> pyfloat \<Rightarrow> 's handler \<Rightarrow> (rate_limiter \<times> 's) handler" where
  "rate_limited st now call_next req = (\<lambda>(rl, s).
     case rate_limit st now req rl of
       (Some r, rl') \<Rightarrow> (Inr r, (rl', s))
     | (None, rl') \<Rightarrow> (case call_next req s of (r, s') \<Rightarrow> (r, (rl', s'))))"

section \<open>The stack\<close>

text \<open>
  \<^verbatim>\<open>create_app\<close> adds the limiter, then CORS, then the request context: each addition wraps the
  earlier ones. The framework puts the handlers of specific exception classes inside all of them and
  the handler registered for \<^verbatim>\<open>Exception\<close> outside. The CORS middleware is the framework's and
  a parameter.
\<close>

definition exception_middleware :: "'s handler \<Rightarrow> 's handler" where
  "exception_middleware call_next req s =
     (case call_next req s of
        (Inl (AppExn e), s') \<Rightarrow> (Inr (handle_app_error e), s')
      | (r, s') \<Rightarrow> (r, s'))"

definition server_error_middleware :: "'s handler \<Rightarrow> request \<Rightarrow> 's \<Rightarrow> response \<times> 's" where
  "server_error_middleware call_next req s =
     (case call_next req s of
        (Inl x, s') \<Rightarrow> (handle_exception x, s')
      | (Inr r, s') \<Rightarrow> (r, s'))"

definition app_limiter :: "settings \<Rightarrow> rate_limiter" where
  "app_limiter st = new_rate_limiter (rate_limit_per_minute st)
     [api_v1_prefix st @ ''/health'', api_v1_prefix st @ ''/ready'', ''/metrics'']"

definition inner_app ::
    "settings \<Rightarrow> ((rate_limiter \<times> 's) handler \<Rightarrow> (rate_limiter \<times> 's) handler) \<Rightarrow> pyfloat \<Rightarrow> 's handler
       \<Rightarrow> (rate_limiter \<times> 's) handler" where
  "inner_app st cors now router = cors (rate_limited st now (exception_middleware router))"

definition serve ::
    "settings \<Rightarrow> ((rate_limiter \<times> 's) handler \<Rightarrow> (rate_limiter \<times> 's) handler) \<Rightarrow> context_inputs \<Rightarrow> pyfloat
       \<Rightarrow> 's handler \<Rightarrow> request \<Rightarrow> rate_limiter \<times> 's \<Rightarrow> response \<times> (rate_limiter \<times> 's)" where
  "serve st cors ci now router = server_error_middleware (request_context ci (inner_app st cors now router))"

section \<open>The limiter implements a sliding window\<close>

text \<open>
  The specification keeps every admitted request of every client for ever and admits a request while
  fewer than the limit of them lie within the window. The limiter drops what it no longer needs, at
  the front of a bucket and in its sweeps; the two agree on every sequence of requests whose clock
  readings do not decrease.
\<close>

type_synonym window_history = "string \<Rightarrow> pyfloat list"

definition window_admits :: "int \<Rightarrow> pyfloat \<Rightarrow> pyfloat list \<Rightarrow> bool" where
  "window_admits limit now ts \<longleftrightarrow> int (length (filter (\<lambda>t. \<not> expired now t) ts)) < limit"

fun run_window :: "settings \<Rightarrow> int \<Rightarrow> string list \<Rightarrow> (pyfloat \<times> request) list \<Rightarrow> window_history \<Rightarrow> bool list \<times> window_history" where
  "run_window st limit exempt [] H = ([], H)"
| "run_window st limit exempt ((now, req) # es) H =
     (let c = client_key st req;
          ok = (rq_path req \<in> set exempt \<or> window_admits limit now (H c));
          H' = (if ok \<and> rq_path req \<notin> set exempt then H(c := H c @ [now]) else H);
          (oks, H'') = run_window st limit exempt es H'
      in (ok # oks, H''))"

fun run_limits :: "settings \<Rightarrow> (pyfloat \<times> request) list \<Rightarrow> rate_limiter \<Rightarrow> bool list \<times> rate_limiter" where
  "run_limits st [] rl = ([], rl)"
| "run_limits st ((now, req) # es) rl =
     (let (r, rl') = rate_limit st now req rl; (oks, rl'') = run_limits st es rl' in ((r = None) # oks, rl''))"

text \<open>The refinement relation: a bucket is the history less a prefix of expired requests.\<close>

definition window_refines :: "pyfloat \<Rightarrow> rate_limiter \<Rightarrow> window_history \<Rightarrow> bool" where
  "window_refines now rl H \<longleftrightarrow>
     (\<forall>c. sorted (H c) \<and> (\<forall>t \<in> set (H c). t \<le> now)
        \<and> (\<exists>old. H c = old @ bucket_of c rl \<and> (\<forall>t \<in> set old. expired now t)))"

lemma expired_mono: "expired now t \<Longrightarrow> now \<le> now' \<Longrightarrow> t' \<le> t \<Longrightarrow> expired now' t'"
  unfolding expired_def fsub_def using flt.rnd_mono [of "now - t" "now' - t'"] by auto

lemma not_expired_now [simp]: "\<not> expired now now"
  by (simp add: expired_def fsub_def lim_window_def flt.rnd_0)

lemma unexpired_sorted: "sorted ts \<Longrightarrow> filter (\<lambda>t. \<not> expired now t) ts = dropWhile (expired now) ts"
proof (induction ts)
  case (Cons t ts)
  show ?case
  proof (cases "expired now t")
    case False
    then have "\<forall>u \<in> set (t # ts). \<not> expired now u" using Cons.prems expired_mono [of now _ now t] by auto
    then show ?thesis using False by (simp add: filter_id_conv)
  qed (use Cons in simp)
qed simp

lemma refinesE:
  assumes "window_refines now rl H"
  obtains old where "sorted (H c)" "\<forall>t \<in> set (H c). t \<le> now" "H c = old @ bucket_of c rl" "\<forall>t \<in> set old. expired now t"
  using assms unfolding window_refines_def by blast

lemma refines_later: "window_refines now rl H \<Longrightarrow> now \<le> now' \<Longrightarrow> window_refines now' rl H"
  unfolding window_refines_def by (meson expired_mono order.trans order_refl)

lemma refines_unexpired:
  assumes "window_refines now rl H"
  shows "filter (\<lambda>t. \<not> expired now t) (H c) = dropWhile (expired now) (bucket_of c rl)"
proof -
  obtain old where old: "H c = old @ bucket_of c rl" "\<forall>t \<in> set old. expired now t" and "sorted (H c)"
    using refinesE [OF assms, of c] by metis
  then have "sorted (bucket_of c rl)" by (simp add: sorted_append)
  with old show ?thesis by (simp add: unexpired_sorted)
qed

text \<open>Every clean-up of a bucket keeps the relation.\<close>

lemma refines_drop:
  assumes "window_refines now rl H"
    and "\<And>c. \<exists>old. bucket_of c rl = old @ bucket_of c rl' \<and> (\<forall>t \<in> set old. expired now t)"
  shows "window_refines now rl' H"
  unfolding window_refines_def
proof
  fix c
  obtain old old' where "H c = old @ bucket_of c rl" "\<forall>t \<in> set old. expired now t"
    and "bucket_of c rl = old' @ bucket_of c rl'" "\<forall>t \<in> set old'. expired now t"
    using assms unfolding window_refines_def by metis
  then have "H c = (old @ old') @ bucket_of c rl'" "\<forall>t \<in> set (old @ old'). expired now t" by auto
  then show "sorted (H c) \<and> (\<forall>t \<in> set (H c). t \<le> now)
      \<and> (\<exists>old. H c = old @ bucket_of c rl' \<and> (\<forall>t \<in> set old. expired now t))"
    using assms(1) unfolding window_refines_def by blast
qed

lemma bucket_of_set: "bucket_of c (rl\<lparr>lim_hits := dict_set k b (lim_hits rl)\<rparr>) = (if c = k then b else bucket_of c rl)"
  by (simp add: bucket_of_def dict_get_set)

lemma refines_pop:
  assumes "window_refines now rl H"
  shows "window_refines now (rl\<lparr>lim_hits := dict_set k (dropWhile (expired now) (bucket_of k rl)) (lim_hits rl)\<rparr>) H"
proof (rule refines_drop [OF assms])
  fix c
  show "\<exists>old. bucket_of c rl = old @ bucket_of c (rl\<lparr>lim_hits := dict_set k (dropWhile (expired now) (bucket_of k rl)) (lim_hits rl)\<rparr>)
      \<and> (\<forall>t \<in> set old. expired now t)"
    by (cases "c = k") (auto simp: bucket_of_set intro!: exI [of _ "takeWhile (expired now) (bucket_of k rl)"] dest: set_takeWhileD)
qed

lemma refines_admit:
  assumes "window_refines now rl H"
  shows "window_refines now (rl\<lparr>lim_hits := dict_set k (dropWhile (expired now) (bucket_of k rl) @ [now]) (lim_hits rl)\<rparr>)
    (H(k := H k @ [now]))"
proof -
  let ?b = "dropWhile (expired now) (bucket_of k rl)"
  have pop: "window_refines now (rl\<lparr>lim_hits := dict_set k ?b (lim_hits rl)\<rparr>) H" by (rule refines_pop [OF assms])
  show ?thesis unfolding window_refines_def
  proof
    fix c
    obtain old where "sorted (H c)" "\<forall>t \<in> set (H c). t \<le> now" "\<forall>t \<in> set old. expired now t"
      "H c = old @ (if c = k then ?b else bucket_of c rl)"
      using refinesE [OF pop, of c] unfolding bucket_of_set by metis
    then show "sorted ((H(k := H k @ [now])) c) \<and> (\<forall>t \<in> set ((H(k := H k @ [now])) c). t \<le> now)
      \<and> (\<exists>old. (H(k := H k @ [now])) c = old @ bucket_of c (rl\<lparr>lim_hits := dict_set k (?b @ [now]) (lim_hits rl)\<rparr>)
          \<and> (\<forall>t \<in> set old. expired now t))"
      by (auto simp: bucket_of_set sorted_append)
  qed
qed

lemma sweep_bucket:
  assumes "dict_wf (lim_hits rl)"
  shows "bucket_of c (maybe_sweep now rl) =
    (if fsub now (lim_last_sweep rl) < lim_window \<or> bucket_of c rl \<noteq> [] \<and> \<not> expired now (last (bucket_of c rl))
     then bucket_of c rl else [])"
proof -
  have "dict_get (filter (\<lambda>(ip, hits). P hits) d) c = (case dict_get d c of None \<Rightarrow> None | Some h \<Rightarrow> if P h then Some h else None)"
    if "dict_wf d" for d :: "(string, pyfloat list) dict" and P
    using that by (induction d) (auto simp: dict_wf_def map_of_eq_None_iff split: option.splits dest: weak_map_of_SomeI)
  from this [OF assms, of "\<lambda>hits. \<not> (hits = [] \<or> expired now (last hits))"]
  show ?thesis by (auto simp: maybe_sweep_def bucket_of_def split: option.splits)
qed

lemma refines_sweep:
  assumes "window_refines now rl H" "dict_wf (lim_hits rl)"
  shows "window_refines now (maybe_sweep now rl) H"
proof (rule refines_drop [OF assms(1)])
  fix c
  have s: "sorted (bucket_of c rl)"
    using assms(1) unfolding window_refines_def by (metis sorted_append)
  have "expired now t" if "t \<in> set (bucket_of c rl)" "expired now (last (bucket_of c rl))" for t
    using that s expired_mono [of now "last (bucket_of c rl)" now t]
    by (metis append_butlast_last_id empty_iff empty_set in_set_conv_decomp order_refl rotate1.simps(2) set_ConsD set_rotate1 sorted_append)
  then show "\<exists>old. bucket_of c rl = old @ bucket_of c (maybe_sweep now rl) \<and> (\<forall>t \<in> set old. expired now t)"
    using sweep_bucket [OF assms(2), of c now] by auto
qed

lemma limiter_params [simp]:
  "lim_limit (snd (rate_limit st now req rl)) = lim_limit rl" "lim_exempt (snd (rate_limit st now req rl)) = lim_exempt rl"
  by (simp_all add: rate_limit_def Let_def maybe_sweep_def)

lemma limiter_wf: "dict_wf (lim_hits rl) \<Longrightarrow> dict_wf (lim_hits (snd (rate_limit st now req rl)))"
proof -
  have "dict_wf (filter P d)" if "dict_wf d" for P and d :: "(string, pyfloat list) dict"
    using that by (simp add: dict_wf_def distinct_map_filter)
  then show "dict_wf (lim_hits rl) \<Longrightarrow> dict_wf (lim_hits (snd (rate_limit st now req rl)))"
    by (simp add: rate_limit_def Let_def maybe_sweep_def)
qed

lemma rate_limit_step:
  assumes "window_refines now rl H" "dict_wf (lim_hits rl)" "rq_path req \<notin> set (lim_exempt rl)"
  shows "fst (rate_limit st now req rl) = None \<longleftrightarrow> window_admits (lim_limit rl) now (H (client_key st req))"
    and "window_refines now (snd (rate_limit st now req rl))
      (if window_admits (lim_limit rl) now (H (client_key st req))
       then H(client_key st req := H (client_key st req) @ [now]) else H)"
proof -
  let ?c = "client_key st req"
  let ?b = "dropWhile (expired now) (bucket_of ?c rl)"
  have a: "window_admits (lim_limit rl) now (H ?c) \<longleftrightarrow> int (length ?b) < lim_limit rl"
    by (simp add: window_admits_def refines_unexpired [OF assms(1)])
  then show "fst (rate_limit st now req rl) = None \<longleftrightarrow> window_admits (lim_limit rl) now (H ?c)"
    using assms(3) by (auto simp: rate_limit_def Let_def)
  have wf: "dict_wf (lim_hits (rl\<lparr>lim_hits := dict_set ?c (?b @ [now]) (lim_hits rl)\<rparr>))" using assms(2) by simp
  show "window_refines now (snd (rate_limit st now req rl))
      (if window_admits (lim_limit rl) now (H ?c) then H(?c := H ?c @ [now]) else H)"
    using a assms(3) refines_pop [OF assms(1), of ?c] refines_sweep [OF refines_admit [OF assms(1), of ?c] wf]
    by (auto simp: rate_limit_def Let_def)
qed

definition times_rise :: "pyfloat \<Rightarrow> (pyfloat \<times> request) list \<Rightarrow> bool" where
  "times_rise now es \<longleftrightarrow> sorted (now # map fst es)"

lemma run_limits_refines:
  assumes "window_refines now rl H" "dict_wf (lim_hits rl)" "times_rise now es"
  shows "fst (run_limits st es rl) = fst (run_window st (lim_limit rl) (lim_exempt rl) es H)"
  using assms
proof (induction es arbitrary: now rl H)
  case (Cons e es)
  obtain t req where e: "e = (t, req)" by fastforce
  let ?rl = "snd (rate_limit st t req rl)" and ?c = "client_key st req"
  let ?H = "if rq_path req \<notin> set (lim_exempt rl) \<and> window_admits (lim_limit rl) t (H ?c) then H(?c := H ?c @ [t]) else H"
  have r: "window_refines t rl H" using Cons.prems e by (auto simp: times_rise_def intro: refines_later)
  have "window_refines t ?rl ?H"
    using rate_limit_step(2) [OF r Cons.prems(2), of req st] r by (auto simp: rate_limit_def)
  moreover have "fst (rate_limit st t req rl) = None \<longleftrightarrow> rq_path req \<in> set (lim_exempt rl) \<or> window_admits (lim_limit rl) t (H ?c)"
    using rate_limit_step(1) [OF r Cons.prems(2), of req st] by (cases "rq_path req \<in> set (lim_exempt rl)") (auto simp: rate_limit_def)
  moreover have "times_rise t es" using Cons.prems e by (auto simp: times_rise_def)
  ultimately show ?case
    using Cons.IH [of t ?rl ?H] limiter_wf [OF Cons.prems(2), of st t req] e
    by (auto simp: Let_def split: prod.splits)
qed simp

text \<open>In the specification, a request and the one \<open>limit\<close> requests earlier are more than a window apart.\<close>

definition spaced :: "nat \<Rightarrow> pyfloat list \<Rightarrow> bool" where
  "spaced limit ts \<longleftrightarrow> (\<forall>i. i + limit < length ts \<longrightarrow> lim_window < ts ! (i + limit) - ts ! i)"

lemma expired_exact: "expired now t \<Longrightarrow> lim_window < now - t"
  unfolding expired_def fsub_def lim_window_def using flt.rnd_upper [of 60 "now - t"] fl_of_nat_power [of 60] by force

lemma spaced_admit:
  assumes "spaced (nat limit) ts" "sorted ts" "window_admits limit now ts"
  shows "spaced (nat limit) (ts @ [now])"
  unfolding spaced_def
proof (intro allI impI)
  fix i assume i: "i + nat limit < length (ts @ [now])"
  show "lim_window < (ts @ [now]) ! (i + nat limit) - (ts @ [now]) ! i"
  proof (cases "i + nat limit < length ts")
    case True
    then show ?thesis using assms(1) by (simp add: spaced_def nth_append)
  next
    case False
    let ?old = "takeWhile (expired now) ts"
    have "length (dropWhile (expired now) ts) < nat limit"
      using assms(2,3) by (simp add: window_admits_def unexpired_sorted)
    moreover have "length ?old + length (dropWhile (expired now) ts) = length ts"
      by (metis length_append takeWhile_dropWhile_id)
    moreover have il: "i + nat limit = length ts" using i False by simp
    ultimately have "i < length ?old" by linarith
    then have "expired now (ts ! i)" by (metis nth_mem set_takeWhileD takeWhile_nth)
    moreover have "i < length ts" using \<open>i < length ?old\<close> length_takeWhile_le [of "expired now" ts] by linarith
    ultimately show ?thesis using expired_exact il by (simp add: nth_append)
  qed
qed

lemma run_window_spaced:
  assumes "\<forall>c. spaced (nat limit) (H c) \<and> sorted (H c) \<and> (\<forall>t \<in> set (H c). t \<le> now)" "times_rise now es"
  shows "\<forall>c. spaced (nat limit) (snd (run_window st limit exempt es H) c)"
  using assms
proof (induction es arbitrary: now H)
  case (Cons e es)
  obtain t req where e: "e = (t, req)" by fastforce
  let ?c = "client_key st req"
  let ?H = "if rq_path req \<notin> set exempt \<and> window_admits limit t (H ?c) then H(?c := H ?c @ [t]) else H"
  have t: "now \<le> t" "times_rise t es" using Cons.prems(2) e by (auto simp: times_rise_def)
  then have "\<forall>c. spaced (nat limit) (?H c) \<and> sorted (?H c) \<and> (\<forall>u \<in> set (?H c). u \<le> t)"
    using Cons.prems(1) by (auto simp: spaced_admit sorted_append intro: order.trans)
  then have "\<forall>c. spaced (nat limit) (snd (run_window st limit exempt es ?H) c)" by (rule Cons.IH [OF _ t(2)])
  moreover have "snd (run_window st limit exempt (e # es) H) = snd (run_window st limit exempt es ?H)"
    using e by (auto simp: Let_def split: prod.splits)
  ultimately show ?case by simp
qed simp

text \<open>C14: the rate limiter enforces a sliding window per client: on any sequence of requests with a clock that
  does not run backwards it admits exactly the requests that a limiter which never forgets would
  admit, although it discards old entries and idle clients; and of the requests admitted for one
  client, any two that are the limit apart are more than 60 seconds apart. Health probes pass.\<close>

theorem rate_limiter_sliding_window:
  assumes "times_rise 0 es"
  shows "fst (run_limits st es (app_limiter st))
      = fst (run_window st (rate_limit_per_minute st) (lim_exempt (app_limiter st)) es (\<lambda>_. []))
    \<and> spaced (nat (rate_limit_per_minute st))
        (snd (run_window st (rate_limit_per_minute st) (lim_exempt (app_limiter st)) es (\<lambda>_. [])) c)"
proof -
  have "window_refines 0 (app_limiter st) (\<lambda>_. [])"
    by (simp add: window_refines_def bucket_of_def app_limiter_def new_rate_limiter_def)
  from run_limits_refines [OF this _ assms]
  have "fst (run_limits st es (app_limiter st))
      = fst (run_window st (rate_limit_per_minute st) (lim_exempt (app_limiter st)) es (\<lambda>_. []))"
    by (simp add: app_limiter_def new_rate_limiter_def)
  moreover have "\<forall>c. spaced (nat (rate_limit_per_minute st)) ((\<lambda>_. []) c)" by (simp add: spaced_def)
  ultimately show ?thesis using run_window_spaced [OF _ assms, of "rate_limit_per_minute st" "\<lambda>_. []"] by simp
qed

definition ex_burst :: "(pyfloat \<times> request) list" where
  "ex_burst = map (\<lambda>t. (t, ex_proxied)) [1, 2, 50, 61, 62, 63]"

theorem rate_limiter_sliding_window_witness:
  "fst (run_limits (behind_proxy\<lparr>rate_limit_per_minute := 2\<rparr>) ex_burst (app_limiter (behind_proxy\<lparr>rate_limit_per_minute := 2\<rparr>)))
     = [True, True, False, False, True, True]
   \<and> spaced 2 (snd (run_window (behind_proxy\<lparr>rate_limit_per_minute := 2\<rparr>) 2 (lim_exempt (app_limiter behind_proxy)) ex_burst (\<lambda>_. [])) ''203.0.113.7'')"
proof -
  let ?st = "behind_proxy\<lparr>rate_limit_per_minute := 2\<rparr>"
  have "times_rise 0 ex_burst" by (simp add: times_rise_def ex_burst_def)
  note rate_limiter_sliding_window [OF this, of ?st "''203.0.113.7''"]
  moreover have "fst (run_window ?st 2 (lim_exempt (app_limiter ?st)) ex_burst (\<lambda>_. [])) = [True, True, False, False, True, True]"
    by code_simp
  moreover have "lim_exempt (app_limiter behind_proxy) = lim_exempt (app_limiter ?st)" by (simp add: app_limiter_def new_rate_limiter_def)
  ultimately show ?thesis by simp
qed

section \<open>Which responses carry the headers\<close>

definition required_headers :: "string list" where
  "required_headers = [''x-request-id'', ''x-response-time-ms'', ''X-Content-Type-Options'', ''X-Frame-Options'',
     ''Referrer-Policy'', ''Content-Security-Policy'', ''Strict-Transport-Security'']"

lemma has_header_setdefault: "has_header n (setdefault_header m v r) \<longleftrightarrow> py_lower n = py_lower m \<or> has_header n r"
  by (simp add: setdefault_header_def has_header_def) (metis)

lemma has_header_set: "has_header n (set_header m v r) \<longleftrightarrow> py_lower n = py_lower m \<or> has_header n r"
proof -
  have "map (\<lambda>h. py_lower (fst (if py_lower (fst h) = py_lower m then (m, v) else h))) hs = map (\<lambda>h. py_lower (fst h)) hs" for hs
    by simp
  then show ?thesis by (auto simp: set_header_def has_header_def comp_def simp del: map_eq_conv set_map)
qed

lemma security_headers_kept: "has_header n r \<Longrightarrow> has_header n (apply_security_headers r)"
  by (simp add: apply_security_headers_def has_header_setdefault)

lemma context_headers:
  "list_all (\<lambda>n. has_header n (apply_security_headers (set_header ''x-response-time-ms'' v (set_header ''x-request-id'' w r)))) required_headers"
  by (simp add: required_headers_def apply_security_headers_def has_header_setdefault has_header_set)

lemma error_response_lacks_id: "\<not> has_header ''x-request-id'' (handle_exception x)"
  by (auto simp: has_header_def handle_exception_def handle_app_error_def handle_unexpected_def py_lower_def lower_char_def
      split: exn.splits option.splits)

text \<open>Which responses carry the request identifier and the security headers: exactly those for which
  everything inside the context middleware returned a response. Application errors and refusals of
  the rate limiter do; the answer to an unexpected exception of a handler, which the framework builds
  outside the context middleware, does not.\<close>

theorem response_headers_iff:
  "(list_all (\<lambda>n. has_header n (fst (serve st cors ci now router req s))) required_headers
      \<longleftrightarrow> is_ok (fst (inner_app st cors now router req s)))
   \<and> (list_all (\<lambda>n. has_header n (fst (serve st (\<lambda>h. h) ci now router req (rl, x)))) required_headers
      \<longleftrightarrow> \<not> (fst (rate_limit st now req rl) = None \<and> (\<exists>n t. fst (router req x) = Inl (PyExn n t))))"
proof -
  have *: "list_all (\<lambda>n. has_header n (fst (serve st c ci now router req y))) required_headers
      \<longleftrightarrow> is_ok (fst (inner_app st c now router req y))" for c y
  proof -
    obtain res y' where "inner_app st c now router req y = (res, y')" by (metis surj_pair)
    then show ?thesis using error_response_lacks_id context_headers
      by (cases res) (auto simp: serve_def server_error_middleware_def request_context_def required_headers_def apure_def abind_def)
  qed
  have "is_ok (fst (inner_app st (\<lambda>h. h) now router req (rl, x)))
      \<longleftrightarrow> \<not> (fst (rate_limit st now req rl) = None \<and> (\<exists>n t. fst (router req x) = Inl (PyExn n t)))"
    by (auto simp: inner_app_def rate_limited_def exception_middleware_def split: prod.splits option.splits sum.splits exn.splits)
  then show ?thesis using * by blast
qed

end
