(* ===== verification/Sha256.thy ===== *)
theory Sha256
  imports Prelude "HOL-Library.Word"
begin

text \<open>
  The digest of the standard library that names the keys of the shared login throttle
  (\<^verbatim>\<open>hashlib.sha256(text.encode("utf-8")).hexdigest()\<close> in
  \<^verbatim>\<open>app/security/throttle.py\<close>): SHA-256 on 32-bit words, after FIPS 180-4. The constants
  are the fractional parts of the cube roots and square roots of the first primes.
\<close>

unbundle bit_operations_syntax

type_synonym word32 = "32 word"
type_synonym sha_state = "word32 list"

section \<open>Bytes of a text\<close>

text \<open>A character of the model stands for a code point below 256, which takes one or two bytes.\<close>

definition utf8_char :: "char \<Rightarrow> int list" where
  "utf8_char c = (let n = int (of_char c) in if n < 128 then [n] else [192 + n div 64, 128 + n mod 64])"

definition utf8 :: "string \<Rightarrow> int list" where
  "utf8 s = concat (map utf8_char s)"

text \<open>The encoding is injective, so that distinct texts have distinct bytes.\<close>

fun utf8_decode :: "int list \<Rightarrow> string" where
  "utf8_decode [] = []"
| "utf8_decode [a] = [char_of (nat a)]"
| "utf8_decode (a # b # bs) = (if a < 128 then char_of (nat a) # utf8_decode (b # bs)
     else char_of (nat ((a - 192) * 64 + (b - 128))) # utf8_decode bs)"

lemma utf8_decode_Cons: "a < 128 \<Longrightarrow> utf8_decode (a # bs) = char_of (nat a) # utf8_decode bs"
  by (cases bs) auto

lemma utf8_roundtrip: "utf8_decode (utf8 s) = s"
proof (induction s)
  case (Cons c s)
  have "nat ((192 + int n div 64 - 192) * 64 + (128 + int n mod 64 - 128)) = n" "\<not> 64 + int n div 64 < 0" for n
    by (simp_all add: not_less add_nonneg_nonneg)
  then show ?case using Cons by (simp add: utf8_def utf8_char_def Let_def utf8_decode_Cons)
qed (simp add: utf8_def)

section \<open>The compression function\<close>

text \<open>The constants: the first 32 bits of the fractional parts of the roots of the first primes.\<close>

definition small_primes :: "int list" where
  "small_primes = filter (\<lambda>n. list_all (\<lambda>d. n mod d \<noteq> 0) [2 .. n - 1]) [2 .. 311]"

text \<open>The integral \<open>k\<close>-th root of a number, bit by bit from above, for roots below $2^{36}$.\<close>

definition int_root :: "nat \<Rightarrow> int \<Rightarrow> int" where
  "int_root k n = fold (\<lambda>i r. if (r + 2 ^ i) ^ k \<le> n then r + 2 ^ i else r) (rev [0 ..< 36]) 0"

definition root_fraction :: "nat \<Rightarrow> int \<Rightarrow> word32" where
  "root_fraction k n = of_int (int_root k (n * 2 ^ (32 * k)))"

definition sha_k :: "word32 list" where
  "sha_k = map (root_fraction 3) small_primes"

definition sha_init :: sha_state where
  "sha_init = map (root_fraction 2) [2, 3, 5, 7, 11, 13, 17, 19]"

definition rotr :: "nat \<Rightarrow> word32 \<Rightarrow> word32" where
  "rotr n x = drop_bit n x OR push_bit (32 - n) x"

definition sha_ch :: "word32 \<Rightarrow> word32 \<Rightarrow> word32 \<Rightarrow> word32" where
  "sha_ch x y z = (x AND y) XOR (NOT x AND z)"

definition sha_maj :: "word32 \<Rightarrow> word32 \<Rightarrow> word32 \<Rightarrow> word32" where
  "sha_maj x y z = (x AND y) XOR (x AND z) XOR (y AND z)"

definition big_sigma0 :: "word32 \<Rightarrow> word32" where
  "big_sigma0 x = rotr 2 x XOR rotr 13 x XOR rotr 22 x"

definition big_sigma1 :: "word32 \<Rightarrow> word32" where
  "big_sigma1 x = rotr 6 x XOR rotr 11 x XOR rotr 25 x"

definition small_sigma0 :: "word32 \<Rightarrow> word32" where
  "small_sigma0 x = rotr 7 x XOR rotr 18 x XOR drop_bit 3 x"

definition small_sigma1 :: "word32 \<Rightarrow> word32" where
  "small_sigma1 x = rotr 17 x XOR rotr 19 x XOR drop_bit 10 x"

text \<open>
  The message schedule slides over its last sixteen words: \<open>sha_extend\<close> drops the oldest and
  appends the next. One round consumes the oldest word and a constant.
\<close>

definition sha_extend :: "word32 list \<Rightarrow> word32 list" where
  "sha_extend w = tl w @ [small_sigma1 (w ! 14) + w ! 9 + small_sigma0 (w ! 1) + w ! 0]"

definition sha_round :: "word32 \<Rightarrow> word32 \<Rightarrow> sha_state \<Rightarrow> sha_state" where
  "sha_round k w st =
     (case st of [a, b, c, d, e, f, g, h] \<Rightarrow>
        let t1 = h + big_sigma1 e + sha_ch e f g + k + w;
            t2 = big_sigma0 a + sha_maj a b c
        in [t1 + t2, a, b, c, d + t1, e, f, g]
      | _ \<Rightarrow> st)"

primrec sha_rounds :: "word32 list \<Rightarrow> word32 list \<Rightarrow> sha_state \<Rightarrow> sha_state" where
  "sha_rounds [] w st = st"
| "sha_rounds (k # ks) w st = sha_rounds ks (sha_extend w) (sha_round k (hd w) st)"

definition sha_block :: "word32 list \<Rightarrow> sha_state \<Rightarrow> sha_state" where
  "sha_block w st = map2 (+) st (sha_rounds sha_k w st)"

section \<open>Padding and output\<close>

fun chunks :: "nat \<Rightarrow> 'a list \<Rightarrow> 'a list list" where
  "chunks 0 xs = []"
| "chunks n [] = []"
| "chunks n xs = take n xs # chunks n (drop n xs)"

definition big_endian :: "int list \<Rightarrow> int" where
  "big_endian bs = foldl (\<lambda>n b. n * 256 + b) 0 bs"

definition bytes_of :: "nat \<Rightarrow> int \<Rightarrow> int list" where
  "bytes_of k n = map (\<lambda>i. n div 256 ^ i mod 256) (rev [0 ..< k])"

definition sha_pad :: "int list \<Rightarrow> int list" where
  "sha_pad bs = bs @ 128 # replicate ((119 - length bs mod 64) mod 64) 0 @ bytes_of 8 (8 * int (length bs))"

definition sha_words :: "int list \<Rightarrow> word32 list" where
  "sha_words bs = map (\<lambda>c. of_int (big_endian c)) (chunks 4 bs)"

definition sha256 :: "int list \<Rightarrow> sha_state" where
  "sha256 bs = fold (\<lambda>block st. sha_block (sha_words block) st) (chunks 64 (sha_pad bs)) sha_init"

definition hex_digit :: "int \<Rightarrow> char" where
  "hex_digit n = char_of (if n < 10 then 48 + n else 87 + n)"

definition hexdigest :: "sha_state \<Rightarrow> string" where
  "hexdigest st = concat (map (\<lambda>w. map (\<lambda>i. hex_digit (uint (drop_bit (4 * i) w AND 15))) (rev [0 ..< 8])) st)"

text \<open>The padded message is a whole number of blocks, and a digest has 64 hexadecimal digits.\<close>

lemma bytes_of_length [simp]: "length (bytes_of k n) = k"
  by (simp add: bytes_of_def)

lemma sha_pad_blocks: "64 dvd length (sha_pad bs)"
proof -
  define r q where "r = length bs mod 64" and "q = length bs div 64"
  have l: "length bs = 64 * q + r" "r < 64" by (simp_all add: r_def q_def)
  then have pad: "(119 - r) mod 64 = (if r \<le> 55 then 55 - r else 119 - r)" by (simp add: mod_if)
  have "length (sha_pad bs) = 64 * q + (r + 9 + (119 - r) mod 64)"
    unfolding sha_pad_def using l by (simp flip: r_def)
  also have "\<dots> = 64 * (q + (if r \<le> 55 then 1 else 2))" using l(2) by (simp add: pad)
  finally show ?thesis by simp
qed

lemma sha_round_length: "length (sha_round k w st) = length st"
  by (auto simp: sha_round_def Let_def split: list.splits)

lemma sha_rounds_length: "length (sha_rounds ks w st) = length st"
  by (induction ks arbitrary: w st) (simp_all add: sha_round_length)

lemma sha256_length: "length (sha256 bs) = 8"
proof -
  have "length (fold (\<lambda>block st. sha_block (sha_words block) st) blocks st) = length st" for blocks st
    by (induction blocks arbitrary: st) (simp_all add: sha_block_def sha_rounds_length)
  then show ?thesis by (simp add: sha256_def sha_init_def)
qed

lemma hexdigest_length: "length (hexdigest st) = 8 * length st"
  by (induction st) (simp_all add: hexdigest_def)

end
