(* ===== verification/Redis_Stores.thy ===== *)
theory Redis_Stores
  imports Auth_Stores Sha256
begin

text \<open>
  The stores of authentication that replicas share: \<^verbatim>\<open>RedisLoginThrottle\<close>
  (\<^verbatim>\<open>app/security/throttle.py\<close>) and \<^verbatim>\<open>RedisTokenStore\<close>
  (\<^verbatim>\<open>app/security/token_store.py\<close>). The server is third-party code: its command execution is
  an argument of the operations, and what its documentation promises is the locale
  \<open>redis_server\<close>, which compares it with a keyspace of values with deadlines. A command may
  raise, for instance when the connection is lost; then the operation raises.
\<close>

section \<open>The server\<close>

datatype redis_cmd =
    Exists string
  | Ttl string
  | Incr string
  | Expire string int
  | Set_ex string int int
  | Del "string list"

type_synonym redis_entry = "int \<times> rat option"
type_synonym keyspace = "string \<Rightarrow> redis_entry option"
type_synonym 'r redis_exec = "rat \<Rightarrow> redis_cmd list \<Rightarrow> ('r, exn, int list) action"

text \<open>What is left of an entry at a time.\<close>

definition alive :: "rat \<Rightarrow> redis_entry option \<Rightarrow> redis_entry option" where
  "alive t e = (case e of Some (v, Some d) \<Rightarrow> if t < d then e else None | _ \<Rightarrow> e)"

text \<open>
  The documented effect of a command. \<open>until\<close> is the deadline the server gives a key that
  expires in so many seconds, \<open>left\<close> how it counts the seconds up to a deadline.
\<close>

fun redis_step ::
    "(rat \<Rightarrow> int \<Rightarrow> rat) \<Rightarrow> (rat \<Rightarrow> rat \<Rightarrow> int) \<Rightarrow> rat \<Rightarrow> redis_cmd \<Rightarrow> keyspace \<Rightarrow> int \<times> keyspace" where
  "redis_step until left t (Exists k) ks = (if alive t (ks k) = None then 0 else 1, ks)"
| "redis_step until left t (Ttl k) ks =
     (case alive t (ks k) of None \<Rightarrow> - 2 | Some (v, None) \<Rightarrow> - 1 | Some (v, Some d) \<Rightarrow> left t d, ks)"
| "redis_step until left t (Incr k) ks =
     (case alive t (ks k) of
        None \<Rightarrow> (1, ks(k \<mapsto> (1, None)))
      | Some (v, d) \<Rightarrow> (v + 1, ks(k \<mapsto> (v + 1, d))))"
| "redis_step until left t (Expire k s) ks =
     (case alive t (ks k) of
        None \<Rightarrow> (0, ks)
      | Some (v, d) \<Rightarrow> (1, if s \<le> 0 then ks(k := None) else ks(k \<mapsto> (v, Some (until t s)))))"
| "redis_step until left t (Set_ex k v s) ks = (1, ks(k \<mapsto> (v, Some (until t s))))"
| "redis_step until left t (Del kl) ks =
     (int (length (filter (\<lambda>k. alive t (ks k) \<noteq> None) (remdups kl))), \<lambda>k. if k \<in> set kl then None else ks k)"

primrec redis_run ::
    "(rat \<Rightarrow> int \<Rightarrow> rat) \<Rightarrow> (rat \<Rightarrow> rat \<Rightarrow> int) \<Rightarrow> rat \<Rightarrow> redis_cmd list \<Rightarrow> keyspace \<Rightarrow> int list \<times> keyspace" where
  "redis_run until left t [] ks = ([], ks)"
| "redis_run until left t (c # cs) ks =
     (case redis_step until left t c ks of (n, ks1) \<Rightarrow>
        case redis_run until left t cs ks1 of (ns, ks2) \<Rightarrow> (n # ns, ks2))"

definition same_from :: "rat \<Rightarrow> keyspace \<Rightarrow> keyspace \<Rightarrow> bool" where
  "same_from t ks ks' \<longleftrightarrow> (\<forall>u \<ge> t. \<forall>k. alive u (ks k) = alive u (ks' k))"

section \<open>Operations\<close>

definition first_reply :: "int list \<Rightarrow> exn + int" where
  "first_reply out = (case out of [] \<Rightarrow> Inl (PyExn ''IndexError'' ''list index out of range'') | n # _ \<Rightarrow> Inr n)"

definition one_command :: "'r redis_exec \<Rightarrow> rat \<Rightarrow> redis_cmd \<Rightarrow> ('r, exn, int) action" where
  "one_command ex t c = abind (ex t [c]) (\<lambda>out. apure (first_reply out))"

definition digest :: "string \<Rightarrow> string" where
  "digest identity = hexdigest (sha256 (utf8 (normalise identity)))"

definition fail_key :: "string \<Rightarrow> string" where
  "fail_key identity = ''login_fail:'' @ digest identity"

definition lock_key :: "string \<Rightarrow> string" where
  "lock_key identity = ''login_lock:'' @ digest identity"

record 'r redis_throttle =
  rt_redis :: "'r redis_exec"
  rt_max_attempts :: int
  rt_lockout_seconds :: int

definition new_redis_throttle :: "'r redis_exec \<Rightarrow> int \<Rightarrow> int \<Rightarrow> 'r redis_throttle" where
  "new_redis_throttle ex max_attempts lockout =
     \<lparr>rt_redis = ex, rt_max_attempts = max_attempts, rt_lockout_seconds = lockout\<rparr>"

definition redis_is_locked :: "'r redis_throttle \<Rightarrow> rat \<Rightarrow> string \<Rightarrow> ('r, exn, bool) action" where
  "redis_is_locked th t identity =
     abind (one_command (rt_redis th) t (Exists (lock_key identity))) (\<lambda>n. apure (Inr (n \<noteq> 0)))"

definition redis_retry_after :: "'r redis_throttle \<Rightarrow> rat \<Rightarrow> string \<Rightarrow> ('r, exn, int) action" where
  "redis_retry_after th t identity =
     abind (one_command (rt_redis th) t (Ttl (lock_key identity))) (\<lambda>ttl. apure (Inr (if ttl > 0 then max 0 ttl else 0)))"

text \<open>The counter and its expiry are one transaction, the lock is a second round trip.\<close>

definition redis_failure :: "'r redis_throttle \<Rightarrow> rat \<Rightarrow> rat \<Rightarrow> string \<Rightarrow> ('r, exn, unit) action" where
  "redis_failure th t t' identity =
     abind (rt_redis th t [Incr (fail_key identity), Expire (fail_key identity) (rt_lockout_seconds th)]) (\<lambda>out.
     abind (apure (first_reply out)) (\<lambda>failures.
       if rt_max_attempts th \<le> failures
       then abind (one_command (rt_redis th) t' (Set_ex (lock_key identity) 1 (max (rt_lockout_seconds th) 1))) (\<lambda>_. apure (Inr ()))
       else apure (Inr ())))"

definition redis_success :: "'r redis_throttle \<Rightarrow> rat \<Rightarrow> string \<Rightarrow> ('r, exn, unit) action" where
  "redis_success th t identity =
     abind (one_command (rt_redis th) t (Del [fail_key identity, lock_key identity])) (\<lambda>_. apure (Inr ()))"

definition revoked_key :: "string \<Rightarrow> string" where
  "revoked_key jti = ''revoked_jti:'' @ jti"

definition redis_revoke :: "'r redis_exec \<Rightarrow> rat \<Rightarrow> string \<Rightarrow> int \<Rightarrow> ('r, exn, unit) action" where
  "redis_revoke ex t jti ttl =
     abind (one_command ex t (Set_ex (revoked_key jti) 1 (max ttl 1))) (\<lambda>_. apure (Inr ()))"

definition redis_is_revoked :: "'r redis_exec \<Rightarrow> rat \<Rightarrow> string \<Rightarrow> ('r, exn, bool) action" where
  "redis_is_revoked ex t jti = abind (one_command ex t (Exists (revoked_key jti))) (\<lambda>n. apure (Inr (n \<noteq> 0)))"

text \<open>
  Which store the process uses: the shared one when the settings ask for it and the client library can
  be set up, else the one in memory.
\<close>

datatype 'r throttle_backend = Memory_throttle throttle | Shared_throttle "'r redis_throttle"
datatype 'r token_backend = Memory_tokens jti_store | Shared_tokens "'r redis_exec"

definition select_throttle :: "settings \<Rightarrow> exn + 'r redis_exec \<Rightarrow> 'r throttle_backend" where
  "select_throttle st client =
     (case (use_redis_auth_store st, client) of
        (True, Inr ex) \<Rightarrow> Shared_throttle (new_redis_throttle ex (login_max_attempts st) (login_lockout_seconds st))
      | _ \<Rightarrow> Memory_throttle (get_login_throttle st))"

definition get_token_store :: "settings \<Rightarrow> exn + 'r redis_exec \<Rightarrow> 'r token_backend" where
  "get_token_store st client =
     (case (use_redis_auth_store st, client) of
        (True, Inr ex) \<Rightarrow> Shared_tokens ex
      | _ \<Rightarrow> Memory_tokens [])"

section \<open>What the server promises\<close>

text \<open>
  A server that answers, executes the commands of a transaction in order and keeps a key with an
  expiry for that many seconds, to a millisecond. The state it really keeps may differ in keys whose
  time has passed, which it removes when it likes.
\<close>

locale redis_server =
  fixes exec :: "'r redis_exec"
    and view :: "'r \<Rightarrow> keyspace"
    and until :: "rat \<Rightarrow> int \<Rightarrow> rat"
    and left :: "rat \<Rightarrow> rat \<Rightarrow> int"
  assumes answers: "\<exists>out r'. exec t cs r = (Inr out, r')"
    and replies: "exec t cs r = (Inr out, r') \<Longrightarrow> out = fst (redis_run until left t cs (view r))"
    and effect: "exec t cs r = (Inr out, r') \<Longrightarrow> same_from t (view r') (snd (redis_run until left t cs (view r)))"
    and until_bounds: "0 < s \<Longrightarrow> t + of_int s \<le> until t s" "0 < s \<Longrightarrow> until t s \<le> t + of_int s + 1 / 1000"
begin

lemma run_one: "\<exists>r'. one_command exec t c r = (Inr (fst (redis_step until left t c (view r))), r')
    \<and> same_from t (view r') (snd (redis_step until left t c (view r)))"
proof -
  obtain out r' where run: "exec t [c] r = (Inr out, r')" using answers by blast
  then have "out = [fst (redis_step until left t c (view r))]" "same_from t (view r') (snd (redis_step until left t c (view r)))"
    using replies [OF run] effect [OF run] by (simp_all add: case_prod_unfold)
  then show ?thesis using run by (simp add: one_command_def first_reply_def apure_def)
qed

lemma run_exists: "fst (one_command exec t (Exists k) r) = Inr (if alive t (view r k) = None then 0 else 1)"
  "same_from t (view (snd (one_command exec t (Exists k) r))) (view r)"
  using run_one [of t "Exists k" r] by auto

lemma run_set: "same_from t (view (snd (one_command exec t (Set_ex k v s) r))) ((view r)(k \<mapsto> (v, Some (until t s))))"
  using run_one [of t "Set_ex k v s" r] by auto

end

lemma same_fromD: "same_from t ks ks' \<Longrightarrow> t \<le> u \<Longrightarrow> alive u (ks k) = alive u (ks' k)"
  by (simp add: same_from_def)

lemma abind_pure_state: "snd (abind m (\<lambda>a. apure (f a)) s) = snd (m s)"
  by (cases "m s"; cases "fst (m s)") (auto simp: abind_def)

lemma abind_pure_result: "fst (m s) = Inr a \<Longrightarrow> fst (abind m (\<lambda>a. apure (f a)) s) = f a"
  by (cases "m s") (auto simp: abind_def)

section \<open>The shared token store implements the interface\<close>

context redis_server
begin

lemma is_revoked_iff:
  "fst (redis_is_revoked exec u j r) = Inr (alive u (view r (revoked_key j)) \<noteq> None)"
  using run_exists(1) [of u "revoked_key j" r] by (simp add: redis_is_revoked_def abind_pure_result)

lemma is_revoked_state: "same_from u (view (snd (redis_is_revoked exec u j r))) (view r)"
  using run_exists(2) by (simp add: redis_is_revoked_def abind_pure_state)

lemma revoke_state:
  "same_from t (view (snd (redis_revoke exec t j ttl r))) ((view r)(revoked_key j \<mapsto> (1, Some (until t (max ttl 1)))))"
  using run_set by (simp add: redis_revoke_def abind_pure_state)

end

sublocale redis_server \<subseteq> tokens: revocation_store
  "\<lambda>t j ttl r. snd (redis_revoke exec t j ttl r)" "\<lambda>u j r. fst (redis_is_revoked exec u j r) = Inr True"
  "\<lambda>t j r. snd (redis_is_revoked exec t j r)" "\<lambda>t ttl. until t (max ttl 1)" "\<lambda>_. True"
proof (unfold_locales, goal_cases)
  case (3 s t u j ttl)
  then show ?case using same_fromD [OF revoke_state, of t u j ttl s "revoked_key j"] by (simp add: is_revoked_iff alive_def)
next
  case (4 s i j t u ttl)
  then show ?case using same_fromD [OF revoke_state, of t u i ttl s "revoked_key j"] by (simp add: is_revoked_iff revoked_key_def)
next
  case (5 s t u j i)
  then show ?case using same_fromD [OF is_revoked_state, of t u i s "revoked_key j"] by (simp add: is_revoked_iff)
qed simp_all

section \<open>The shared throttle follows a reference\<close>

datatype throttle_event = Failed rat rat string | Succeeded rat string | Asked rat string

fun event_start :: "throttle_event \<Rightarrow> rat" where
  "event_start (Failed t t' i) = t" | "event_start (Succeeded t i) = t" | "event_start (Asked t i) = t"

fun event_end :: "throttle_event \<Rightarrow> rat" where
  "event_end (Failed t t' i) = t'" | "event_end (Succeeded t i) = t" | "event_end (Asked t i) = t"

fun event_identity :: "throttle_event \<Rightarrow> string" where
  "event_identity (Failed t t' i) = i" | "event_identity (Succeeded t i) = i" | "event_identity (Asked t i) = i"

definition apply_event :: "'r redis_throttle \<Rightarrow> throttle_event \<Rightarrow> 'r \<Rightarrow> 'r" where
  "apply_event th e r =
     (case e of
        Failed t t' i \<Rightarrow> snd (redis_failure th t t' i r)
      | Succeeded t i \<Rightarrow> snd (redis_success th t i r)
      | Asked t i \<Rightarrow> snd (redis_is_locked th t i r))"

text \<open>
  The reference looks at one identity only: how many failures there were in a row, each before the
  count of the previous one lapsed, and until when the identity is locked.
\<close>

record attack =
  ak_count :: int
  ak_count_until :: rat
  ak_locked_until :: "rat option"

definition no_attack :: attack where
  "no_attack = \<lparr>ak_count = 0, ak_count_until = 0, ak_locked_until = None\<rparr>"

definition in_a_row :: "rat \<Rightarrow> attack \<Rightarrow> int" where
  "in_a_row t a = (if ak_count a \<noteq> 0 \<and> t < ak_count_until a then ak_count a + 1 else 1)"

definition observe :: "(rat \<Rightarrow> int \<Rightarrow> rat) \<Rightarrow> int \<Rightarrow> int \<Rightarrow> string \<Rightarrow> throttle_event \<Rightarrow> attack \<Rightarrow> attack" where
  "observe until limit lockout i e a =
     (if normalise (event_identity e) \<noteq> normalise i then a
      else case e of
        Failed t t' _ \<Rightarrow>
          \<lparr>ak_count = in_a_row t a, ak_count_until = until t lockout,
           ak_locked_until = if limit \<le> in_a_row t a then Some (until t' lockout) else ak_locked_until a\<rparr>
      | Succeeded _ _ \<Rightarrow> no_attack
      | Asked _ _ \<Rightarrow> a)"

fun events_ordered :: "rat \<Rightarrow> throttle_event list \<Rightarrow> bool" where
  "events_ordered t [] = True"
| "events_ordered t (e # es) \<longleftrightarrow> t \<le> event_start e \<and> event_start e \<le> event_end e \<and> events_ordered (event_end e) es"

definition last_time :: "rat \<Rightarrow> throttle_event list \<Rightarrow> rat" where
  "last_time t es = (if es = [] then t else event_end (last es))"

text \<open>The reference is what the two keys of the identity hold, as far as they are alive.\<close>

definition keys_hold :: "rat \<Rightarrow> keyspace \<Rightarrow> string \<Rightarrow> attack \<Rightarrow> bool" where
  "keys_hold t ks i a \<longleftrightarrow>
     (\<forall>u \<ge> t. alive u (ks (fail_key i)) = (if ak_count a \<noteq> 0 \<and> u < ak_count_until a then Some (ak_count a, Some (ak_count_until a)) else None))
     \<and> (\<forall>u \<ge> t. alive u (ks (lock_key i)) =
           (case ak_locked_until a of None \<Rightarrow> None | Some d \<Rightarrow> if u < d then Some (1, Some d) else None))
     \<and> 0 \<le> ak_count a"

lemma digest_cong: "normalise i = normalise j \<Longrightarrow> fail_key i = fail_key j" "normalise i = normalise j \<Longrightarrow> lock_key i = lock_key j"
  by (simp_all add: fail_key_def lock_key_def digest_def)

lemma keys_distinct [simp]: "fail_key i \<noteq> lock_key j" "lock_key j \<noteq> fail_key i"
  by (simp_all add: fail_key_def lock_key_def)

lemma keys_same_iff: "fail_key i = fail_key j \<longleftrightarrow> digest i = digest j" "lock_key i = lock_key j \<longleftrightarrow> digest i = digest j"
  by (simp_all add: fail_key_def lock_key_def)

lemma count_pair: "\<exists>n m. fst (redis_run until left t [Incr k, Expire k L] ks) = [n, m]"
  by (simp split: prod.splits)

lemma count_other: "k' \<noteq> k \<Longrightarrow> snd (redis_run until left t [Incr k, Expire k L] ks) k' = ks k'"
  by (cases "alive t (ks k)") (auto simp: alive_def split: prod.splits option.splits)

lemma keys_hold_same:
  "keys_hold t ks i a \<Longrightarrow> same_from t' ks' ks'' \<Longrightarrow> t \<le> t' \<Longrightarrow> ks'' (fail_key i) = ks (fail_key i) \<Longrightarrow> ks'' (lock_key i) = ks (lock_key i)
    \<Longrightarrow> keys_hold t' ks' i a"
  unfolding keys_hold_def same_from_def by simp

lemma alive_later: "t \<le> u \<Longrightarrow> alive u (alive t e) = alive u e"
  by (auto simp: alive_def split: option.splits)

context redis_server
begin

text \<open>The transaction of a failure: the count, and the keyspace it leaves.\<close>

lemma count_runs:
  assumes "keys_hold t0 (view r) i a" "t0 \<le> t" "0 < L"
  shows "\<exists>r'. exec t [Incr (fail_key i), Expire (fail_key i) L] r = (Inr [in_a_row t a, 1], r')
    \<and> same_from t (view r') ((view r)(fail_key i \<mapsto> (in_a_row t a, Some (until t L))))"
proof -
  let ?cs = "[Incr (fail_key i), Expire (fail_key i) L]"
  have now: "alive t (view r (fail_key i)) =
      (if ak_count a \<noteq> 0 \<and> t < ak_count_until a then Some (ak_count a, Some (ak_count_until a)) else None)"
    using assms(1,2) by (simp add: keys_hold_def)
  then have spec: "redis_run until left t ?cs (view r) =
      ([in_a_row t a, 1], (view r)(fail_key i \<mapsto> (in_a_row t a, Some (until t L))))"
    using assms(3) by (simp add: in_a_row_def alive_def)
  obtain out r' where run: "exec t ?cs r = (Inr out, r')" using answers by blast
  show ?thesis using run replies [OF run] effect [OF run] unfolding spec by simp
qed

lemma failure_holds:
  assumes "keys_hold t0 (view r) i a" "t0 \<le> t" "t \<le> t'" "0 < L" "normalise j = normalise i"
  shows "keys_hold t' (view (snd (redis_failure (new_redis_throttle exec limit L) t t' j r))) i
    (observe until limit L i (Failed t t' j) a)"
proof -
  let ?n = "in_a_row t a"
  have keys: "fail_key j = fail_key i" "lock_key j = lock_key i" using digest_cong assms(5) by blast+
  obtain r1 where r1: "exec t [Incr (fail_key i), Expire (fail_key i) L] r = (Inr [?n, 1], r1)"
    "same_from t (view r1) ((view r)(fail_key i \<mapsto> (?n, Some (until t L))))"
    using count_runs [OF assms(1,2,4)] by blast
  have L: "max L 1 = L" using assms(4) by simp
  have n: "1 \<le> ?n" using assms(1) by (simp add: in_a_row_def keys_hold_def)
  have at: "alive u (view r1 (fail_key i)) = (if u < until t L then Some (?n, Some (until t L)) else None)"
    "alive u (view r1 (lock_key i)) = alive u (view r (lock_key i))" if "t \<le> u" for u
    using same_fromD [OF r1(2) that] by (simp_all add: alive_def)
  show ?thesis
  proof (cases "limit \<le> ?n")
    case True
    then have run: "snd (redis_failure (new_redis_throttle exec limit L) t t' j r)
        = snd (one_command exec t' (Set_ex (lock_key i) 1 (max L 1)) r1)"
      by (simp add: redis_failure_def new_redis_throttle_def keys r1(1) first_reply_def abind_pure_state)
    have "alive u (view (snd (one_command exec t' (Set_ex (lock_key i) 1 (max L 1)) r1)) k)
        = alive u (((view r1)(lock_key i \<mapsto> (1, Some (until t' L)))) k)" if "t' \<le> u" for u k
      using same_fromD [OF run_set [where s = "max L 1"] that] L by simp
    then show ?thesis using True assms(3,5) n at
      by (auto simp: keys_hold_def run observe_def alive_def)
  next
    case False
    then have "snd (redis_failure (new_redis_throttle exec limit L) t t' j r) = r1"
      by (simp add: redis_failure_def new_redis_throttle_def keys r1(1) first_reply_def)
    then show ?thesis using False assms n at by (auto simp: keys_hold_def observe_def)
  qed
qed

lemma failure_other:
  assumes "keys_hold t0 (view r) i a" "t0 \<le> t" "t \<le> t'" "digest j \<noteq> digest i"
  shows "keys_hold t' (view (snd (redis_failure (new_redis_throttle exec limit L) t t' j r))) i a"
proof -
  let ?cs = "[Incr (fail_key j), Expire (fail_key j) L]"
  have keys: "fail_key i \<noteq> fail_key j" "lock_key i \<noteq> lock_key j" using assms(4) by (auto simp: keys_same_iff)
  obtain out r1 where run: "exec t ?cs r = (Inr out, r1)" using answers by blast
  obtain n m ks where ks: "redis_run until left t ?cs (view r) = ([n, m], ks)"
    using count_pair [of until left t "fail_key j" L "view r"] by (metis prod.collapse)
  have kept: "ks (fail_key i) = view r (fail_key i)" "ks (lock_key i) = view r (lock_key i)"
    using count_other [of _ "fail_key j" until left t L "view r"] keys ks by (metis snd_conv keys_distinct)+
  have out: "out = [n, m]" and same: "same_from t (view r1) ks" using replies [OF run] effect [OF run] unfolding ks by simp_all
  have h1: "keys_hold t (view r1) i a" by (rule keys_hold_same [OF assms(1) same assms(2) kept])
  show ?thesis
  proof (cases "limit \<le> n")
    case True
    then have "snd (redis_failure (new_redis_throttle exec limit L) t t' j r)
        = snd (one_command exec t' (Set_ex (lock_key j) 1 (max L 1)) r1)"
      by (simp add: redis_failure_def new_redis_throttle_def run out first_reply_def abind_pure_state)
    then show ?thesis using keys_hold_same [OF h1 run_set assms(3)] keys(2) by simp
  next
    case False
    then have "snd (redis_failure (new_redis_throttle exec limit L) t t' j r) = r1"
      by (simp add: redis_failure_def new_redis_throttle_def run out first_reply_def)
    then show ?thesis using h1 assms(3) by (simp add: keys_hold_def)
  qed
qed

lemma success_state:
  "same_from t (view (snd (redis_success (new_redis_throttle exec limit L) t j r)))
     (\<lambda>k. if k = fail_key j \<or> k = lock_key j then None else view r k)"
  using run_one [of t "Del [fail_key j, lock_key j]" r] by (auto simp: redis_success_def new_redis_throttle_def abind_pure_state)

lemma asked_state: "same_from t (view (snd (redis_is_locked (new_redis_throttle exec limit L) t j r))) (view r)"
  using run_exists(2) by (simp add: redis_is_locked_def new_redis_throttle_def abind_pure_state)

lemma event_holds:
  assumes "keys_hold t0 (view r) i a" "t0 \<le> event_start e" "event_start e \<le> event_end e" "0 < L"
    and "digest (event_identity e) = digest i \<longleftrightarrow> normalise (event_identity e) = normalise i"
  shows "keys_hold (event_end e) (view (apply_event (new_redis_throttle exec limit L) e r)) i (observe until limit L i e a)"
proof (cases "normalise (event_identity e) = normalise i")
  case True
  show ?thesis
  proof (cases e)
    case (Failed t t' j)
    then show ?thesis using failure_holds [OF assms(1), of t t' L j limit] assms True by (simp add: apply_event_def)
  next
    case (Succeeded t j)
    then have keys: "fail_key j = fail_key i" "lock_key j = lock_key i" using digest_cong [of j i] True by simp_all
    show ?thesis using same_fromD [OF success_state [of t limit L j r]] Succeeded True
      by (simp add: keys_hold_def apply_event_def observe_def no_attack_def keys alive_def)
  next
    case (Asked t j)
    then show ?thesis using keys_hold_same [OF assms(1) asked_state] assms(2) True by (simp add: apply_event_def observe_def)
  qed
next
  case False
  then have d: "digest (event_identity e) \<noteq> digest i" using assms(5) by simp
  show ?thesis
  proof (cases e)
    case (Failed t t' j)
    then show ?thesis using failure_other [OF assms(1), of t t' j limit L] assms d False by (simp add: apply_event_def observe_def)
  next
    case (Succeeded t j)
    then have "fail_key i \<noteq> fail_key j" "lock_key i \<noteq> lock_key j" using d by (auto simp: keys_same_iff)
    then show ?thesis using keys_hold_same [OF assms(1) success_state] assms(2) Succeeded False
      by (simp add: apply_event_def observe_def)
  next
    case (Asked t j)
    then show ?thesis using keys_hold_same [OF assms(1) asked_state] assms(2) False by (simp add: apply_event_def observe_def)
  qed
qed

lemma events_hold:
  assumes "keys_hold t0 (view r) i a" "events_ordered t0 es" "0 < L"
    and "\<forall>e \<in> set es. digest (event_identity e) = digest i \<longleftrightarrow> normalise (event_identity e) = normalise i"
  shows "keys_hold (last_time t0 es) (view (fold (apply_event (new_redis_throttle exec limit L)) es r)) i
    (fold (observe until limit L i) es a)"
  using assms
proof (induction es arbitrary: t0 r a)
  case (Cons e es)
  have lt: "last_time t0 (e # es) = last_time (event_end e) es" by (simp add: last_time_def)
  show ?case unfolding lt using Cons event_holds [OF Cons.prems(1), of e L limit] by simp
qed (simp add: last_time_def)

lemma locked_iff:
  assumes "keys_hold t (view r) i a" "t \<le> u"
  shows "fst (redis_is_locked (new_redis_throttle exec limit L) u i r)
    = Inr (case ak_locked_until a of None \<Rightarrow> False | Some d \<Rightarrow> u < d)"
  using run_exists(1) [of u "lock_key i" r] assms
  by (auto simp: redis_is_locked_def new_redis_throttle_def abind_pure_result keys_hold_def split: option.splits)

lemma retry_answer:
  assumes "keys_hold t (view r) i a" "t \<le> u"
  shows "fst (redis_retry_after (new_redis_throttle exec limit L) u i r)
    = Inr (case ak_locked_until a of None \<Rightarrow> 0 | Some d \<Rightarrow> if u < d then max 0 (left u d) else 0)"
proof -
  obtain r' where r': "one_command exec u (Ttl (lock_key i)) r = (Inr (fst (redis_step until left u (Ttl (lock_key i)) (view r))), r')"
    using run_one [of u "Ttl (lock_key i)" r] by blast
  show ?thesis using assms
    by (auto simp: redis_retry_after_def new_redis_throttle_def abind_def apure_def r' keys_hold_def split: option.splits)
qed

lemma retry_state: "same_from t (view (snd (redis_retry_after (new_redis_throttle exec limit L) t j r))) (view r)"
  using run_one [of t "Ttl (lock_key j)" r] by (auto simp: redis_retry_after_def new_redis_throttle_def abind_pure_state)

end

section \<open>Bursts and trickles\<close>

text \<open>
  What the reference makes of plain sequences of failures: failures that follow one another within
  the lockout period accumulate, failures further apart never do.
\<close>

definition failures :: "string \<Rightarrow> rat list \<Rightarrow> throttle_event list" where
  "failures i ts = map (\<lambda>t. Failed t t i) ts"

lemma observe_failure:
  "observe until limit L i (Failed t t' i) a =
     \<lparr>ak_count = in_a_row t a, ak_count_until = until t L,
      ak_locked_until = if limit \<le> in_a_row t a then Some (until t' L) else ak_locked_until a\<rparr>"
  by (simp add: observe_def)

lemma burst_counts:
  assumes until: "\<And>t. t + of_int L \<le> until t L" and "ts \<noteq> []" "successively (\<lambda>t u. u < t + of_int L) ts"
  shows "ak_count (fold (observe until limit L i) (failures i ts) no_attack) = int (length ts)
    \<and> ak_count_until (fold (observe until limit L i) (failures i ts) no_attack) = until (last ts) L"
  using assms(2,3)
proof (induction ts rule: rev_induct)
  case (snoc t ts)
  show ?case
  proof (cases "ts = []")
    case False
    then have "t < last ts + of_int L" "successively (\<lambda>t u. u < t + of_int L) ts"
      using snoc.prems by (simp_all add: successively_append_iff)
    then show ?thesis using snoc.IH False order_less_le_trans [OF _ until]
      by (simp add: failures_def observe_failure in_a_row_def)
  qed (simp add: failures_def observe_failure in_a_row_def no_attack_def)
qed simp

lemma burst_locks:
  assumes until: "\<And>t. t + of_int L \<le> until t L" and "ts \<noteq> []" "successively (\<lambda>t u. u < t + of_int L) ts" "limit \<le> int (length ts)"
  shows "ak_locked_until (fold (observe until limit L i) (failures i ts) no_attack) = Some (until (last ts) L)"
proof -
  obtain us t where ts: "ts = us @ [t]" using assms(2) by (metis rev_exhaust)
  have "in_a_row t (fold (observe until limit L i) (failures i us) no_attack) = int (length ts)"
    using burst_counts [where until = until and L = L, OF until assms(2,3), of limit i] by (simp add: ts failures_def observe_failure)
  then show ?thesis using assms(4) by (simp add: ts failures_def observe_failure)
qed

lemma trickle_never_locks:
  assumes until: "\<And>t. until t L \<le> t + of_int L + 1 / 1000"
    and "successively (\<lambda>t u. t + of_int L + 1 / 1000 \<le> u) ts" "1 < limit"
  shows "ak_locked_until (fold (observe until limit L i) (failures i ts) no_attack) = None
    \<and> (ts \<noteq> [] \<longrightarrow> ak_count_until (fold (observe until limit L i) (failures i ts) no_attack) = until (last ts) L)"
  using assms(2)
proof (induction ts rule: rev_induct)
  case (snoc t ts)
  let ?a = "fold (observe until limit L i) (failures i ts) no_attack"
  have "in_a_row t ?a = 1"
  proof (cases "ts = []")
    case False
    then have "until (last ts) L \<le> t" using snoc.prems order_trans [OF until] by (simp add: successively_append_iff)
    then show ?thesis using snoc.IH snoc.prems False by (simp add: in_a_row_def successively_append_iff)
  qed (simp add: failures_def in_a_row_def no_attack_def)
  then show ?case using snoc.IH snoc.prems assms(3)
    by (simp add: failures_def observe_failure successively_append_iff)
qed (simp add: failures_def no_attack_def)

section \<open>A server that keeps its promises\<close>

text \<open>Keys whose time has passed are removed after every transaction.\<close>

definition local_exec :: "keyspace redis_exec" where
  "local_exec t cs ks =
     (case redis_run (\<lambda>t s. t + of_int s) (\<lambda>t d. \<lfloor>d - t\<rfloor>) t cs ks of (out, ks') \<Rightarrow> (Inr out, \<lambda>k. alive t (ks' k)))"

interpretation local_redis: redis_server local_exec "\<lambda>ks. ks" "\<lambda>t s. t + of_int s" "\<lambda>t d. \<lfloor>d - t\<rfloor>"
  by unfold_locales (auto simp: local_exec_def same_from_def alive_later split: prod.splits)

section \<open>Properties\<close>

text \<open>An unreachable server makes the operations raise: nobody passes a check that could not be made.\<close>

lemma unreachable_fails_closed:
  assumes "\<And>t cs. \<exists>e. fst (ex t cs r) = Inl e"
  shows "(\<exists>e. fst (redis_is_locked (new_redis_throttle ex limit lockout) t i r) = Inl e) \<and> (\<exists>e. fst (redis_is_revoked ex t j r) = Inl e)"
proof -
  have "\<exists>e. fst (one_command ex t c r) = Inl e" for t c
    using assms [of t "[c]"] by (cases "ex t [c] r") (auto simp: one_command_def abind_def)
  then have "\<exists>e r'. one_command ex t c r = (Inl e, r')" for t c by (metis prod.collapse)
  then show ?thesis
    by (simp add: redis_is_locked_def redis_is_revoked_def new_redis_throttle_def abind_def split: prod.split sum.split) (metis prod.inject sum.distinct(1))
qed

text \<open>The shared login throttle follows its reference on every sequence of failed, successful and
  queried logins of any identities, over any server that keeps what its documentation promises: an
  identity is locked exactly if a failure found at least the limit of failures in a row, each within
  the lockout period of the one before it, with no success in between, until the lockout period of the
  last such failure has passed. Other identities have no influence, as far as their digests differ.\<close>

theorem shared_throttle_follows_reference:
  assumes "redis_server ex view until left" and "0 < lockout" and "events_ordered t0 es" and "last_time t0 es \<le> now"
    and "\<forall>e \<in> set es. digest (event_identity e) = digest i \<longleftrightarrow> normalise (event_identity e) = normalise i"
    and "\<forall>u \<ge> t0. alive u (view r (fail_key i)) = None \<and> alive u (view r (lock_key i)) = None"
  shows "fst (redis_is_locked (new_redis_throttle ex limit lockout) now i
        (fold (apply_event (new_redis_throttle ex limit lockout)) es r))
    = Inr (case ak_locked_until (fold (observe until limit lockout i) es no_attack) of None \<Rightarrow> False | Some d \<Rightarrow> now < d)"
proof -
  have "keys_hold t0 (view r) i no_attack" using assms(6) by (simp add: keys_hold_def no_attack_def)
  from redis_server.events_hold [OF assms(1) this assms(3,2,5)] show ?thesis
    by (rule redis_server.locked_iff [OF assms(1)]) (rule assms(4))
qed

theorem shared_throttle_follows_reference_witness:
  "fst (redis_is_locked (new_redis_throttle local_exec 2 300) 100 ''eve@x.io''
     (fold (apply_event (new_redis_throttle local_exec 2 300))
        [Failed 10 10 ''eve@x.io'', Asked 11 ''EVE@x.io'', Failed 12 13 '' EVE@x.io''] (\<lambda>_. None))) = Inr True"
proof -
  have n: "normalise ''EVE@x.io'' = normalise ''eve@x.io''" "normalise '' EVE@x.io'' = normalise ''eve@x.io''" by code_simp+
  then have "digest ''EVE@x.io'' = digest ''eve@x.io''" "digest '' EVE@x.io'' = digest ''eve@x.io''" by (simp_all add: digest_def)
  with n show ?thesis
    by (subst shared_throttle_follows_reference [OF local_redis.redis_server_axioms, where ?t0.0 = 0])
      (simp_all add: last_time_def alive_def observe_def in_a_row_def no_attack_def)
qed

end
