(* ===== verification/Workers.thy ===== *)
theory Workers
  imports Accounts
begin

text \<open>
  The background jobs (\<^verbatim>\<open>app/workers\<close>) and the cached database engine they share with the
  API process (\<^verbatim>\<open>app/database/session.py\<close>). A task runs its coroutine on an event loop of
  its own; an engine belongs to the loop that created it. Alert rules and the creation times of audit
  entries are read by no other modelled component, so the tables of these jobs are arguments.
\<close>

section \<open>The engine\<close>

record engine =
  en_url :: string
  en_loop :: nat
  en_check_same_thread :: bool
  en_static_pool :: bool
  en_pool_pre_ping :: bool

record engine_cache =
  eg_engine :: "engine option"
  eg_sessionmaker :: "engine option"

definition no_engine :: engine_cache where
  "no_engine = \<lparr>eg_engine = None, eg_sessionmaker = None\<rparr>"

fun starts_with :: "string \<Rightarrow> string \<Rightarrow> bool" where
  "starts_with [] s = True"
| "starts_with (c # cs) [] = False"
| "starts_with (c # cs) (x # xs) \<longleftrightarrow> c = x \<and> starts_with cs xs"

fun is_substring :: "string \<Rightarrow> string \<Rightarrow> bool" where
  "is_substring p [] \<longleftrightarrow> p = []"
| "is_substring p (x # xs) \<longleftrightarrow> starts_with p (x # xs) \<or> is_substring p xs"

definition create_engine :: "string \<Rightarrow> nat \<Rightarrow> engine" where
  "create_engine url loop =
     (let sqlite = starts_with ''sqlite'' url; memory = sqlite \<and> is_substring '':memory:'' url
      in \<lparr>en_url = url, en_loop = loop, en_check_same_thread = \<not> sqlite, en_static_pool = memory,
          en_pool_pre_ping = \<not> memory\<rparr>)"

definition get_engine :: "settings \<Rightarrow> nat \<Rightarrow> engine_cache \<Rightarrow> engine \<times> engine_cache" where
  "get_engine st loop s =
     (case eg_engine s of
        Some e \<Rightarrow> (e, s)
      | None \<Rightarrow>
          let e = create_engine (database_url st) loop
          in (e, \<lparr>eg_engine = Some e, eg_sessionmaker = Some e\<rparr>))"

definition get_sessionmaker :: "settings \<Rightarrow> nat \<Rightarrow> (engine_cache, exn, engine) action" where
  "get_sessionmaker st loop s =
     (let s' = (if eg_sessionmaker s = None then snd (get_engine st loop s) else s)
      in case eg_sessionmaker s' of
           None \<Rightarrow> (Inl (PyExn ''AssertionError'' []), s')
         | Some m \<Rightarrow> (Inr m, s'))"

definition reset_engine :: "engine_cache \<Rightarrow> engine_cache" where
  "reset_engine s = no_engine"

text \<open>Opening a session on pooled connections of another loop fails.\<close>

definition open_session :: "settings \<Rightarrow> nat \<Rightarrow> (engine_cache, exn, engine) action" where
  "open_session st loop =
     abind (get_sessionmaker st loop) (\<lambda>m.
       apure (if en_loop m = loop then Inr m else Inl (PyExn ''RuntimeError'' ''attached to a different loop'')))"

text \<open>One task: a new event loop, the coroutine, and the engine disposed of whatever happened.\<close>

definition run_task :: "nat \<Rightarrow> (nat \<Rightarrow> (engine_cache, exn, 'a) action) \<Rightarrow> (engine_cache, exn, 'a) action" where
  "run_task loop coro s = (case coro loop s of (r, s') \<Rightarrow> (r, reset_engine s'))"

definition init_models :: "settings \<Rightarrow> nat \<Rightarrow> engine_cache \<Rightarrow> engine_cache" where
  "init_models st loop s = snd (get_engine st loop s)"

section \<open>Portfolio synchronisation\<close>

definition active_users :: "db \<Rightarrow> string list" where
  "active_users d = map us_id (filter us_is_active (db_users d))"

primrec sync_users ::
    "'x app \<Rightarrow> (string \<Rightarrow> string \<Rightarrow> pyfloat \<times> pyfloat) \<Rightarrow> string list \<Rightarrow> int \<Rightarrow> 'x svc_state \<Rightarrow> int \<times> 'x svc_state" where
  "sync_users ap clk [] synced st = (synced, st)"
| "sync_users ap clk (u # us) synced st =
     (case aggregate_balances ap (clk u) u st of
        (Inl e, st') \<Rightarrow> sync_users ap clk us synced st'
      | (Inr _, st') \<Rightarrow> sync_users ap clk us (synced + 1) st')"

text \<open>The session is closed without a commit, which discards its work.\<close>

definition sync_all_portfolios ::
    "'x app \<Rightarrow> (string \<Rightarrow> string \<Rightarrow> pyfloat \<times> pyfloat) \<Rightarrow> db \<times> 'x net \<Rightarrow> pyval \<times> (db \<times> 'x net)" where
  "sync_all_portfolios ap clk = (\<lambda>(d, net).
     case sync_users ap clk (active_users d) 0 (\<lparr>ss_committed = d, ss_work = d\<rparr>, net) of
       (synced, (s, net')) \<Rightarrow> (VDict [(''synced'', VInt synced)], (ss_committed s, net')))"

section \<open>Alerts and audit log\<close>

record alert_rule =
  al_id :: string
  al_user_id :: string
  al_metric :: string
  al_symbol :: "string option"
  al_operator :: string
  al_threshold :: decimal
  al_is_active :: bool
  al_triggered :: bool

definition evaluate_alerts :: "alert_rule list \<Rightarrow> pyval" where
  "evaluate_alerts rules = VDict [(''active_rules'', VInt (int (length (filter al_is_active rules))))]"

record audit_entry = audit_row +
  au_created_at :: rat

definition cleanup_old_audit_logs :: "rat \<Rightarrow> int \<Rightarrow> audit_entry list \<Rightarrow> int \<times> audit_entry list" where
  "cleanup_old_audit_logs now retention_days rows =
     (let cutoff = now - of_int (retention_days * 86400)
      in (int (length (filter (\<lambda>r. au_created_at r < cutoff) rows)), filter (\<lambda>r. \<not> au_created_at r < cutoff) rows))"

text \<open>The periodic schedule: entry, task and seconds.\<close>

definition beat_schedule :: "(string \<times> string \<times> rat) list" where
  "beat_schedule =
     [(''sync-portfolios'', ''app.workers.tasks.sync_all_portfolios'', 60),
      (''evaluate-alerts'', ''app.workers.tasks.evaluate_alerts'', 30),
      (''cleanup-audit-logs'', ''app.workers.tasks.cleanup_old_audit_logs'', 3600)]"

section \<open>Lemmas\<close>

lemma open_session_fresh: "\<exists>m s'. open_session st loop no_engine = (Inr m, s') \<and> en_loop m = loop \<and> en_url m = database_url st"
  by (simp add: open_session_def get_sessionmaker_def get_engine_def no_engine_def create_engine_def Let_def abind_def apure_def)

lemma open_session_cached:
  "open_session st loop \<lparr>eg_engine = Some e, eg_sessionmaker = Some e\<rparr> =
     (if en_loop e = loop then Inr e else Inl (PyExn ''RuntimeError'' ''attached to a different loop''),
      \<lparr>eg_engine = Some e, eg_sessionmaker = Some e\<rparr>)"
  by (simp add: open_session_def get_sessionmaker_def Let_def abind_def apure_def)

lemma aggregate_runs: "\<exists>b net'. aggregate_balances ap clk u (s, net) = (Inr b, (s, net'))"
proof -
  obtain totals s' net' where sum: "sum_accounts ap clk (account_list_for_user u (ss_work s)) [] (s, net) = (totals, (s', net'))"
    by (metis surj_pair)
  then have "s' = s" using sum_accounts_same [of ap clk "account_list_for_user u (ss_work s)" "[]" "(s, net)"] by simp
  then show ?thesis using sum by (simp add: aggregate_balances_def list_accounts_def read_work_def on_work_def abind_def)
qed

lemma sync_users_runs: "\<exists>net'. sync_users ap clk us n (s, net) = (n + int (length us), (s, net'))"
proof (induction us arbitrary: n net)
  case (Cons u us)
  obtain b net' where "aggregate_balances ap (clk u) u (s, net) = (Inr b, (s, net'))" using aggregate_runs by blast
  then show ?case using Cons.IH [of "n + 1" net'] by (auto simp: algebra_simps)
qed simp

text \<open>Synchronising counts every active user, whatever fails at the exchanges, and leaves the database as it is.\<close>

lemma sync_counts_active_users:
  "\<exists>net'. sync_all_portfolios ap clk (d, net) = (VDict [(''synced'', VInt (int (length (active_users d))))], (d, net'))"
  using sync_users_runs [of ap clk "active_users d" 0 "\<lparr>ss_committed = d, ss_work = d\<rparr>" net]
  by (auto simp: sync_all_portfolios_def)

lemma scheduled_tasks: "distinct (map fst beat_schedule) \<and> list_all (\<lambda>(_, _, period). 0 < period) beat_schedule"
  by code_simp

text \<open>
  Cleaning up deletes exactly what left the window, and cleaning up again later is the same as cleaning
  up once: the runs together delete each entry once.
\<close>

lemma cleanup_window:
  "set (snd (cleanup_old_audit_logs now days rows)) = {r \<in> set rows. now - of_int (days * 86400) \<le> au_created_at r}
   \<and> fst (cleanup_old_audit_logs now days rows) + int (length (snd (cleanup_old_audit_logs now days rows))) = int (length rows)"
  using sum_length_filter_compl [of "\<lambda>r. au_created_at r < now - of_int (days * 86400)" rows]
  by (auto simp: cleanup_old_audit_logs_def Let_def not_less simp flip: of_nat_add)

lemma cleanup_repeated:
  assumes "t \<le> t'"
  shows "snd (cleanup_old_audit_logs t' days (snd (cleanup_old_audit_logs t days rows))) = snd (cleanup_old_audit_logs t' days rows)
    \<and> fst (cleanup_old_audit_logs t days rows) + fst (cleanup_old_audit_logs t' days (snd (cleanup_old_audit_logs t days rows)))
      = fst (cleanup_old_audit_logs t' days rows)"
proof -
  have same: "snd (cleanup_old_audit_logs t' days (snd (cleanup_old_audit_logs t days rows))) = snd (cleanup_old_audit_logs t' days rows)"
    using assms by (auto simp: cleanup_old_audit_logs_def Let_def intro!: filter_cong)
  then show ?thesis
    using cleanup_window [of t days rows] cleanup_window [of t' days rows]
      cleanup_window [of t' days "snd (cleanup_old_audit_logs t days rows)"] by simp
qed

section \<open>Properties\<close>

text \<open>
  A process as the sequence of its tasks; every task may open sessions and reset the engine as often
  as it likes.
\<close>

datatype engine_use = Use_session | Use_engine | Use_reset

primrec use_engine :: "settings \<Rightarrow> nat \<Rightarrow> engine_use list \<Rightarrow> (engine_cache, exn, unit) action" where
  "use_engine st loop [] = apure (Inr ())"
| "use_engine st loop (u # us) =
     (case u of
        Use_session \<Rightarrow> abind (open_session st loop) (\<lambda>_. use_engine st loop us)
      | Use_engine \<Rightarrow> (\<lambda>s. use_engine st loop us (snd (get_engine st loop s)))
      | Use_reset \<Rightarrow> (\<lambda>s. use_engine st loop us (reset_engine s)))"

primrec run_tasks :: "settings \<Rightarrow> nat \<Rightarrow> engine_use list list \<Rightarrow> engine_cache \<Rightarrow> (exn + unit) list \<times> engine_cache" where
  "run_tasks st loop [] s = ([], s)"
| "run_tasks st loop (t # ts) s =
     (case run_task loop (\<lambda>l. use_engine st l t) s of (r, s1) \<Rightarrow>
        case run_tasks st (loop + 1) ts s1 of (rs, s2) \<Rightarrow> (r # rs, s2))"

definition on_loop :: "nat \<Rightarrow> engine_cache \<Rightarrow> bool" where
  "on_loop loop s \<longleftrightarrow> eg_sessionmaker s = eg_engine s \<and> (case eg_engine s of None \<Rightarrow> True | Some e \<Rightarrow> en_loop e = loop)"

lemma on_loop_steps:
  assumes "on_loop loop s"
  shows "on_loop loop (snd (get_engine st loop s))" "on_loop loop' (reset_engine s)"
    "\<exists>m s'. open_session st loop s = (Inr m, s') \<and> on_loop loop s'"
proof -
  show g: "on_loop loop (snd (get_engine st loop s))"
    using assms by (auto simp: on_loop_def get_engine_def create_engine_def Let_def split: option.splits)
  show "on_loop loop' (reset_engine s)" by (simp add: on_loop_def reset_engine_def no_engine_def)
  have e: "\<exists>e. eg_engine (snd (get_engine st loop s)) = Some e"
    by (auto simp: get_engine_def Let_def split: option.splits)
  show "\<exists>m s'. open_session st loop s = (Inr m, s') \<and> on_loop loop s'"
    using assms g e by (auto simp: open_session_def get_sessionmaker_def on_loop_def abind_def apure_def Let_def split: option.splits)
qed

lemma use_engine_ok: "on_loop loop s \<Longrightarrow> fst (use_engine st loop us s) = Inr ()"
proof (induction us arbitrary: s)
  case (Cons u us)
  then show ?case using on_loop_steps(1,3) [OF Cons.prems, of st]
    by (cases u) (auto simp: on_loop_def reset_engine_def no_engine_def)
qed simp

lemma run_tasks_ok: "run_tasks st loop ts no_engine = (replicate (length ts) (Inr ()), no_engine)"
proof (induction ts arbitrary: loop)
  case (Cons t ts)
  have "fst (use_engine st loop t no_engine) = Inr ()" by (rule use_engine_ok) (simp add: on_loop_def no_engine_def)
  then obtain s' where "use_engine st loop t no_engine = (Inr (), s')" by (metis prod.collapse)
  then show ?case using Cons.IH [of "loop + 1"] by (simp add: run_task_def reset_engine_def)
qed simp


end
