(* ===== verification/Logging.thy ===== *)
theory Logging
  imports Errors
begin

text \<open>
  Structured logging (\<^verbatim>\<open>app/core/logging.py\<close>): the processor that redacts sensitive values and
  the chain of processors a log event passes. The processors of structlog are parameters; what their
  documentation says of them is \<open>structlog_documented\<close>. An event dictionary keeps its keys in
  order.
\<close>

type_synonym event_dict = "(string, pyval) dict"

definition sensitive_keys :: "string list" where
  "sensitive_keys =
     [''password'', ''secret'', ''api_secret'', ''api_key'', ''apikey'', ''passphrase'', ''token'', ''access_token'',
      ''refresh_token'', ''authorization'', ''master_encryption_key'', ''jwt_secret_key'', ''private_key'', ''totp_secret'']"

definition redacted :: pyval where
  "redacted = VStr ''***redacted***''"

definition is_sensitive :: "string \<Rightarrow> bool" where
  "is_sensitive key \<longleftrightarrow> py_lower key \<in> set sensitive_keys"

text \<open>The loop runs over a copy of the keys and writes in place.\<close>

definition redact_processor :: "event_dict \<Rightarrow> event_dict" where
  "redact_processor d = fold (\<lambda>key d. if is_sensitive key then dict_set key redacted d else d) (map fst d) d"

text \<open>The numeric levels of the logging module; an unknown name means \<open>INFO\<close>.\<close>

definition py_upper :: "string \<Rightarrow> string" where
  "py_upper s = map (\<lambda>c. let n = of_char c :: nat in if 97 \<le> n \<and> n \<le> 122 then char_of (n - 32) else c) s"

definition level_numbers :: "(string, int) dict" where
  "level_numbers = [(''CRITICAL'', 50), (''FATAL'', 50), (''ERROR'', 40), (''WARNING'', 30), (''WARN'', 30), (''INFO'', 20),
     (''DEBUG'', 10), (''NOTSET'', 0)]"

definition numeric_level :: "string \<Rightarrow> int" where
  "numeric_level level = (case dict_get level_numbers (py_upper level) of None \<Rightarrow> 20 | Some n \<Rightarrow> n)"

record structlog =
  sl_merge_contextvars :: "event_dict \<Rightarrow> event_dict \<Rightarrow> event_dict"
  sl_add_log_level :: "string \<Rightarrow> event_dict \<Rightarrow> event_dict"
  sl_time_stamper :: "rat \<Rightarrow> event_dict \<Rightarrow> event_dict"
  sl_stack_info :: "event_dict \<Rightarrow> event_dict"
  sl_json_renderer :: "event_dict \<Rightarrow> string"
  sl_console_renderer :: "event_dict \<Rightarrow> string"

record logging_config =
  lc_level :: int
  lc_json_output :: bool

definition configure_logging :: "string \<Rightarrow> bool \<Rightarrow> logging_config" where
  "configure_logging level json_output = \<lparr>lc_level = numeric_level level, lc_json_output = json_output\<rparr>"

text \<open>
  What a configured logger writes for an event: nothing below its level, else the rendered result of
  the processors, in their order.
\<close>

definition log_event :: "structlog \<Rightarrow> logging_config \<Rightarrow> event_dict \<Rightarrow> rat \<Rightarrow> string \<Rightarrow> event_dict \<Rightarrow> string option" where
  "log_event sl lc ctx now method event =
     (if numeric_level method < lc_level lc then None
      else
        let d = sl_stack_info sl (redact_processor (sl_time_stamper sl now (sl_add_log_level sl method
                  (sl_merge_contextvars sl ctx event))))
        in Some (if lc_json_output lc then sl_json_renderer sl d else sl_console_renderer sl d))"

section \<open>Redaction\<close>

lemma redact_fold:
  "dict_wf (d @ e) \<Longrightarrow> fold (\<lambda>key d. if is_sensitive key then dict_set key redacted d else d) (map fst e) (d @ e)
     = d @ map (\<lambda>(k, v). (k, if is_sensitive k then redacted else v)) e"
proof (induction e arbitrary: d)
  case (Cons p e)
  obtain k v where p: "p = (k, v)" by fastforce
  have "k \<notin> fst ` set d" using Cons.prems by (auto simp: dict_wf_def p)
  then have upd: "dict_set k w (d @ (k, v) # e) = (d @ [(k, w)]) @ e" for w
    by (induction d) auto
  have "dict_wf ((d @ [(k, w)]) @ e)" for w using Cons.prems by (auto simp: dict_wf_def p)
  then show ?case using Cons.IH [of "d @ [(k, if is_sensitive k then redacted else v)]"] upd [of redacted] by (cases "is_sensitive k") (simp_all add: p)
qed simp

lemma redact_map:
  "dict_wf d \<Longrightarrow> redact_processor d = map (\<lambda>(k, v). (k, if is_sensitive k then redacted else v)) d"
  using redact_fold [of "[]" d] by (simp add: redact_processor_def)

text \<open>Two event dictionaries that differ in nothing but values under sensitive keys.\<close>

definition agree :: "event_dict \<Rightarrow> event_dict \<Rightarrow> bool" where
  "agree d d' \<longleftrightarrow> list_all2 (\<lambda>(k, v) (k', v'). k = k' \<and> (is_sensitive k \<or> v = v')) d d'"

lemma agree_refl [simp]: "agree d d"
  by (auto simp: agree_def intro: list_all2_refl)

lemma agree_keys: "agree d d' \<Longrightarrow> map fst d = map fst d'"
  unfolding agree_def by (induction rule: list_all2_induct) auto

lemma agree_wf: "agree d d' \<Longrightarrow> dict_wf d = dict_wf d'"
  using agree_keys by (simp add: dict_wf_def)

lemma agree_get: "agree d d' \<Longrightarrow> dict_get d k = None \<longleftrightarrow> dict_get d' k = None"
  using agree_keys by (metis map_of_eq_None_iff set_map)

lemma agree_set: "agree d d' \<Longrightarrow> is_sensitive k \<or> v = v' \<Longrightarrow> agree (dict_set k v d) (dict_set k v' d')"
  unfolding agree_def by (induction rule: list_all2_induct) auto

lemma agree_redact: "agree d d' \<Longrightarrow> dict_wf d \<Longrightarrow> redact_processor d = redact_processor d'"
proof -
  assume a: "agree d d'" and w: "dict_wf d"
  have "map (\<lambda>(k, v). (k, if is_sensitive k then redacted else v)) d = map (\<lambda>(k, v). (k, if is_sensitive k then redacted else v)) d'"
    using a unfolding agree_def by (induction rule: list_all2_induct) auto
  then show ?thesis using w agree_wf [OF a] by (simp add: redact_map)
qed

section \<open>The chain of processors\<close>

definition merge_missing :: "event_dict \<Rightarrow> event_dict \<Rightarrow> event_dict" where
  "merge_missing ctx d = fold (\<lambda>(k, v) d. if dict_get d k = None then dict_set k v d else d) ctx d"

definition structlog_documented :: "structlog \<Rightarrow> bool" where
  "structlog_documented sl \<longleftrightarrow>
     (\<forall>ctx d. sl_merge_contextvars sl ctx d = merge_missing ctx d)
     \<and> (\<forall>m d. sl_add_log_level sl m d = dict_set ''level'' (VStr m) d)
     \<and> (\<exists>stamp. \<forall>t d. sl_time_stamper sl t d = dict_set ''timestamp'' (VStr (stamp t)) d)"

lemma merge_agree:
  assumes "agree ctx ctx'" "agree d d'" "dict_wf d"
  shows "agree (merge_missing ctx d) (merge_missing ctx' d') \<and> dict_wf (merge_missing ctx d)"
  using assms(1)[unfolded agree_def] assms(2,3)
proof (induction arbitrary: d d' rule: list_all2_induct)
  case (Cons p ps q qs)
  obtain k v v' where pq: "p = (k, v)" "q = (k, v')" "is_sensitive k \<or> v = v'" using Cons.hyps(1) by (cases p; cases q) auto
  have step: "merge_missing (p # ps) d = merge_missing ps (if dict_get d k = None then dict_set k v d else d)"
    "merge_missing (q # qs) d' = merge_missing qs (if dict_get d' k = None then dict_set k v' d' else d')"
    by (simp_all add: merge_missing_def pq)
  show ?case unfolding step using Cons.IH Cons.prems agree_get [OF Cons.prems(1), of k] agree_set [OF Cons.prems(1) pq(3)] by simp
qed (simp add: merge_missing_def)

text \<open>Values that are not under a sensitive key reach the renderer; redaction is idempotent.\<close>

lemma redact_keeps_rest:
  "dict_wf d \<Longrightarrow> dict_get (redact_processor d) k = map_option (\<lambda>v. if is_sensitive k then redacted else v) (dict_get d k)"
  by (simp add: redact_map) (induction d, auto simp: dict_wf_def)

lemma redact_idem: "dict_wf d \<Longrightarrow> redact_processor (redact_processor d) = redact_processor d"
proof -
  assume w: "dict_wf d"
  then have "dict_wf (redact_processor d)" by (simp add: redact_map dict_wf_def comp_def case_prod_unfold)
  then show ?thesis using w by (simp add: redact_map case_prod_unfold)
qed

section \<open>Properties\<close>

definition ex_structlog :: structlog where
  "ex_structlog = \<lparr>sl_merge_contextvars = merge_missing, sl_add_log_level = (\<lambda>m d. dict_set ''level'' (VStr m) d),
     sl_time_stamper = (\<lambda>t d. dict_set ''timestamp'' (VStr ''2026-01-01T00:00:00Z'') d), sl_stack_info = (\<lambda>d. d),
     sl_json_renderer = (\<lambda>d. concat (map (\<lambda>(k, v). k @ (case v of VStr s \<Rightarrow> ''='' @ s @ '' '' | _ \<Rightarrow> [])) d)),
     sl_console_renderer = (\<lambda>d. [])\<rparr>"

text \<open>C24: secrets do not reach the logs: what a logger writes does not depend on any value bound under a
  sensitive key, in whatever spelling of upper and lower case, whether the value comes with the event
  or from the logging context.\<close>

theorem logs_hide_secrets:
  assumes "structlog_documented sl" and "agree event event'" and "agree ctx ctx'" and "dict_wf event"
  shows "log_event sl lc ctx now method event = log_event sl lc ctx' now method event'"
proof -
  have m: "agree (merge_missing ctx event) (merge_missing ctx' event')" "dict_wf (merge_missing ctx event)"
    using merge_agree [OF assms(3,2,4)] by simp_all
  obtain stamp where lib: "\<And>ctx d. sl_merge_contextvars sl ctx d = merge_missing ctx d"
    "\<And>m d. sl_add_log_level sl m d = dict_set ''level'' (VStr m) d" "\<And>t d. sl_time_stamper sl t d = dict_set ''timestamp'' (VStr (stamp t)) d"
    using assms(1) by (auto simp: structlog_documented_def)
  have "redact_processor (dict_set ''timestamp'' (VStr (stamp now)) (dict_set ''level'' (VStr method) (merge_missing ctx event)))
      = redact_processor (dict_set ''timestamp'' (VStr (stamp now)) (dict_set ''level'' (VStr method) (merge_missing ctx' event')))"
    by (intro agree_redact agree_set) (simp_all add: m)
  then show ?thesis by (simp add: log_event_def lib Let_def)
qed

theorem logs_hide_secrets_witness:
  "log_event ex_structlog (configure_logging ''info'' True) [(''Authorization'', VStr ''Bearer abc'')] 0 ''warning''
       [(''event'', VStr ''login''), (''password'', VStr ''hunter2'')]
   = log_event ex_structlog (configure_logging ''info'' True) [(''Authorization'', VStr ''Bearer xyz'')] 0 ''warning''
       [(''event'', VStr ''login''), (''password'', VStr ''letmein'')]"
proof (rule logs_hide_secrets)
  show "structlog_documented ex_structlog" by (auto simp: structlog_documented_def ex_structlog_def)
  have s: "is_sensitive ''password''" "is_sensitive ''Authorization''" by code_simp+
  then show "agree [(''event'', VStr ''login''), (''password'', VStr ''hunter2'')] [(''event'', VStr ''login''), (''password'', VStr ''letmein'')]"
    "agree [(''Authorization'', VStr ''Bearer abc'')] [(''Authorization'', VStr ''Bearer xyz'')]"
    by (simp_all add: agree_def)
qed (simp add: dict_wf_def)

end
