(* ===== verification/Application.thy ===== *)
theory Application
  imports Api_Properties Middleware Redis_Stores Workers Logging
begin

text \<open>
  The application as it is put together: the dependencies that build the services from the settings
  (\<^verbatim>\<open>app/api/deps.py\<close>), start-up, shut-down, the two pages outside the API and the whole
  stack of \<^verbatim>\<open>create_app\<close> (\<^verbatim>\<open>app/main.py\<close>). Third-party libraries are the
  record \<open>libraries\<close>; what a process generates once for itself is \<open>process_secrets\<close>.
  Matching a path to a route and decoding its parameters is the framework's and a parameter, as is
  the CORS middleware.
\<close>

section \<open>Dependencies\<close>

record 'x libraries =
  lb_argon :: argon_lib
  lb_fernet :: fernet_lib
  lb_otp :: otp_lib
  lb_jwt :: jwt_lib
  lb_ccxt :: "'x ccxt_env"
  lb_dbms :: dbms
  lb_cpow :: "pyfloat \<Rightarrow> pyfloat \<Rightarrow> pyfloat"
  lb_valid_email :: email_check
  lb_bearer :: "request \<Rightarrow> string option"
  lb_bearer_status :: int

record process_secrets =
  ps_encryption_key :: string
  ps_jwt_secret :: string
  ps_decoy_salt :: string

definition get_cipher :: "'x libraries \<Rightarrow> settings \<Rightarrow> process_secrets \<Rightarrow> exn + secret_cipher" where
  "get_cipher lb st ps = get_secret_cipher (lb_fernet lb) st (ps_encryption_key ps)"

definition get_tokens :: "settings \<Rightarrow> process_secrets \<Rightarrow> exn + token_service" where
  "get_tokens st ps = get_token_service st (ps_jwt_secret ps)"

definition get_totp :: totp_service where
  "get_totp = default_totp"

definition decoy_hash :: "'x libraries \<Rightarrow> process_secrets \<Rightarrow> string" where
  "decoy_hash lb ps = hasher_hash (lb_argon lb) (ps_decoy_salt ps) ''decoy-password-for-constant-time-auth''"

definition get_auth_service :: "'x libraries \<Rightarrow> settings \<Rightarrow> process_secrets \<Rightarrow> exn + auth" where
  "get_auth_service lb st ps =
     rbind (get_cipher lb st ps) (\<lambda>cipher.
     rbind (get_tokens st ps) (\<lambda>tokens.
       Inr \<lparr>at_argon = lb_argon lb, at_fernet = lb_fernet lb, at_cipher = cipher, at_otp = lb_otp lb, at_totp = get_totp,
            at_jwt = lb_jwt lb, at_tokens = tokens, at_dbms = lb_dbms lb, at_decoy = decoy_hash lb ps\<rparr>))"

text \<open>The account service; the trading and the portfolio service work on it.\<close>

definition get_account_service :: "'x libraries \<Rightarrow> settings \<Rightarrow> process_secrets \<Rightarrow> exn + 'x app" where
  "get_account_service lb st ps =
     rbind (get_cipher lb st ps) (\<lambda>cipher.
       Inr \<lparr>ap_settings = st, ap_ccxt = lb_ccxt lb, ap_dbms = lb_dbms lb, ap_fernet = lb_fernet lb, ap_cipher = cipher\<rparr>)"

definition get_trading_service :: "'x libraries \<Rightarrow> settings \<Rightarrow> process_secrets \<Rightarrow> exn + 'x app \<times> risk_limits" where
  "get_trading_service lb st ps = rbind (get_account_service lb st ps) (\<lambda>accounts. Inr (accounts, default_risk_limits))"

definition resolve_services :: "'x libraries \<Rightarrow> settings \<Rightarrow> process_secrets \<Rightarrow> exn + 'x api" where
  "resolve_services lb st ps =
     rbind (get_auth_service lb st ps) (\<lambda>ae.
     rbind (get_trading_service lb st ps) (\<lambda>(ap, limits).
       Inr \<lparr>av_app = ap, av_auth = ae, av_limits = limits, av_cpow = lb_cpow lb, av_valid_email = lb_valid_email lb,
            av_bearer = lb_bearer lb, av_bearer_status = lb_bearer_status lb\<rparr>))"

section \<open>Start-up and shut-down\<close>

definition startup :: "settings \<Rightarrow> nat \<Rightarrow> (engine_cache, exn, unit) action" where
  "startup st loop =
     abind (apure (validate_runtime st)) (\<lambda>_ s. (Inr (), if is_production st then s else init_models st loop s))"

definition shutdown :: "engine_cache \<Rightarrow> engine_cache" where
  "shutdown s = reset_engine s"

definition app_logging :: "settings \<Rightarrow> logging_config" where
  "app_logging st = configure_logging (if app_debug st then ''DEBUG'' else ''INFO'') (is_production st)"

section \<open>Pages outside the API\<close>

definition app_version :: string where
  "app_version = ''1.0.0''"

definition root_page :: "settings \<Rightarrow> response" where
  "root_page st = \<lparr>resp_status = 200, resp_body = VDict
     [(''name'', VStr (app_name st)), (''version'', VStr app_version), (''docs'', VStr ''/docs''),
      (''dashboard'', VStr ''/dashboard''), (''health'', VStr (api_v1_prefix st @ ''/health''))], resp_headers = []\<rparr>"

definition quoted :: "string \<Rightarrow> string" where
  "quoted s = [CHR 0x27] @ s @ [CHR 0x27]"

definition dashboard_policy :: "string \<Rightarrow> string" where
  "dashboard_policy nonce =
     ''default-src '' @ quoted ''none'' @ ''; script-src '' @ quoted (''nonce-'' @ nonce) @
     ''; style-src '' @ quoted (''nonce-'' @ nonce) @ ''; connect-src '' @ quoted ''self'' @
     ''; img-src '' @ quoted ''self'' @ '' data:; base-uri '' @ quoted ''none'' @ ''; form-action '' @ quoted ''none'' @
     ''; frame-ancestors '' @ quoted ''none''"

definition dashboard :: "string \<Rightarrow> string \<Rightarrow> response" where
  "dashboard template nonce = \<lparr>resp_status = 200, resp_body = VStr (replace_all ''{{CSP_NONCE}}'' nonce template),
     resp_headers = [(''Content-Security-Policy'', dashboard_policy nonce)]\<rparr>"

section \<open>The whole stack\<close>

record 'x deployment =
  dp_settings :: settings
  dp_api :: "'x api"
  dp_template :: string
  dp_decode :: "request \<Rightarrow> response + api_call"
  dp_cors :: "(rate_limiter \<times> 'x app_state) handler \<Rightarrow> (rate_limiter \<times> 'x app_state) handler"

text \<open>A request with what serving it draws from clocks and randomness.\<close>

record arrival =
  ar_request :: request
  ar_inputs :: api_inputs
  ar_context :: context_inputs
  ar_now :: pyfloat
  ar_nonce :: string

definition app_router :: "'x deployment \<Rightarrow> arrival \<Rightarrow> 'x app_state handler" where
  "app_router dp ar req =
     (if rq_method req = ''GET'' \<and> rq_path req = ''/'' then apure (Inr (root_page (dp_settings dp)))
      else if rq_method req = ''GET'' \<and> rq_path req = ''/dashboard'' then apure (Inr (dashboard (dp_template dp) (ar_nonce ar)))
      else case dp_decode dp req of
             Inl resp \<Rightarrow> apure (Inr resp)
           | Inr c \<Rightarrow> handle_call (dp_api dp) (ar_inputs ar) req c)"

definition application ::
    "'x deployment \<Rightarrow> arrival \<Rightarrow> rate_limiter \<times> 'x app_state \<Rightarrow> response \<times> (rate_limiter \<times> 'x app_state)" where
  "application dp ar =
     serve (dp_settings dp) (dp_cors dp) (ar_context ar) (ar_now ar) (app_router dp ar) (ar_request ar)"

text \<open>The user whose valid access token a request carries.\<close>

definition caller :: "'x deployment \<Rightarrow> arrival \<Rightarrow> string option" where
  "caller dp ar =
     (case av_bearer (dp_api dp) (ar_request ar) of
        None \<Rightarrow> None
      | Some token \<Rightarrow>
          (case get_current_user (dp_api dp) (ai_now (in_auth (ar_inputs ar))) token of
             Inl _ \<Rightarrow> None
           | Inr user \<Rightarrow> Some (cu_id user)))"

text \<open>
  The runs of a deployment: one request after the other, each with an identifier for a new account
  that no order refers to yet.
\<close>

inductive serves :: "'x deployment \<Rightarrow> arrival list \<Rightarrow> rate_limiter \<times> 'x app_state \<Rightarrow> rate_limiter \<times> 'x app_state \<Rightarrow> bool"
  for dp :: "'x deployment" where
  served_none: "serves dp [] s s"
| served_one: "in_account_id (ar_inputs ar) \<notin> or_account_id ` set (db_orders (fst (snd s)))
    \<Longrightarrow> serves dp ars (snd (application dp ar s)) s' \<Longrightarrow> serves dp (ar # ars) s s'"

inductive_simps serves_simps: "serves dp [] s s'" "serves dp (ar # ars) s s'"

section \<open>Dependencies of a valid configuration\<close>

text \<open>A configuration that passes the start-up check and has valid keys lets every dependency resolve.\<close>

lemma valid_configuration_resolves:
  assumes "is_ok (validate_runtime st)" and "list_all (fn_valid_key (lb_fernet lb)) (encryption_keys st)"
    and "fn_valid_key (lb_fernet lb) (ps_encryption_key ps)" and "ps_jwt_secret ps \<noteq> []"
  shows "\<exists>av. resolve_services lb st ps = Inr av"
proof -
  have prod: "is_production st \<Longrightarrow> encryption_keys st \<noteq> [] \<and> jwt_secret_key st \<noteq> []"
    using assms(1) by (auto simp: validate_runtime_def unsafe_reasons_def split: if_splits)
  then have "\<exists>c. get_cipher lb st ps = Inr c"
    using assms(2,3) by (simp add: get_cipher_def get_secret_cipher_def new_secret_cipher_def)
  moreover have "\<exists>t. get_tokens st ps = Inr t"
    using prod assms(4) by (auto simp: get_tokens_def get_token_service_def new_token_service_def)
  ultimately show ?thesis by (auto simp: resolve_services_def get_auth_service_def get_trading_service_def get_account_service_def)
qed

lemma resolved_api:
  assumes "resolve_services lb st ps = Inr av"
  shows "at_dbms (av_auth av) = dbms_of av" "dbms_of av = lb_dbms lb" "av_bearer_status av = lb_bearer_status lb"
    "ap_settings (av_app av) = st" "av_bearer av = lb_bearer lb"
  using assms
  by (auto simp: resolve_services_def get_auth_service_def get_trading_service_def get_account_service_def rbind_Inr_iff dbms_of_def)

text \<open>The shut-down leaves no engine behind for the next process life.\<close>

lemma shutdown_clean: "shutdown (snd (startup st loop s)) = no_engine"
  by (simp add: shutdown_def reset_engine_def)

text \<open>The policy of the dashboard survives the security headers of the middleware.\<close>

lemma dashboard_policy_kept:
  "dict_get (resp_headers (apply_security_headers (set_header ''x-response-time-ms'' e (set_header ''x-request-id'' r (dashboard template nonce)))))
     ''Content-Security-Policy'' = Some (dashboard_policy nonce)"
  by (simp add: dashboard_def apply_security_headers_def setdefault_header_def set_header_def has_header_def py_lower_def lower_char_def)

section \<open>What a request can change\<close>

text \<open>
  What the framework's documentation says of the CORS middleware: it answers a request itself or
  passes it on and adds to the headers of the answer; it has no state of the application.
\<close>

definition cors_ok :: "('s handler \<Rightarrow> 's handler) \<Rightarrow> bool" where
  "cors_ok cors \<longleftrightarrow> (\<forall>h req s. snd (cors h req s) = s \<or> snd (cors h req s) = snd (h req s))"

lemma serve_state: "snd (serve st cors ci now router req s) = snd (inner_app st cors now router req s)"
  by (cases "inner_app st cors now router req s"; cases "fst (inner_app st cors now router req s)")
    (auto simp: serve_def server_error_middleware_def request_context_def abind_def apure_def)

lemma exception_middleware_state: "snd (exception_middleware router req s) = snd (router req s)"
  by (auto simp: exception_middleware_def split: prod.splits sum.splits exn.splits)

lemma rate_limited_state:
  "snd (snd (rate_limited st now h req (rl, s))) = s \<or> snd (snd (rate_limited st now h req (rl, s))) = snd (h req s)"
  by (auto simp: rate_limited_def split: prod.splits option.splits)

lemma application_state:
  assumes "cors_ok (dp_cors dp)"
  shows "snd (snd (application dp ar (rl, s))) = s
    \<or> (\<exists>c. snd (snd (application dp ar (rl, s))) = snd (handle_call (dp_api dp) (ar_inputs ar) (ar_request ar) c s))"
proof -
  let ?router = "app_router dp ar" and ?req = "ar_request ar"
  let ?h = "rate_limited (dp_settings dp) (ar_now ar) (exception_middleware ?router)"
  have "snd (application dp ar (rl, s)) = (rl, s) \<or> snd (application dp ar (rl, s)) = snd (?h ?req (rl, s))"
    using assms unfolding application_def serve_state inner_app_def cors_ok_def by blast
  then have "snd (snd (application dp ar (rl, s))) = s \<or> snd (snd (application dp ar (rl, s))) = snd (?router ?req s)"
    using rate_limited_state [of "dp_settings dp" "ar_now ar" "exception_middleware ?router" ?req rl s]
    by (auto simp: exception_middleware_state)
  moreover have "snd (?router ?req s) = s \<or> (\<exists>c. snd (?router ?req s) = snd (handle_call (dp_api dp) (ar_inputs ar) ?req c s))"
    by (auto simp: app_router_def apure_def split: sum.splits)
  ultimately show ?thesis by auto
qed

text \<open>The accounts, orders and balances of one user.\<close>

definition holdings :: "string \<Rightarrow> db \<Rightarrow> account_row list \<times> order_row list \<times> balance_row list" where
  "holdings u d =
     (filter (\<lambda>a. ac_user_id a = u) (db_accounts d), filter (\<lambda>r. or_user_id r = u) (db_orders d),
      filter (\<lambda>b. br_account_id b \<in> set (map ac_id (filter (\<lambda>a. ac_user_id a = u) (db_accounts d)))) (db_balances d))"

lemma holdings_books: "books d' = books d \<Longrightarrow> holdings u d' = holdings u d"
  by (simp add: holdings_def books_def)

lemma holdings_foreign:
  assumes "foreign v d' = foreign v d" "v \<noteq> u"
  shows "holdings u d' = holdings u d"
proof -
  have eq: "filter (\<lambda>a. ac_user_id a \<noteq> v) (db_accounts d') = filter (\<lambda>a. ac_user_id a \<noteq> v) (db_accounts d)"
    "filter (\<lambda>r. or_user_id r \<noteq> v) (db_orders d') = filter (\<lambda>r. or_user_id r \<noteq> v) (db_orders d)"
    "filter (\<lambda>b. br_account_id b \<in> set (foreign_ids v d')) (db_balances d') = filter (\<lambda>b. br_account_id b \<in> set (foreign_ids v d)) (db_balances d)"
    using assms(1) by (simp_all add: foreign_def)
  have acc: "filter (\<lambda>a. ac_user_id a = u) (db_accounts d') = filter (\<lambda>a. ac_user_id a = u) (db_accounts d)"
    by (rule filter_coarser [OF _ eq(1)]) (use assms(2) in auto)
  have ord: "filter (\<lambda>r. or_user_id r = u) (db_orders d') = filter (\<lambda>r. or_user_id r = u) (db_orders d)"
    by (rule filter_coarser [OF _ eq(2)]) (use assms(2) in auto)
  let ?ids = "set (map ac_id (filter (\<lambda>a. ac_user_id a = u) (db_accounts d)))"
  have ids: "foreign_ids v d' = foreign_ids v d" using eq(1) by (simp add: foreign_ids_def)
  have sub: "?ids \<subseteq> set (foreign_ids v d)" using assms(2) by (auto simp: foreign_ids_def)
  have "filter (\<lambda>b. br_account_id b \<in> ?ids) (db_balances d') = filter (\<lambda>b. br_account_id b \<in> ?ids) (db_balances d)"
    by (rule filter_coarser [OF _ eq(3)[unfolded ids]]) (use sub in auto)
  then show ?thesis unfolding holdings_def acc ord by simp
qed

locale deployed =
  fixes dp :: "'x deployment" and lb :: "'x libraries" and ps :: process_secrets
  assumes resolves: "resolve_services lb (dp_settings dp) ps = Inr (dp_api dp)"
    and cors: "cors_ok (dp_cors dp)"
    and numeric: "numeric_idem (lb_dbms lb)"
    and refusal: "400 \<le> lb_bearer_status lb"
begin

definition db_ok :: "db \<Rightarrow> bool" where
  "db_ok d \<longleftrightarrow> tenants_ok d \<and> stored (lb_dbms lb) d"

lemma call_safe:
  assumes "db_ok d" "in_account_id (ar_inputs ar) \<notin> or_account_id ` set (db_orders d)" "caller dp ar \<noteq> Some u"
    and "handle_call (dp_api dp) (ar_inputs ar) (ar_request ar) c (d, st) = (r, (d', st'))"
  shows "db_ok d' \<and> holdings u d' = holdings u d"
proof -
  note av = resolved_api [OF resolves]
  have ok: "tenants_ok d" "stored (dbms_of (dp_api dp)) d" "numeric_idem (dbms_of (dp_api dp))" "400 \<le> av_bearer_status (dp_api dp)"
    using assms(1) numeric refusal by (simp_all add: db_ok_def av)
  note iso = api_isolates_tenants [OF ok(1-3) av(1) assms(2) ok(4) assms(4)]
  have ok': "db_ok d'" using iso by (simp add: db_ok_def av(2))
  consider (same) "books d' = books d" | (own) v where "caller dp ar = Some v" "foreign v d' = foreign v d"
    using iso by (cases "av_bearer (dp_api dp) (ar_request ar)") (auto simp: caller_def split: if_splits sum.splits)
  then show ?thesis using ok' assms(3) by cases (auto intro: holdings_books holdings_foreign)
qed

lemma request_safe:
  assumes "db_ok (fst (snd s))" "in_account_id (ar_inputs ar) \<notin> or_account_id ` set (db_orders (fst (snd s)))" "caller dp ar \<noteq> Some u"
  shows "db_ok (fst (snd (snd (application dp ar s)))) \<and> holdings u (fst (snd (snd (application dp ar s)))) = holdings u (fst (snd s))"
proof -
  obtain rl d st where s: "s = (rl, (d, st))" by (metis surj_pair)
  from application_state [OF cors, of ar rl "(d, st)"] show ?thesis
  proof
    assume "\<exists>c. snd (snd (application dp ar (rl, d, st))) = snd (handle_call (dp_api dp) (ar_inputs ar) (ar_request ar) c (d, st))"
    then obtain c where c: "snd (snd (application dp ar (rl, d, st))) = snd (handle_call (dp_api dp) (ar_inputs ar) (ar_request ar) c (d, st))" ..
    obtain r d' st' where run: "handle_call (dp_api dp) (ar_inputs ar) (ar_request ar) c (d, st) = (r, (d', st'))" by (metis surj_pair)
    show ?thesis using call_safe [OF _ _ assms(3) run] assms(1,2) c run by (simp add: s)
  qed (use assms s in simp)
qed

lemma runs_safe:
  "serves dp ars s s' \<Longrightarrow> db_ok (fst (snd s)) \<Longrightarrow> Some u \<notin> caller dp ` set ars \<Longrightarrow>
     db_ok (fst (snd s')) \<and> holdings u (fst (snd s')) = holdings u (fst (snd s))"
proof (induction rule: serves.induct)
  case (served_one ar s ars s')
  then show ?case using request_safe [of s ar u] by auto
qed simp

end

section \<open>Examples\<close>

definition ex_libs :: "int libraries" where
  "ex_libs = \<lparr>lb_argon = ex_argon, lb_fernet = ex_fernet, lb_otp = ex_otp, lb_jwt = ex_jwt, lb_ccxt = ap_ccxt ex_app,
     lb_dbms = \<lparr>dm_numeric = (\<lambda>v. v), dm_cascade = True\<rparr>, lb_cpow = (\<lambda>x y. x), lb_valid_email = Some,
     lb_bearer = (\<lambda>req. dict_get (rq_headers req) ''authorization''), lb_bearer_status = 401\<rparr>"

definition ex_secrets :: process_secrets where
  "ex_secrets = \<lparr>ps_encryption_key = ''k'', ps_jwt_secret = ''s'', ps_decoy_salt = []\<rparr>"

definition ex_tokens :: token_service where
  "ex_tokens = \<lparr>tv_secret = ''s'', tv_algorithm = ''HS256'', tv_access_ttl = 1800, tv_refresh_ttl = 1209600\<rparr>"

definition ex_services :: "int api" where
  "ex_services = \<lparr>av_app = \<lparr>ap_settings = default_settings, ap_ccxt = ap_ccxt ex_app, ap_dbms = lb_dbms ex_libs, ap_fernet = ex_fernet,
       ap_cipher = \<lparr>sc_keys = [''k'']\<rparr>\<rparr>,
     av_auth = \<lparr>at_argon = ex_argon, at_fernet = ex_fernet, at_cipher = \<lparr>sc_keys = [''k'']\<rparr>, at_otp = ex_otp, at_totp = default_totp,
       at_jwt = ex_jwt, at_tokens = ex_tokens, at_dbms = lb_dbms ex_libs, at_decoy = decoy_hash ex_libs ex_secrets\<rparr>,
     av_limits = default_risk_limits, av_cpow = (\<lambda>x y. x), av_valid_email = Some,
     av_bearer = (\<lambda>req. dict_get (rq_headers req) ''authorization''), av_bearer_status = 401\<rparr>"

definition ex_deployment :: "int deployment" where
  "ex_deployment = \<lparr>dp_settings = default_settings, dp_api = ex_services, dp_template = [],
     dp_decode = (\<lambda>req. Inr ex_order), dp_cors = (\<lambda>h. h)\<rparr>"

definition ex_arrival :: arrival where
  "ex_arrival = \<lparr>ar_request = \<lparr>rq_client = Some ''203.0.113.7'', rq_method = ''POST'', rq_path = ''/api/v1/trading/orders'',
       rq_headers = [(''authorization'', fst (encode_token ex_jwt ex_tokens 1 ''j0'' ''u1'' ''trader'' Access 10 0))]\<rparr>,
     ar_inputs = ex_api_inputs, ar_context = \<lparr>ci_uuid = ''r1'', ci_start = 0, ci_end = 0\<rparr>, ar_now = 1, ar_nonce = ''n''\<rparr>"

definition ex_two_tenants :: db where
  "ex_two_tenants = ex_db\<lparr>db_accounts := [ex_account, ex_account\<lparr>ac_id := ''a2'', ac_user_id := ''u2''\<rparr>],
     db_balances := [\<lparr>br_account_id = ''a2'', br_asset = ''USDT'', br_free = 500, br_used = 0\<rparr>]\<rparr>"

lemma ex_resolves: "resolve_services ex_libs (dp_settings ex_deployment) ex_secrets = Inr (dp_api ex_deployment)"
  by (simp add: resolve_services_def get_auth_service_def get_trading_service_def get_account_service_def get_cipher_def get_tokens_def
      get_secret_cipher_def get_token_service_def new_secret_cipher_def new_token_service_def get_totp_def ex_deployment_def ex_services_def
      ex_libs_def ex_secrets_def ex_tokens_def default_settings_def encryption_keys_def comma_list_def is_production_def ex_fernet_def
      py_strip_def)

interpretation ex_deployed: deployed ex_deployment ex_libs ex_secrets
  by unfold_locales (simp_all only: ex_resolves, simp_all add: ex_deployment_def cors_ok_def ex_libs_def numeric_idem_def)

section \<open>Properties\<close>

text \<open>C3: nobody's holdings change behind their back: over any sequence of HTTP requests through the whole
  stack, whatever the requests and their outcomes, the accounts, orders and balances of a user stay
  exactly as they are unless some request carried a valid access token of that very user; and the
  database stays well-formed, every order belonging to the owner of its account.\<close>

theorem holdings_safe_without_token:
  assumes "resolve_services lb (dp_settings dp) ps = Inr (dp_api dp)" and "cors_ok (dp_cors dp)"
    and "numeric_idem (lb_dbms lb)" and "400 \<le> lb_bearer_status lb"
    and "tenants_ok d" and "stored (lb_dbms lb) d"
    and "serves dp ars (rl, (d, st)) (rl', (d', st'))" and "Some u \<notin> caller dp ` set ars"
  shows "holdings u d' = holdings u d \<and> tenants_ok d' \<and> stored (lb_dbms lb) d'"
proof -
  have dep: "deployed dp lb ps" using assms(1-4) by unfold_locales
  show ?thesis
    using deployed.runs_safe [OF dep assms(7) _ assms(8)] assms(5,6) by (simp add: deployed.db_ok_def [OF dep])
qed

theorem holdings_safe_without_token_witness:
  "\<exists>rl' d' st'. serves ex_deployment [ex_arrival] (app_limiter default_settings, (ex_two_tenants, (ex_stores, ([], 0)))) (rl', (d', st'))
     \<and> holdings ''u2'' d' = holdings ''u2'' ex_two_tenants"
proof -
  let ?s = "(app_limiter default_settings, (ex_two_tenants, (ex_stores, ([], 0))))"
  obtain rl' d' st' where s': "snd (application ex_deployment ex_arrival ?s) = (rl', (d', st'))" by (metis surj_pair)
  have fresh: "in_account_id (ar_inputs ex_arrival) \<notin> or_account_id ` set (db_orders ex_two_tenants)"
    by (simp add: ex_two_tenants_def ex_db_def empty_db_def)
  have run: "serves ex_deployment [ex_arrival] ?s (rl', (d', st'))" using fresh s' by (simp add: serves_simps)
  have who: "caller ex_deployment ex_arrival = Some ''u1''" by code_simp
  have ok: "tenants_ok ex_two_tenants" "stored (lb_dbms ex_libs) ex_two_tenants"
    by (simp_all add: tenants_ok_def stored_iff ex_two_tenants_def ex_db_def empty_db_def ex_account_def ex_libs_def store_balance_def)
  from holdings_safe_without_token [OF ex_resolves ex_deployed.cors ex_deployed.numeric ex_deployed.refusal ok run, of "''u2''"]
  have "holdings ''u2'' d' = holdings ''u2'' ex_two_tenants" by (simp add: who)
  with run show ?thesis by blast
qed

end
