(* ===== verification/Indicator_Properties.thy ===== *)
theory Indicator_Properties
  imports Market_Service
begin

text \<open>
  What the indicators guarantee: the output is aligned with the input and undefined exactly on a
  warm-up prefix; the moving average is the mean of its window where no operation rounds; the bounded
  indicators stay in their range whatever is rounded.
\<close>

section \<open>Alignment\<close>

text \<open>A series of length \<open>n\<close> whose first \<open>k\<close> positions, and no others, are undefined.\<close>

definition warm_up :: "nat \<Rightarrow> nat \<Rightarrow> opt_series \<Rightarrow> bool" where
  "warm_up n k out \<longleftrightarrow> map (\<lambda>v. v = None) out = map (\<lambda>i. i < k) [0 ..< n]"

lemma warm_up_nth: "warm_up n k out \<longleftrightarrow> length out = n \<and> (\<forall>i < n. out ! i = None \<longleftrightarrow> i < k)"
proof
  assume "warm_up n k out"
  then have e: "map (\<lambda>v. v = None) out = map (\<lambda>i. i < k) [0 ..< n]" by (simp add: warm_up_def)
  then have "length out = n" by (metis length_map length_upt diff_zero)
  moreover have "\<forall>i < n. out ! i = None \<longleftrightarrow> i < k"
  proof (intro allI impI)
    fix i assume i: "i < n"
    show "out ! i = None \<longleftrightarrow> i < k" using arg_cong [OF e, of "\<lambda>xs. xs ! i"] i \<open>length out = n\<close> by simp
  qed
  ultimately show "length out = n \<and> (\<forall>i < n. out ! i = None \<longleftrightarrow> i < k)" ..
qed (auto simp: warm_up_def intro!: nth_equalityI)

lemma warm_up_length: "warm_up n k out \<Longrightarrow> length out = n"
  by (simp add: warm_up_nth)

lemma warm_up_replicate: "n \<le> k \<Longrightarrow> warm_up n k (replicate n None)"
  by (simp add: warm_up_nth)

lemma warm_up_append: "n = k + length vs \<Longrightarrow> warm_up n k (replicate k None @ map (Some \<circ> f) vs)"
  by (simp add: warm_up_nth nth_append)

lemmas warm_up_append_id = warm_up_append [where f = id, simplified comp_id]

lemma warm_up_split:
  assumes "warm_up n k out" obtains vs where "out = replicate (min k n) None @ map Some vs" "length vs = n - k"
proof
  let ?vs = "map the (drop k out)"
  show "out = replicate (min k n) None @ map Some ?vs"
    using assms by (intro nth_equalityI) (auto simp: warm_up_nth nth_append min_def)
  show "length ?vs = n - k" using assms by (simp add: warm_up_nth)
qed

lemma warm_up_defined: "warm_up n k out \<Longrightarrow> length (defined_values out) = n - k"
  by (erule warm_up_split) (simp add: defined_values_def map_filter_def)

lemma warm_up_align: "warm_up m j xs \<Longrightarrow> m \<le> n \<Longrightarrow> warm_up n (n - m + j) (right_align n xs)"
  by (auto simp: warm_up_nth right_align_def nth_append)

lemma warm_up_map2:
  "warm_up n j xs \<Longrightarrow> warm_up n k ys \<Longrightarrow> (\<And>x y. f x y = None \<longleftrightarrow> x = None \<or> y = None) \<Longrightarrow> warm_up n (max j k) (map2 f xs ys)"
  by (auto simp: warm_up_nth)

lemma warm_up_same_None: "warm_up n k xs \<Longrightarrow> map (\<lambda>v. v = None) ys = map (\<lambda>v. v = None) xs \<Longrightarrow> warm_up n k ys"
  by (simp add: warm_up_def)

lemma loop_lengths [simp]:
  "length (sma_loop p w es) = length es" "length (ema_loop m q vs) = length vs"
  "length (wilder_loop per q vs) = length vs" "length (vwap_loop pv vol cs) = length cs"
  "length (supertrend_loop mu ces s) = length ces"
     apply (induction es arbitrary: w; simp add: Let_def)
    apply (induction vs arbitrary: q; simp add: Let_def)
   apply (induction vs arbitrary: q; simp add: Let_def)
  apply (induction cs arbitrary: pv vol; simp add: Let_def)
  by (induction mu ces s rule: supertrend_loop.induct) (simp_all add: Let_def)

lemma require_positive_Inr: "require_positive p r = Inr a \<longleftrightarrow> 0 < p \<and> r = Inr a"
  by (simp add: require_positive_def)

lemma averages_warm_up:
  "sma xs p = Inr out \<Longrightarrow> warm_up (length xs) (nat p - 1) out"
  "ema xs p = Inr out \<Longrightarrow> warm_up (length xs) (nat p - 1) out"
  "wilder_smoothing xs p = Inr out \<Longrightarrow> warm_up (length xs) (nat p - 1) out"
  by (auto simp: sma_def ema_def wilder_smoothing_def require_positive_Inr Let_def warm_up_replicate
      simp del: list.map split: if_splits intro!: warm_up_append warm_up_append_id)

lemma moves_length [simp]: "length (gains xs) = length xs - 1" "length (losses xs) = length xs - 1"
  by (simp_all add: gains_def losses_def changes_def)

lemma rsi_warm_up: "rsi xs p = Inr out \<Longrightarrow> warm_up (length xs) (nat p) out"
  by (auto simp: rsi_def require_positive_Inr Let_def warm_up_replicate simp del: list.map split: if_splits intro!: warm_up_append warm_up_append_id)

lemma true_range_length [simp]: "length (true_range cs) = length cs"
  by (simp add: true_range_def split: list.split)

lemma atr_warm_up: "atr cs p = Inr out \<Longrightarrow> warm_up (length cs) (nat p - 1) out"
  using averages_warm_up(3) by (simp add: atr_def) force

lemma windows_length [simp]: "length (windows n xs) = Suc (length xs) - n"
  by (simp add: windows_def)

lemma opt_sub_None: "opt_sub x y = None \<longleftrightarrow> x = None \<or> y = None"
  by (auto simp: opt_sub_def split: option.splits)

lemma macd_warm_up:
  assumes "macd xs fast slow sig = Inr (line, sl, hist)"
  shows "warm_up (length xs) (nat slow - 1) line"
    and "nat slow \<le> Suc (length xs) \<Longrightarrow> warm_up (length xs) (nat slow - 1 + (nat sig - 1)) sl"
proof -
  obtain f s where fs: "ema xs fast = Inr f" "ema xs slow = Inr s" "line = map2 opt_sub f s" "0 < fast" "fast < slow"
    and sd: "\<exists>d. ema (defined_values line) sig = Inr d \<and> sl = right_align (length line) d"
    using assms by (auto simp: macd_def rbind_Inr_iff Let_def split: if_splits)
  show line: "warm_up (length xs) (nat slow - 1) line"
    using warm_up_map2 [OF averages_warm_up(2) [OF fs(1)] averages_warm_up(2) [OF fs(2)], of opt_sub] fs(3-5)
    by (simp add: opt_sub_None max_def split: if_splits)
  obtain d where d: "ema (defined_values line) sig = Inr d" "sl = right_align (length line) d" using sd by blast
  have "length line = length xs" using line by (rule warm_up_length)
  moreover have "warm_up (length xs - (nat slow - 1)) (nat sig - 1) d"
    using averages_warm_up(2) [OF d(1)] warm_up_defined [OF line] by simp
  ultimately show "warm_up (length xs) (nat slow - 1 + (nat sig - 1)) sl"
    if "nat slow \<le> Suc (length xs)"
    using that d(2) warm_up_align [of "length xs - (nat slow - 1)" "nat sig - 1" d "length xs"] by (simp add: le_diff_conv)
qed

lemma bollinger_warm_up:
  assumes "bollinger_bands cpow xs p k = Inr (up, mid, low)"
  shows "warm_up (length xs) (nat p - 1) mid" "length up = length xs" "length low = length xs"
proof -
  have mid: "sma xs p = Inr mid" "up = band fadd cpow p k xs mid" "low = band fsub cpow p k xs mid"
    using assms by (auto simp: bollinger_bands_def rbind_Inr_iff)
  show "warm_up (length xs) (nat p - 1) mid" by (rule averages_warm_up(1) [OF mid(1)])
  then show "length up = length xs" "length low = length xs"
    using warm_up_defined [of "length xs" "nat p - 1" mid] by (simp_all add: mid band_def right_align_def)
qed

lemma stochastic_warm_up:
  assumes "stochastic cs p d = Inr (k, dd)" shows "warm_up (length cs) (nat p - 1) k"
proof -
  have p: "0 < p" "k = right_align (length cs) (map Some (map stochastic_k (windows (nat p) cs)))"
    using assms by (auto simp: stochastic_def Let_def rbind_Inr_iff split: if_splits)
  show ?thesis
  proof (cases "nat p \<le> length cs")
    case True
    then show ?thesis using p by (auto simp: right_align_def intro!: warm_up_append)
  next
    case False
    then show ?thesis using p by (auto simp: right_align_def windows_def intro!: warm_up_replicate)
  qed
qed

lemma supertrend_line_defined: "sp_line (supertrend_step mu c a s) \<noteq> None"
  by (auto simp: supertrend_step_def Let_def split: option.splits)

lemma supertrend_loop_defined:
  "map (\<lambda>r. fst r = None) (supertrend_loop mu ces s) = map (\<lambda>e. snd e = None) ces"
  by (induction mu ces s rule: supertrend_loop.induct) (simp_all add: Let_def supertrend_line_defined)

lemma supertrend_warm_up:
  assumes "supertrend cs p mu = Inr (line, dir)" shows "warm_up (length cs) (nat p - 1) line"
proof -
  obtain a where a: "atr cs p = Inr a" "line = map fst (supertrend_loop mu (zip cs a) \<lparr>sp_line = None, sp_dir = 1\<rparr>)"
    using assms by (auto simp: supertrend_def rbind_Inr_iff Let_def)
  have w: "warm_up (length cs) (nat p - 1) a" by (rule atr_warm_up [OF a(1)])
  then have l: "length a = length cs" by (rule warm_up_length)
  have "map (\<lambda>e. snd e = None) (zip cs a) = map (\<lambda>v. v = None) a"
    using l by (intro nth_equalityI) auto
  then show ?thesis using warm_up_same_None [OF w] supertrend_loop_defined [of mu "zip cs a" "\<lparr>sp_line = None, sp_dir = 1\<rparr>"] a(2)
    by (simp add: comp_def)
qed

section \<open>Compensated sums of non-negative floats\<close>

definition is_float :: "rat \<Rightarrow> bool" where
  "is_float x \<longleftrightarrow> fl x = x"

definition fl_eps :: rat where "fl_eps = 1 / 2 ^ 53"

lemma is_float_ops [simp]: "is_float (fl x)" "is_float (fadd x y)" "is_float (fsub x y)" "is_float (fmul x y)" "is_float (fdiv x y)"
  by (simp_all add: is_float_def fops flt.rnd_idem)

lemma is_float_0 [simp]: "is_float 0" and is_float_1 [simp]: "is_float 1"
  by (simp_all add: is_float_def flt.rnd_0 flt.rnd_one)

lemma is_float_100 [simp]: "is_float 100"
  using fl_of_nat_power [of 100] by (simp add: is_float_def)

lemma fl_le_float: "is_float y \<Longrightarrow> x \<le> y \<Longrightarrow> fl x \<le> y" and float_le_fl: "is_float y \<Longrightarrow> y \<le> x \<Longrightarrow> y \<le> fl x"
  by (auto simp: is_float_def intro: flt.rnd_upper flt.rnd_lower)

lemma fl_upper: assumes "0 \<le> y" shows "fl y \<le> y * (1 + fl_eps)" and fl_lower: "y * (1 - fl_eps) \<le> fl y"
proof -
  have "\<bar>fl y - y\<bar> \<le> y * fl_eps"
  proof (cases "y = 0")
    case False
    then show ?thesis using rsig_error_pos [of 2 53 y] assms by (simp add: fl_def fl_eps_def power_int_minus)
  qed (simp add: flt.rnd_0)
  then show "fl y \<le> y * (1 + fl_eps)" "y * (1 - fl_eps) \<le> fl y" by (simp_all add: distrib_left right_diff_distrib abs_le_iff)
qed

lemma fl_eps_bounds: "0 < fl_eps" "fl_eps \<le> 1 / 16"
  by (simp_all add: fl_eps_def)

text \<open>The correction of one addition is never far below zero.\<close>

lemma correction_lower:
  assumes "0 \<le> a" "0 \<le> b" "is_float a" "t = fadd a b"
  shows "- (4 * fl_eps * t) \<le> fadd (fsub a t) b"
proof -
  have ta: "a \<le> t" using assms by (simp add: fadd_def float_le_fl)
  have t0: "0 \<le> t" using ta assms(1) by simp
  have sum: "(a + b) * (1 - fl_eps) \<le> t" "t \<le> (a + b) * (1 + fl_eps)"
    using fl_lower [of "a + b"] fl_upper [of "a + b"] assms by (simp_all add: fadd_def)
  have "(a + b) * (1 / 2) \<le> (a + b) * (1 - fl_eps)" using assms fl_eps_bounds by (intro mult_left_mono) auto
  then have ab: "a + b \<le> 2 * t" using sum(1) by simp
  have d: "fl (t - a) \<le> (t - a) * (1 + fl_eps)" using ta by (intro fl_upper) simp
  have "(t - a) * fl_eps \<le> t * fl_eps" "(a + b) * fl_eps \<le> 2 * t * fl_eps"
    using fl_eps_bounds assms(1) ab by (auto intro!: mult_right_mono)
  then have "- (3 * fl_eps * t) \<le> b - fl (t - a)" using sum(2) d by (simp add: algebra_simps)
  moreover have "fsub a t = - fl (t - a)" unfolding fsub_def by (metis flt.rnd_minus minus_diff_eq)
  ultimately have "fl (- (3 * fl_eps * t)) \<le> fadd (fsub a t) b" by (simp add: fadd_def flt.rnd_mono)
  moreover have "fl (3 * fl_eps * t) \<le> 3 * fl_eps * t * (1 + fl_eps)" using t0 fl_eps_bounds by (intro fl_upper) simp
  moreover have "3 * fl_eps * t * (1 + fl_eps) \<le> 3 * fl_eps * t * (4 / 3)"
    using t0 fl_eps_bounds by (intro mult_left_mono) auto
  ultimately show ?thesis by (simp add: flt.rnd_minus)
qed

lemma sum_step_lower:
  assumes "0 \<le> f" "is_float f" "0 \<le> x" "is_float x" "- (8 * of_nat k * fl_eps * f) \<le> c" "k < 2 ^ 50"
    and "sum_step (f, c) x = (t, c')"
  shows "0 \<le> t" "is_float t" "- (8 * of_nat (Suc k) * fl_eps * t) \<le> c'"
proof -
  let ?e = "if \<bar>x\<bar> \<le> \<bar>f\<bar> then fadd (fsub f t) x else fadd (fsub x t) f"
  have t: "t = fadd f x" "c' = fadd c ?e" using assms(7) by (auto simp: sum_step_def Let_def)
  show "is_float t" by (simp add: t)
  have ft: "f \<le> t" using assms by (simp add: t fadd_def float_le_fl)
  then show t0: "0 \<le> t" using assms(1) by simp
  have e: "- (4 * fl_eps * t) \<le> ?e"
    using correction_lower [of f x t] correction_lower [of x f t] assms t(1) by (simp add: fadd_def add.commute)
  have "8 * of_nat k * fl_eps * f \<le> 8 * of_nat k * fl_eps * t"
    using ft fl_eps_bounds by (intro mult_left_mono) auto
  then have "- ((8 * of_nat k + 4) * fl_eps * t) \<le> c + ?e" using assms(5) e by (simp add: algebra_simps)
  then have "fl (- ((8 * of_nat k + 4) * fl_eps * t)) \<le> c'" unfolding t(2) fadd_def [of c] by (rule flt.rnd_mono)
  moreover have "fl ((8 * of_nat k + 4) * fl_eps * t) \<le> (8 * of_nat k + 4) * fl_eps * t * (1 + fl_eps)"
    using t0 fl_eps_bounds by (intro fl_upper) simp
  moreover have "(8 * of_nat k + 4) * (1 + fl_eps) \<le> 8 * of_nat (Suc k)"
  proof -
    have "(of_nat k :: rat) \<le> 2 ^ 50" using assms(6) by (metis less_imp_le of_nat_le_iff of_nat_numeral of_nat_power)
    then have "(8 * of_nat k + 4) * fl_eps \<le> (8 * 2 ^ 50 + 4) * fl_eps" using fl_eps_bounds by (intro mult_right_mono) auto
    also have "\<dots> \<le> 4" by (simp add: fl_eps_def)
    finally show ?thesis by (simp add: algebra_simps)
  qed
  then have "(8 * of_nat k + 4) * (1 + fl_eps) * (fl_eps * t) \<le> 8 * of_nat (Suc k) * (fl_eps * t)"
    using t0 fl_eps_bounds by (intro mult_right_mono) auto
  ultimately show "- (8 * of_nat (Suc k) * fl_eps * t) \<le> c'" by (simp add: flt.rnd_minus mult.assoc mult.commute mult.left_commute)
qed

lemma sum_loop_lower:
  assumes "list_all (\<lambda>x. 0 \<le> x \<and> is_float x) xs" "0 \<le> f" "is_float f" "- (8 * of_nat k * fl_eps * f) \<le> c"
    and "k + length xs \<le> 2 ^ 50" "foldl sum_step (f, c) xs = (f', c')"
  shows "0 \<le> f' \<and> - (8 * of_nat (k + length xs) * fl_eps * f') \<le> c'"
  using assms
proof (induction xs arbitrary: f c k)
  case (Cons x xs)
  obtain t d where td: "sum_step (f, c) x = (t, d)" by fastforce
  then have step: "0 \<le> t" "is_float t" "- (8 * of_nat (Suc k) * fl_eps * t) \<le> d"
    using sum_step_lower [of f x k c t d] Cons.prems by auto
  then show ?case using Cons.IH [OF _ step] Cons.prems td by simp
qed simp

lemma py_sum_nonneg:
  assumes "list_all (\<lambda>x. 0 \<le> x \<and> is_float x) xs" "length xs \<le> 2 ^ 50"
  shows "0 \<le> py_sum xs"
proof (cases xs)
  case (Cons x ys)
  obtain f c where fc: "foldl sum_step (x, 0) ys = (f, c)" by fastforce
  have l: "0 \<le> f" "- (8 * of_nat (length ys) * fl_eps * f) \<le> c"
    using sum_loop_lower [of ys x 0 0 f c] assms Cons fc by auto
  have "(of_nat (length ys) :: rat) \<le> 2 ^ 50"
    using assms(2) Cons by (metis Suc_leD length_Cons of_nat_le_iff of_nat_numeral of_nat_power)
  then have "8 * of_nat (length ys) * fl_eps \<le> 1" by (simp add: fl_eps_def)
  then have "8 * of_nat (length ys) * fl_eps * f \<le> 1 * f" using l(1) by (rule mult_right_mono)
  then have "0 \<le> f + c" using l(2) by simp
  then show ?thesis using l(1) by (simp add: py_sum_def Cons fc fadd_def flt.rnd_nonneg)
qed (simp add: py_sum_def)

section \<open>Ranges\<close>

lemma fl_ops_nonneg:
  "0 \<le> x \<Longrightarrow> 0 \<le> y \<Longrightarrow> 0 \<le> fadd x y" "0 \<le> x \<Longrightarrow> 0 \<le> y \<Longrightarrow> 0 \<le> fmul x y" "0 \<le> x \<Longrightarrow> 0 \<le> y \<Longrightarrow> 0 \<le> fdiv x y"
  "y \<le> x \<Longrightarrow> 0 \<le> fsub x y"
  by (simp_all add: fops flt.rnd_nonneg)

lemma rsi_from_bounds: assumes "0 \<le> g" "0 \<le> l" shows "0 \<le> rsi_from g l" "rsi_from g l \<le> 100"
proof -
  let ?d = "fadd 1 (fdiv g l)"
  have "1 \<le> ?d" using assms by (simp add: fadd_def float_le_fl fl_ops_nonneg)
  then have "0 \<le> 100 / ?d" "100 / ?d \<le> 100" by (simp_all add: divide_le_eq)
  then have "0 \<le> fdiv 100 ?d" "fdiv 100 ?d \<le> 100" unfolding fdiv_def [of 100] by (auto intro: fl_le_float flt.rnd_nonneg)
  then show "0 \<le> rsi_from g l" "rsi_from g l \<le> 100"
    using fl_ops_nonneg(4) [of "fdiv 100 ?d" 100] fl_le_float [of 100 "100 - fdiv 100 ?d"]
    by (auto simp: rsi_from_def fsub_def)
qed

definition nonneg_floats :: "pyfloat list \<Rightarrow> bool" where
  "nonneg_floats xs \<longleftrightarrow> list_all (\<lambda>x. 0 \<le> x \<and> is_float x) xs"

lemma nonneg_floats_simps [simp]:
  "nonneg_floats []" "nonneg_floats (x # xs) \<longleftrightarrow> 0 \<le> x \<and> is_float x \<and> nonneg_floats xs"
  by (auto simp: nonneg_floats_def)

lemma nonneg_take_drop: "nonneg_floats xs \<Longrightarrow> nonneg_floats (take n xs)" "nonneg_floats xs \<Longrightarrow> nonneg_floats (drop n xs)"
  by (auto simp: nonneg_floats_def list_all_iff dest: in_set_takeD in_set_dropD)

lemma wilder_loop_nonneg: "0 < p \<Longrightarrow> 0 \<le> q \<Longrightarrow> nonneg_floats xs \<Longrightarrow> nonneg_floats (wilder_loop p q xs)"
  by (induction xs arbitrary: q) (auto simp: Let_def fl_ops_nonneg)

lemma first_average_nonneg: "nonneg_floats xs \<Longrightarrow> 0 < p \<Longrightarrow> length xs \<le> 2 ^ 50 \<Longrightarrow> 0 \<le> fdiv (py_sum (take n xs)) (of_int p)"
  using nonneg_take_drop(1) [of xs n] by (auto simp: nonneg_floats_def intro!: fl_ops_nonneg py_sum_nonneg)

lemma moves_nonneg: "nonneg_floats (gains xs)" "nonneg_floats (losses xs)"
proof -
  have "nonneg_floats (map (\<lambda>c. max c 0) ys)" "nonneg_floats (map (\<lambda>c. max (- c) 0) ys)"
    if "list_all is_float ys" for ys
    using that by (auto simp: nonneg_floats_def list_all_iff max_def is_float_def flt.rnd_minus flt.rnd_0)
  moreover have "list_all is_float (changes xs)" by (auto simp: changes_def list_all_iff)
  ultimately show "nonneg_floats (gains xs)" "nonneg_floats (losses xs)" by (simp_all add: gains_def losses_def)
qed

lemma defined_values_simps [simp]:
  "defined_values (replicate n None @ map Some vs) = vs" "defined_values (map Some vs) = vs" "defined_values (replicate n None) = []"
  by (simp_all add: defined_values_def map_filter_def comp_def)

lemma rsi_range:
  assumes "rsi xs p = Inr out" "length xs \<le> 2 ^ 50"
  shows "list_all (\<lambda>v. 0 \<le> v \<and> v \<le> 100) (defined_values out)"
proof (cases "length xs \<le> nat p")
  case False
  let ?g = "fdiv (py_sum (take (nat p) (gains xs))) (of_int p)" and ?l = "fdiv (py_sum (take (nat p) (losses xs))) (of_int p)"
  let ?gs = "?g # wilder_loop p ?g (drop (nat p) (gains xs))" and ?ls = "?l # wilder_loop p ?l (drop (nat p) (losses xs))"
  have p: "0 < p" and out: "out = replicate (nat p) None @ map Some (map2 rsi_from ?gs ?ls)"
    using assms(1) False by (simp_all add: rsi_def require_positive_Inr Let_def)
  have "nonneg_floats ?gs" "nonneg_floats ?ls"
    using assms(2) p moves_nonneg [of xs] by (auto intro!: wilder_loop_nonneg first_average_nonneg nonneg_take_drop)
  then have "\<forall>e \<in> set (zip ?gs ?ls). 0 \<le> fst e \<and> 0 \<le> snd e"
    unfolding nonneg_floats_def list_all_iff by (metis in_set_zipE prod.collapse)
  then have "\<forall>v \<in> set (map2 rsi_from ?gs ?ls). 0 \<le> v \<and> v \<le> 100"
    using rsi_from_bounds by (auto simp del: zip_Cons_Cons)
  then show ?thesis unfolding out defined_values_simps list_all_iff .
qed (use assms in \<open>auto simp: rsi_def require_positive_Inr Let_def\<close>)

text \<open>Sane market data: floats, low below high, no negative volume.\<close>

definition candle_ok :: "candle \<Rightarrow> bool" where
  "candle_ok c \<longleftrightarrow> cd_low c \<le> cd_high c \<and> 0 \<le> cd_volume c \<and> list_all is_float [cd_high c, cd_low c, cd_close c, cd_volume c]"

lemma true_range_nonneg: "list_all candle_ok cs \<Longrightarrow> nonneg_floats (true_range cs)"
proof (cases cs)
  case (Cons c rest)
  assume ok: "list_all candle_ok cs"
  have "is_float (max (max a \<bar>b\<bar>) \<bar>d\<bar>)" if "is_float a" "is_float b" "is_float d" for a b d
    using that by (auto simp: max_def is_float_def flt.rnd_abs)
  then have "nonneg_floats (map (\<lambda>(p, c). max (max (fsub (cd_high c) (cd_low c)) \<bar>fsub (cd_high c) (cd_close p)\<bar>) \<bar>fsub (cd_low c) (cd_close p)\<bar>) (zip cs rest))"
    by (auto simp: nonneg_floats_def list_all_iff le_max_iff_disj)
  moreover have "0 \<le> fsub (cd_high c) (cd_low c)" using ok Cons by (simp add: candle_ok_def fl_ops_nonneg)
  ultimately show ?thesis by (simp add: true_range_def Cons)
qed (simp add: true_range_def)

lemma atr_nonneg:
  assumes "atr cs p = Inr out" "list_all candle_ok cs" "length cs \<le> 2 ^ 50"
  shows "nonneg_floats (defined_values out)"
proof (cases "length cs < nat p")
  case False
  let ?q = "fdiv (py_sum (take (nat p) (true_range cs))) (of_int p)"
  have out: "0 < p" "out = replicate (nat p - 1) None @ map Some (?q # wilder_loop p ?q (drop (nat p) (true_range cs)))"
    using assms(1) False by (simp_all add: atr_def wilder_smoothing_def require_positive_Inr Let_def)
  show ?thesis unfolding out(2) defined_values_simps using true_range_nonneg [OF assms(2)] assms(3) out(1)
    by (auto intro!: wilder_loop_nonneg first_average_nonneg nonneg_take_drop)
qed (use assms in \<open>auto simp: atr_def wilder_smoothing_def require_positive_Inr Let_def\<close>)

text \<open>The power function of the C library: squares are floats and not negative, nor are square roots.\<close>

definition pow_ok :: "(pyfloat \<Rightarrow> pyfloat \<Rightarrow> pyfloat) \<Rightarrow> bool" where
  "pow_ok cpow \<longleftrightarrow> (\<forall>x. 0 \<le> cpow x 2 \<and> is_float (cpow x 2)) \<and> (\<forall>x. 0 \<le> x \<longrightarrow> 0 \<le> cpow x (1/2))"

lemma std_dev_nonneg: "pow_ok cpow \<Longrightarrow> 0 < p \<Longrightarrow> length w \<le> 2 ^ 50 \<Longrightarrow> 0 \<le> std_dev cpow p m w"
proof -
  assume a: "pow_ok cpow" "0 < p" "length w \<le> 2 ^ 50"
  then have "0 \<le> fdiv (py_sum (map (\<lambda>x. cpow (fsub x m) 2) w)) (of_int p)"
    by (intro fl_ops_nonneg py_sum_nonneg) (auto simp: pow_ok_def list_all_iff)
  then show "0 \<le> std_dev cpow p m w" using a(1) by (simp add: std_dev_def pow_ok_def)
qed

lemma sma_floats:
  assumes "sma xs p = Inr out" shows "list_all is_float (defined_values out)"
proof -
  have "list_all is_float (sma_loop q w es)" for q w es by (induction es arbitrary: w) (simp_all add: Let_def)
  then show ?thesis using assms
    by (auto simp: sma_def require_positive_Inr Let_def simp del: list.map split: if_splits)
qed

lemma defined_right_align: "defined_values (right_align n (map (\<lambda>e. Some (f e)) es)) = map f es"
  by (simp add: right_align_def defined_values_def map_filter_def comp_def)

lemma defined_band:
  "defined_values (band side cpow p k xs mid) =
    map2 (\<lambda>w m. side m (fmul k (std_dev cpow p m w))) (windows (nat p) xs) (defined_values mid)"
  unfolding band_def case_prod_unfold by (rule defined_right_align)

lemma bollinger_order:
  assumes "bollinger_bands cpow xs p k = Inr (up, mid, low)" "pow_ok cpow" "0 \<le> k" "length xs \<le> 2 ^ 50"
  shows "list_all2 (\<le>) (defined_values low) (defined_values mid)" "list_all2 (\<le>) (defined_values mid) (defined_values up)"
proof -
  have mid: "sma xs p = Inr mid" "up = band fadd cpow p k xs mid" "low = band fsub cpow p k xs mid"
    using assms(1) by (auto simp: bollinger_bands_def rbind_Inr_iff)
  have p: "0 < p" using mid(1) by (simp add: sma_def require_positive_Inr)
  note wu = averages_warm_up(1) [OF mid(1)]
  let ?M = "defined_values mid" and ?W = "windows (nat p) xs"
  have l: "length ?W = length ?M" using warm_up_defined [OF wu] p by simp
  have fm: "is_float (?M ! i)" if "i < length ?M" for i using sma_floats [OF mid(1)] that by (simp add: list_all_length)
  have s: "0 \<le> fmul k (std_dev cpow p m (?W ! i))" if "i < length ?M" for i m
    using that l assms(2-4) p by (intro fl_ops_nonneg std_dev_nonneg) (auto simp: windows_def)
  show "list_all2 (\<le>) (defined_values low) ?M" "list_all2 (\<le>) ?M (defined_values up)"
    using l fm s by (auto simp: mid(2,3) defined_band list_all2_conv_all_nth fadd_def fsub_def fl_le_float float_le_fl)
qed

text \<open>C30: bounded indicators stay in their range in floating-point arithmetic: the relative strength index
  lies between 0 and 100, the average true range of sane candles is not negative, and the Bollinger
  bands enclose the moving average at every position.\<close>

theorem indicator_ranges:
  assumes "pow_ok cpow" and "list_all candle_ok cs" and "length cs \<le> 2 ^ 50" and "0 \<le> k"
    and "rsi (map cd_close cs) p = Inr r" and "atr cs q = Inr a" and "bollinger_bands cpow (map cd_close cs) n k = Inr (up, mid, low)"
  shows "list_all (\<lambda>v. 0 \<le> v \<and> v \<le> 100) (defined_values r)
    \<and> list_all (\<lambda>v. 0 \<le> v) (defined_values a)
    \<and> list_all2 (\<le>) (defined_values low) (defined_values mid) \<and> list_all2 (\<le>) (defined_values mid) (defined_values up)"
  using rsi_range [OF assms(5)] atr_nonneg [OF assms(6,2,3)] bollinger_order [OF assms(7,1,4)] assms(3)
  by (auto simp: nonneg_floats_def list_all_iff)

definition ex_pow :: "pyfloat \<Rightarrow> pyfloat \<Rightarrow> pyfloat" where
  "ex_pow x y = (if y = 2 then fmul x x else max x 0)"

lemma ex_pow_ok: "pow_ok ex_pow"
  by (auto simp: pow_ok_def ex_pow_def fmul_def flt.rnd_nonneg)

definition ex_candle :: "int \<Rightarrow> pyfloat \<Rightarrow> pyfloat \<Rightarrow> pyfloat \<Rightarrow> pyfloat \<Rightarrow> candle" where
  "ex_candle t h l c v = \<lparr>cd_timestamp = t, cd_open = l, cd_high = h, cd_low = l, cd_close = c, cd_volume = v\<rparr>"

definition ex_candles :: "candle list" where
  "ex_candles = [ex_candle 0 12 10 11 0, ex_candle 1 14 11 12 3, ex_candle 2 13 9 10 5, ex_candle 3 12 10 11 4, ex_candle 4 15 11 14 2]"

theorem indicator_ranges_witness:
  "\<exists>r a up mid low. rsi (map cd_close ex_candles) 2 = Inr r \<and> atr ex_candles 2 = Inr a
     \<and> bollinger_bands ex_pow (map cd_close ex_candles) 2 2 = Inr (up, mid, low)
     \<and> list_all (\<lambda>v. 0 \<le> v \<and> v \<le> 100) (defined_values r) \<and> defined_values r \<noteq> []
     \<and> list_all2 (\<le>) (defined_values low) (defined_values mid)"
proof -
  have "is_ok (rsi (map cd_close ex_candles) 2)" "is_ok (atr ex_candles 2)" "is_ok (bollinger_bands ex_pow (map cd_close ex_candles) 2 2)"
    by (simp_all add: rsi_def atr_def wilder_smoothing_def bollinger_bands_def sma_def require_positive_def Let_def del: list.map)
  then obtain r a up mid low where r: "rsi (map cd_close ex_candles) 2 = Inr r" "atr ex_candles 2 = Inr a"
      "bollinger_bands ex_pow (map cd_close ex_candles) 2 2 = Inr (up, mid, low)"
    unfolding is_ok_iff by (metis surj_pair)
  have ok: "list_all candle_ok ex_candles" by code_simp
  have len: "length ex_candles \<le> 2 ^ 50" by (simp add: ex_candles_def)
  have "length (defined_values r) = 3" using warm_up_defined [OF rsi_warm_up [OF r(1)]] by (simp add: ex_candles_def)
  then have "defined_values r \<noteq> []" by auto
  with r indicator_ranges [OF ex_pow_ok ok len _ r] show ?thesis
    by (intro exI [of _ r] exI [of _ a] exI [of _ up] exI [of _ mid] exI [of _ low]) simp
qed

section \<open>Alignment of the cumulative indicators\<close>

lemma warm_up_Cons:
  "warm_up n k xs \<Longrightarrow> warm_up (Suc n) (Suc k) (None # xs)" "warm_up n 0 xs \<Longrightarrow> warm_up (Suc n) 0 (Some v # xs)"
  by (auto simp: warm_up_nth nth_Cons split: nat.splits)

lemma vwap_loop_warm_up:
  assumes "list_all candle_ok cs" "0 \<le> vol" "is_float vol"
  shows "\<exists>k. warm_up (length cs) k (vwap_loop pv vol cs) \<and> (0 < vol \<longrightarrow> k = 0)"
  using assms
proof (induction cs arbitrary: pv vol)
  case Nil
  then show ?case by (auto simp: warm_up_def)
next
  case (Cons c cs)
  let ?vol = "fadd vol (cd_volume c)"
  have mono: "vol \<le> ?vol" using Cons.prems by (auto simp: candle_ok_def fadd_def intro!: float_le_fl)
  obtain k where k: "warm_up (length cs) k (vwap_loop (fadd pv (fmul (fdiv (fadd (fadd (cd_high c) (cd_low c)) (cd_close c)) 3) (cd_volume c))) ?vol cs)"
      "0 < ?vol \<longrightarrow> k = 0"
    using Cons.IH [of ?vol] Cons.prems mono by fastforce
  show ?case
  proof (cases "0 < ?vol")
    case True
    then show ?thesis using k warm_up_Cons(2) by (auto simp: Let_def)
  next
    case False
    then show ?thesis using k(1) warm_up_Cons(1) mono by (fastforce simp: Let_def)
  qed
qed

lemma vwap_warm_up: "list_all candle_ok cs \<Longrightarrow> \<exists>k. warm_up (length cs) k (vwap cs)"
  using vwap_loop_warm_up [of cs 0 0] by (auto simp: vwap_def)

text \<open>With a period of at least two, a smoothed series that has become positive stays positive.\<close>

definition zeros_lead :: "pyfloat list \<Rightarrow> bool" where
  "zeros_lead xs \<longleftrightarrow> (\<exists>j. map (\<lambda>x. x = 0) xs = map (\<lambda>i. i < j) [0 ..< length xs])"

lemma zeros_lead_Cons: "zeros_lead xs \<Longrightarrow> zeros_lead (0 # xs)" and zeros_lead_pos: "list_all (\<lambda>x. 0 < x) xs \<Longrightarrow> zeros_lead xs"
proof -
  show "zeros_lead xs \<Longrightarrow> zeros_lead (0 # xs)" unfolding zeros_lead_def
  proof (elim exE)
    fix j assume "map (\<lambda>x. x = 0) xs = map (\<lambda>i. i < j) [0 ..< length xs]"
    then have "map (\<lambda>x. x = 0) (0 # xs) = map (\<lambda>i. i < Suc j) (0 # map Suc [0 ..< length xs])" by (simp add: comp_def)
    then show "\<exists>j. map (\<lambda>x. x = 0) (0 # xs) = map (\<lambda>i. i < j) [0 ..< length (0 # xs)]"
      by (intro exI [of _ "Suc j"]) (simp add: map_Suc_upt upt_conv_Cons del: upt_Suc)
  qed
  assume "list_all (\<lambda>x. 0 < x) xs"
  then show "zeros_lead xs" unfolding zeros_lead_def by (intro exI [of _ 0] nth_equalityI) (auto simp: list_all_length)
qed

lemma wilder_step_pos: "2 \<le> p \<Longrightarrow> 0 < q \<Longrightarrow> 0 \<le> v \<Longrightarrow> 0 < fdiv (fadd (fmul q (of_int (p - 1))) v) (of_int p)"
proof -
  assume a: "2 \<le> p" "0 < q" "0 \<le> v"
  have "0 < fmul q (of_int (p - 1))" unfolding fmul_def using a by (intro fl_pos) auto
  then have "0 < fadd (fmul q (of_int (p - 1))) v" unfolding fadd_def using a by (intro fl_pos) auto
  then show ?thesis unfolding fdiv_def using a by (intro fl_pos) auto
qed

lemma wilder_loop_pos: "2 \<le> p \<Longrightarrow> 0 < q \<Longrightarrow> nonneg_floats xs \<Longrightarrow> list_all (\<lambda>x. 0 < x) (wilder_loop p q xs)"
  by (induction xs arbitrary: q) (auto simp: Let_def wilder_step_pos simp del: of_int_diff)

lemma wilder_zeros_lead:
  assumes "2 \<le> p" "0 \<le> q" "nonneg_floats xs" shows "zeros_lead (q # wilder_loop p q xs)"
  using assms
proof (induction xs arbitrary: q)
  case (Cons x xs)
  show ?case
  proof (cases "q = 0")
    case True
    let ?q = "fdiv (fadd (fmul q (of_int (p - 1))) x) (of_int p)"
    have "zeros_lead (?q # wilder_loop p ?q xs)" using Cons by (auto intro!: Cons.IH fl_ops_nonneg)
    then show ?thesis using True zeros_lead_Cons by (simp add: Let_def)
  next
    case False
    then have "list_all (\<lambda>x. 0 < x) (q # wilder_loop p q (x # xs))" using Cons.prems wilder_loop_pos [of p q "x # xs"] by simp
    then show ?thesis by (rule zeros_lead_pos)
  qed
qed (auto simp: zeros_lead_def intro: exI [of _ 1] exI [of _ 0])

lemma dx_None: "dx_of a p m = None \<longleftrightarrow> a \<in> {None, Some 0} \<or> p = None \<or> m = None"
  by (auto simp: dx_of_def Let_def split: option.splits)

lemma dm_length [simp]: "cs \<noteq> [] \<Longrightarrow> length (plus_dm cs) = length cs" "cs \<noteq> [] \<Longrightarrow> length (minus_dm cs) = length cs"
  by (simp_all add: plus_dm_def minus_dm_def)

lemma dx_warm_up:
  assumes "warm_up n w a" "warm_up n w pl" "warm_up n w mi" "zeros_lead (defined_values a)"
  obtains k where "w \<le> k" "warm_up n k (map (\<lambda>(a, p, m). dx_of a p m) (zip a (zip pl mi)))"
proof -
  obtain vs where vs: "a = replicate (min w n) None @ map Some vs" "length vs = n - w" using assms(1) by (rule warm_up_split)
  then obtain j where j: "map (\<lambda>x. x = 0) vs = map (\<lambda>i. i < j) [0 ..< n - w]" using assms(4) by (auto simp: zeros_lead_def)
  have z: "vs ! i = 0 \<longleftrightarrow> i < j" if "i < n - w" for i using arg_cong [OF j, of "\<lambda>xs. xs ! i"] that vs(2) by simp
  have l: "length a = n" "length pl = n" "length mi = n" using assms by (auto dest: warm_up_length)
  have "a ! i \<in> {None, Some 0} \<or> pl ! i = None \<or> mi ! i = None \<longleftrightarrow> i < w + j" if "i < n" for i
  proof (cases "i < w")
    case False
    then have "a ! i = Some (vs ! (i - w))" using that vs by (simp add: nth_append min_def)
    then show ?thesis using False that z [of "i - w"] assms(2,3) by (auto simp: warm_up_nth)
  qed (use that assms in \<open>auto simp: warm_up_nth\<close>)
  then have "warm_up n (w + j) (map (\<lambda>(a, p, m). dx_of a p m) (zip a (zip pl mi)))"
    using l by (simp add: warm_up_nth dx_None)
  then show thesis by (rule that [rotated]) simp
qed

lemma adx_warm_up:
  assumes "adx cs p = Inr out" "2 \<le> p" "list_all candle_ok cs" "length cs \<le> 2 ^ 50"
  shows "\<exists>k. 2 * nat p - 2 \<le> k \<and> warm_up (length cs) k out"
proof (cases "int (length cs) < 2 * p - 1")
  case True
  then show ?thesis using assms(1,2) by (intro exI [of _ "2 * nat p - 2"]) (auto simp: adx_def intro: warm_up_replicate)
next
  case False
  let ?n = "length cs"
  have ne: "cs \<noteq> []" using False assms(2) by auto
  let ?dx = "\<lambda>a pl mi. map (\<lambda>(a, p, m). dx_of a p m) (zip a (zip pl mi))"
  obtain a pl mi d where a: "wilder_smoothing (true_range cs) p = Inr a" "wilder_smoothing (plus_dm cs) p = Inr pl"
      "wilder_smoothing (minus_dm cs) p = Inr mi"
    and d: "wilder_smoothing (defined_values (?dx a pl mi)) p = Inr d" "out = right_align ?n d"
    using assms(1) False ne by (auto simp: adx_def Let_def rbind_Inr_iff)
  have w: "warm_up ?n (nat p - 1) a" "warm_up ?n (nat p - 1) pl" "warm_up ?n (nat p - 1) mi"
    using averages_warm_up(3) [OF a(1)] averages_warm_up(3) [OF a(2)] averages_warm_up(3) [OF a(3)] ne by auto
  have "zeros_lead (defined_values a)"
    using a(1) assms(2,4) False true_range_nonneg [OF assms(3)]
    by (auto simp: wilder_smoothing_def require_positive_Inr Let_def simp del: list.map
        intro!: wilder_zeros_lead first_average_nonneg nonneg_take_drop split: if_splits)
  then obtain k where k: "nat p - 1 \<le> k" "warm_up ?n k (?dx a pl mi)" using dx_warm_up [OF w] by metis
  have "warm_up (?n - k) (nat p - 1) d" using averages_warm_up(3) [OF d(1)] warm_up_defined [OF k(2)] by simp
  then have "warm_up ?n (?n - (?n - k) + (nat p - 1)) out" using d(2) warm_up_align by simp
  moreover have "2 * nat p - 2 \<le> ?n - (?n - k) + (nat p - 1)" using k(1) False assms(2) by linarith
  ultimately show ?thesis by blast
qed

text \<open>Where each indicator of the service becomes defined; for the last two the position depends on the data.\<close>

definition first_defined :: "string \<Rightarrow> int \<Rightarrow> nat" where
  "first_defined name period =
     (if name = ''rsi'' then nat period
      else if name = ''macd'' then 25
      else if name = ''adx'' then 2 * nat period - 2
      else if name = ''vwap'' then 0
      else nat period - 1)"



text \<open>
  With a period of one the smoothed range of a flat candle is zero, the directional index of that
  candle is missing, and the values before it move one position to the right: here the second entry
  belongs to the first candle and the third to the second.
\<close>

definition flat_candles :: "candle list" where
  "flat_candles = [ex_candle 0 12 10 11 1, ex_candle 1 16 11 12 1, ex_candle 2 12 12 12 1, ex_candle 3 13 10 11 1]"

lemma adx_period_one_shifts:
  "adx flat_candles 1 = Inr [None, Some 0, Some 100, Some 100]
   \<and> dx_of (Some 2) (Some 0) (Some 0) = Some 0 \<and> dx_of (Some 0) (Some 0) (Some 1) = None"
  by code_simp

section \<open>The moving average is the mean of its window\<close>

text \<open>
  The code keeps a running window sum. The reference definition averages every window on its own; its
  only rounding is the final division. The two agree whenever the prices are multiples of a common
  power of two and small enough for a window to be summed without rounding, e.g. multiples of
  $2^{-20}$ below $2^{20}$ with periods up to 8000.
\<close>

definition on_grid :: "nat \<Rightarrow> int \<Rightarrow> rat \<Rightarrow> bool" where
  "on_grid e b x \<longleftrightarrow> (let m = \<lfloor>x * 2 ^ e\<rfloor> in x * 2 ^ e = of_int m \<and> \<bar>m\<bar> \<le> b)"

definition window_mean :: "int \<Rightarrow> pyfloat list \<Rightarrow> pyfloat" where
  "window_mean period w = fdiv (sum_list w) (of_int period)"

definition sma_reference :: "pyfloat list \<Rightarrow> int \<Rightarrow> opt_series" where
  "sma_reference values period = right_align (length values) (map (\<lambda>w. Some (window_mean period w)) (windows (nat period) values))"

lemma on_gridE: assumes "on_grid e b x" obtains m where "x = of_int m / 2 ^ e" "\<bar>m\<bar> \<le> b"
  using assms by (auto simp: on_grid_def Let_def eq_divide_eq)

lemma on_gridI: "x = of_int m / 2 ^ e \<Longrightarrow> \<bar>m\<bar> \<le> b \<Longrightarrow> on_grid e b x"
  by (simp add: on_grid_def)

lemma grid_float: assumes "on_grid e (2 ^ 53) x" shows "fl x = x"
proof -
  obtain m where m: "x = of_int m / 2 ^ e" "\<bar>m\<bar> \<le> 2 ^ 53" using assms by (rule on_gridE)
  then have "representable 2 53 x"
    unfolding representable_def by (intro exI [of _ m] exI [of _ "- int e"]) (simp add: power_int_minus field_simps)
  then show ?thesis by (simp add: fl_def rsig_representable)
qed

lemma grid_add: assumes "on_grid e a x" "on_grid e b y" shows "on_grid e (a + b) (x + y)" "on_grid e (a + b) (x - y)"
proof -
  obtain m k where "x = of_int m / 2 ^ e" "\<bar>m\<bar> \<le> a" "y = of_int k / 2 ^ e" "\<bar>k\<bar> \<le> b" using assms by (metis on_gridE)
  then show "on_grid e (a + b) (x + y)" "on_grid e (a + b) (x - y)"
    using on_gridI [of "x + y" "m + k" e "a + b"] on_gridI [of "x - y" "m - k" e "a + b"]
    by (simp_all add: add_divide_distrib diff_divide_distrib)
qed

lemma grid_mono: "on_grid e a x \<Longrightarrow> a \<le> b \<Longrightarrow> on_grid e b x"
  by (auto simp: on_grid_def Let_def)

lemma grid_sum: "list_all (on_grid e b) xs \<Longrightarrow> on_grid e (int (length xs) * b) (sum_list xs)"
proof (induction xs)
  case Nil
  then show ?case by (simp add: on_grid_def)
next
  case (Cons x xs)
  then show ?case using grid_add(1) [of e b x "int (length xs) * b" "sum_list xs"] by (simp add: distrib_right)
qed

lemma grid_nonneg: "on_grid e b x \<Longrightarrow> 0 \<le> b"
  by (auto elim!: on_gridE)

lemma sum_step_exact:
  assumes "on_grid e a f" "on_grid e b x" "a + b \<le> 2 ^ 53"
  shows "sum_step (f, 0) x = (f + x, 0)"
proof -
  have g: "on_grid e (2 ^ 53) (f + x)" "on_grid e (2 ^ 53) x" "on_grid e (2 ^ 53) f"
    using assms grid_nonneg [OF assms(1)] grid_nonneg [OF assms(2)] grid_add(1) [OF assms(1,2)] by (auto elim: grid_mono)
  then show ?thesis by (auto simp: sum_step_def fadd_def fsub_def grid_float flt.rnd_minus flt.rnd_0 Let_def)
qed

lemma foldl_exact:
  assumes "list_all (on_grid e b) xs" "on_grid e a f" "a + int (length xs) * b \<le> 2 ^ 53"
  shows "foldl sum_step (f, 0) xs = (f + sum_list xs, 0)"
  using assms
proof (induction xs arbitrary: f a)
  case (Cons x xs)
  have b: "0 \<le> b" "on_grid e b x" using Cons.prems grid_nonneg [of e b x] by auto
  have "0 \<le> int (length xs) * b" using b(1) by simp
  then have "a + b \<le> 2 ^ 53" "(a + b) + int (length xs) * b \<le> 2 ^ 53"
    using Cons.prems(3) by (simp_all add: distrib_right)
  then show ?case using sum_step_exact [OF Cons.prems(2) b(2)] Cons.IH [OF _ grid_add(1) [OF Cons.prems(2) b(2)]] Cons.prems(1)
    by (simp add: add.assoc)
qed simp

lemma py_sum_exact:
  assumes "list_all (on_grid e b) xs" "int (length xs) * b \<le> 2 ^ 53"
  shows "py_sum xs = sum_list xs"
proof (cases xs)
  case (Cons x ys)
  then show ?thesis using foldl_exact [of e b ys b x] assms by (simp add: py_sum_def algebra_simps)
qed (simp add: py_sum_def)

lemma window_shift:
  assumes "i + n < length xs"
  shows "sum_list (take n (drop (Suc i) xs)) = sum_list (take n (drop i xs)) + (xs ! (i + n) - xs ! i :: rat)"
proof (cases n)
  case (Suc k)
  have "drop i xs = xs ! i # drop (Suc i) xs" using assms by (simp add: Cons_nth_drop_Suc)
  moreover have "take (Suc k) (drop (Suc i) xs) = take k (drop (Suc i) xs) @ [xs ! (i + n)]"
    using assms Suc by (simp add: take_Suc_conv_app_nth)
  ultimately show ?thesis using Suc by simp
qed simp

lemma sma_loop_exact:
  assumes "list_all (on_grid e b) xs" "(int n + 1) * b \<le> 2 ^ 53" "i + n \<le> length xs" "0 < n"
  shows "sma_loop p (sum_list (take n (drop i xs))) (zip (drop (i + n) xs) (drop i xs))
    = map (\<lambda>j. fdiv (sum_list (take n (drop j xs))) p) [Suc i ..< Suc (length xs) - n]"
  using assms(3)
proof (induction "length xs - (i + n)" arbitrary: i)
  case (Suc k)
  have i: "i + n < length xs" using Suc(2) by simp
  let ?S = "\<lambda>j. sum_list (take n (drop j xs))"
  have gi: "on_grid e b (xs ! j)" if "j < length xs" for j using assms(1) that by (simp add: list_all_length)
  have b0: "0 \<le> b" using grid_nonneg [OF gi [of i]] i by simp
  have "on_grid e (int (length (take n (drop (Suc i) xs))) * b) (?S (Suc i))"
    by (rule grid_sum) (use assms(1) in \<open>auto simp: list_all_iff dest: in_set_takeD in_set_dropD\<close>)
  moreover have "b \<le> int n * b" using assms(4) b0 mult_right_mono [of 1 "int n" b] by simp
  then have nb: "int n * b \<le> 2 ^ 53" "2 * b \<le> (int n + 1) * b" using assms(2) b0 by (simp_all add: distrib_right)
  moreover have "int (length (take n (drop (Suc i) xs))) * b \<le> int n * b" using b0 by (intro mult_right_mono) auto
  ultimately have gS: "on_grid e (2 ^ 53) (?S (Suc i))" by (meson grid_mono order_trans)
  have "on_grid e (2 ^ 53) (xs ! (i + n) - xs ! i)"
    using grid_add(2) [OF gi [of "i + n"] gi [of i]] i nb assms(2) by (auto elim!: grid_mono)
  then have step: "fadd (?S i) (fsub (xs ! (i + n)) (xs ! i)) = ?S (Suc i)"
    using gS window_shift [OF i] by (simp add: fadd_def fsub_def grid_float)
  have "drop (i + n) xs = xs ! (i + n) # drop (Suc i + n) xs" "drop i xs = xs ! i # drop (Suc i) xs"
    using i by (simp_all add: Cons_nth_drop_Suc)
  moreover have "sma_loop p (?S (Suc i)) (zip (drop (Suc i + n) xs) (drop (Suc i) xs))
      = map (\<lambda>j. fdiv (?S j) p) [Suc (Suc i) ..< Suc (length xs) - n]"
    using Suc i by (intro Suc(1)) auto
  moreover have "[Suc i ..< Suc (length xs) - n] = Suc i # [Suc (Suc i) ..< Suc (length xs) - n]"
    using i by (intro upt_conv_Cons) simp
  ultimately show ?case using step by (simp add: Let_def)
qed simp

text \<open>C31: the running moving average equals the reference definition, the mean of each window taken on its
  own, on prices that can be summed without rounding: the incremental update neither drifts nor
  shifts.\<close>

theorem sma_is_window_mean:
  assumes "list_all (on_grid e b) values" and "(period + 1) * b \<le> 2 ^ 53" and "0 < period"
  shows "sma values period = Inr (sma_reference values period)"
proof (cases "length values < nat period")
  case True
  then show ?thesis using assms(3)
    by (simp add: sma_def require_positive_def sma_reference_def windows_def right_align_def)
next
  case False
  let ?n = "nat period" and ?p = "of_int period :: rat"
  have nb: "(int ?n + 1) * b \<le> 2 ^ 53" using assms(2,3) by simp
  have ws: "windows ?n values = map (\<lambda>j. take ?n (drop j values)) [0 ..< Suc (length values) - ?n]" by (simp add: windows_def)
  have first: "[0 ..< Suc (length values) - ?n] = 0 # [Suc 0 ..< Suc (length values) - ?n]" using False by (intro upt_conv_Cons) simp
  have "py_sum (take ?n values) = sum_list (take ?n values)"
  proof (cases "values")
    case (Cons v vs)
    then have "0 \<le> b" using assms(1) grid_nonneg by auto
    then have "int (length (take ?n values)) * b \<le> (int ?n + 1) * b" by (intro mult_right_mono) auto
    then show ?thesis using nb assms(1) by (intro py_sum_exact [of e b]) (auto simp: list_all_iff dest: in_set_takeD)
  qed (simp add: py_sum_def)
  moreover have "length values - (Suc (length values) - ?n) = ?n - 1" using False by linarith
  then have "sma_reference values period = replicate (?n - 1) None @ map (\<lambda>w. Some (window_mean period w)) (windows ?n values)"
    by (simp add: sma_reference_def right_align_def)
  ultimately show ?thesis using False assms(3) sma_loop_exact [OF assms(1) nb, of 0 ?p]
    by (simp add: sma_def require_positive_def Let_def ws first window_mean_def comp_def del: upt_Suc)
qed

theorem sma_is_window_mean_witness:
  "sma [10, 21/2, 11, 23/2] 3 = Inr (sma_reference [10, 21/2, 11, 23/2] 3)
   \<and> sma_reference [10, 21/2, 11, 23/2] 3 = [None, None, Some (21/2), Some 11]"
proof -
  have "list_all (on_grid 1 23) [10, 21/2, 11, 23/2]" by (simp add: on_grid_def)
  from sma_is_window_mean [OF this, of 3] show ?thesis by (simp, code_simp)
qed

end
