(* ===== verification/Ledger_Concurrency.thy ===== *)
theory Ledger_Concurrency
  imports Paper_Trading
begin

text \<open>
  Concurrent placements on one paper account. \<^verbatim>\<open>adapter_session\<close> with \<^verbatim>\<open>persist\<close>
  (\<^verbatim>\<open>app/services/account_service.py\<close>) loads the balances with \<^verbatim>\<open>FOR UPDATE\<close>, runs
  the operation, saves the balances (\<^verbatim>\<open>app/repositories/paper_ledger_repository.py\<close>) and the
  request commits or rolls back (\<^verbatim>\<open>app/database/session.py\<close>). The database server
  is a parameter; what is assumed of it (locale \<open>read_committed\<close>) is that its steps on the account
  are those of \<open>txn_step\<close>, which is what PostgreSQL documents of its default isolation level: a statement sees the rows committed when it starts; a locking read
  waits for the locks of other transactions on these rows and then sees their latest values, but no
  row that was inserted meanwhile; inserting an existing key violates the unique constraint; locks are
  held to the end of the transaction. A locking read takes its locks in the order of the table, a
  flush sends its statements together.
\<close>

section \<open>Transactions\<close>

type_synonym funds = "(string, balance) dict"
type_synonym job = "(paper_ledger, exn, order) action"

datatype txn_phase =
    Begun
  | Selected "string list" funds
  | Loaded funds
  | Looked funds funds
  | Flushed funds
  | Committed
  | Aborted

record account_store =
  as_rows :: funds
  as_locks :: "string \<Rightarrow> nat option"
  as_txns :: "nat \<Rightarrow> txn_phase"

definition set_phase :: "nat \<Rightarrow> txn_phase \<Rightarrow> account_store \<Rightarrow> account_store" where
  "set_phase i p s = s\<lparr>as_txns := (as_txns s)(i := p)\<rparr>"

definition unlocked_for :: "nat \<Rightarrow> string \<Rightarrow> account_store \<Rightarrow> bool" where
  "unlocked_for i k s \<longleftrightarrow> (case as_locks s k of None \<Rightarrow> True | Some j \<Rightarrow> j = i)"

definition unlock_all :: "nat \<Rightarrow> account_store \<Rightarrow> account_store" where
  "unlock_all i s = s\<lparr>as_locks := (\<lambda>k. if as_locks s k = Some i then None else as_locks s k)\<rparr>"

definition initial_funds :: funds where
  "initial_funds = [(''USDT'', \<lparr>bal_asset = ''USDT'', bal_free = 100000, bal_used = 0\<rparr>)]"

text \<open>The balances an operation leaves when it runs on a ledger with the loaded ones.\<close>

definition run_job :: "job \<Rightarrow> funds \<Rightarrow> exn + funds" where
  "run_job act b =
     (case act \<lparr>lg_quote_asset = ''USDT'', lg_starting_balance = 100000, lg_balances = b, lg_orders = []\<rparr> of
        (Inl e, _) \<Rightarrow> Inl e
      | (Inr _, lg) \<Rightarrow> Inr (lg_balances lg))"

text \<open>
  What a save flushes: an insert for every balance with no row, an update for every row whose value
  the save has changed (\<^verbatim>\<open>row.free = bal.free\<close> with the value that is there is no change).
\<close>

definition changed_rows :: "funds \<Rightarrow> funds \<Rightarrow> funds" where
  "changed_rows found b = filter (\<lambda>(k, v). dict_get found k \<noteq> Some v) b"

definition write_rows :: "funds \<Rightarrow> funds \<Rightarrow> funds" where
  "write_rows b rows = fold (\<lambda>(k, v). dict_set k v) b rows"

inductive txn_step :: "(nat \<Rightarrow> job) \<Rightarrow> account_store \<Rightarrow> account_store \<Rightarrow> bool" for jobs where
  select: "as_txns s i = Begun \<Longrightarrow> txn_step jobs s (set_phase i (Selected (map fst (as_rows s)) []) s)"
| lock: "as_txns s i = Selected (k # ks) acc \<Longrightarrow> unlocked_for i k s \<Longrightarrow> dict_get (as_rows s) k = Some v
    \<Longrightarrow> txn_step jobs s (set_phase i (Selected ks (acc @ [(k, v)])) (s\<lparr>as_locks := (as_locks s)(k := Some i)\<rparr>))"
| load: "as_txns s i = Selected [] acc \<Longrightarrow> txn_step jobs s (set_phase i (Loaded (if acc = [] then initial_funds else acc)) s)"
| operate: "as_txns s i = Loaded b \<Longrightarrow> run_job (jobs i) b = Inr b'
    \<Longrightarrow> txn_step jobs s (set_phase i (Looked (as_rows s) b') s)"
| refuse: "as_txns s i = Loaded b \<Longrightarrow> run_job (jobs i) b = Inl e \<Longrightarrow> txn_step jobs s (set_phase i Aborted (unlock_all i s))"
| flush: "as_txns s i = Looked found b \<Longrightarrow> w = changed_rows found b \<Longrightarrow> list_all (\<lambda>k. unlocked_for i k s) (map fst w)
    \<Longrightarrow> list_all (\<lambda>k. dict_get found k \<noteq> None \<or> dict_get (as_rows s) k = None) (map fst w)
    \<Longrightarrow> txn_step jobs s (set_phase i (Flushed w) (s\<lparr>as_locks := (\<lambda>k. if k \<in> set (map fst w) then Some i else as_locks s k)\<rparr>))"
| violate: "as_txns s i = Looked found b \<Longrightarrow> w = changed_rows found b \<Longrightarrow> list_all (\<lambda>k. unlocked_for i k s) (map fst w)
    \<Longrightarrow> \<not> list_all (\<lambda>k. dict_get found k \<noteq> None \<or> dict_get (as_rows s) k = None) (map fst w)
    \<Longrightarrow> txn_step jobs s (set_phase i Aborted (unlock_all i s))"
| commit: "as_txns s i = Flushed w
    \<Longrightarrow> txn_step jobs s (set_phase i Committed (unlock_all i (s\<lparr>as_rows := write_rows w (as_rows s)\<rparr>)))"

definition opened :: "funds \<Rightarrow> account_store" where
  "opened rows = \<lparr>as_rows = rows, as_locks = (\<lambda>_. None), as_txns = (\<lambda>_. Begun)\<rparr>"

text \<open>The specification: the operations one after the other.\<close>

primrec serial :: "(nat \<Rightarrow> job) \<Rightarrow> nat list \<Rightarrow> funds \<Rightarrow> exn + funds" where
  "serial jobs [] rows = Inr rows"
| "serial jobs (i # is) rows = rbind (run_job (jobs i) rows) (serial jobs is)"

lemma serial_append: "serial jobs (is @ js) rows = rbind (serial jobs is rows) (serial jobs js)"
  by (induction "is" arbitrary: rows) (auto simp: rbind_def split: sum.splits)

section \<open>Serialisability\<close>

definition keeps_assets :: "job \<Rightarrow> string list \<Rightarrow> bool" where
  "keeps_assets act ks \<longleftrightarrow> (\<forall>b b'. map fst b = ks \<longrightarrow> run_job act b = Inr b' \<longrightarrow> map fst b' = ks)"

definition holds_all :: "nat \<Rightarrow> string list \<Rightarrow> account_store \<Rightarrow> bool" where
  "holds_all i ks s \<longleftrightarrow> (\<forall>k \<in> set ks. as_locks s k = Some i)"

text \<open>What a transaction knows of the account in each phase.\<close>

fun phase_ok :: "(nat \<Rightarrow> job) \<Rightarrow> string list \<Rightarrow> account_store \<Rightarrow> nat \<Rightarrow> txn_phase \<Rightarrow> bool" where
  "phase_ok jobs ks s i (Selected todo acc) \<longleftrightarrow>
     ks = map fst acc @ todo \<and> holds_all i (map fst acc) s \<and> acc = take (length acc) (as_rows s)"
| "phase_ok jobs ks s i (Loaded b) \<longleftrightarrow> holds_all i ks s \<and> b = as_rows s"
| "phase_ok jobs ks s i (Looked found b) \<longleftrightarrow> holds_all i ks s \<and> found = as_rows s \<and> run_job (jobs i) (as_rows s) = Inr b"
| "phase_ok jobs ks s i (Flushed w) \<longleftrightarrow>
     holds_all i ks s \<and> (\<exists>b. run_job (jobs i) (as_rows s) = Inr b \<and> w = changed_rows (as_rows s) b)"
| "phase_ok jobs ks s i _ \<longleftrightarrow> True"

definition store_ok :: "(nat \<Rightarrow> job) \<Rightarrow> string list \<Rightarrow> account_store \<Rightarrow> bool" where
  "store_ok jobs ks s \<longleftrightarrow> map fst (as_rows s) = ks \<and> (\<forall>i. phase_ok jobs ks s i (as_txns s i))"

definition serialised :: "(nat \<Rightarrow> job) \<Rightarrow> funds \<Rightarrow> account_store \<Rightarrow> bool" where
  "serialised jobs rows s \<longleftrightarrow>
     (\<exists>order. distinct order \<and> set order = {i. as_txns s i = Committed} \<and> serial jobs order rows = Inr (as_rows s))"

lemma write_changed: "distinct (map fst rows) \<Longrightarrow> map fst b = map fst rows \<Longrightarrow> write_rows (changed_rows rows b) rows = b"
proof -
  have gen: "distinct (map fst (d @ rows)) \<Longrightarrow> map fst b = map fst rows \<Longrightarrow> (\<And>k v. (k, v) \<in> set rows \<Longrightarrow> dict_get old k = Some v)
      \<Longrightarrow> write_rows (changed_rows old b) (d @ rows) = d @ b" for d old
  proof (induction b arbitrary: rows d)
    case (Cons p b)
    obtain k v where p: "p = (k, v)" by fastforce
    obtain w rows' where rows: "rows = (k, w) # rows'" using Cons.prems(2) by (cases rows) (auto simp: p)
    have "k \<notin> fst ` set d" using Cons.prems(1) by (auto simp: rows)
    then have set: "dict_set k v (d @ rows) = (d @ [(k, v)]) @ rows'" unfolding rows by (induction d) auto
    have old: "dict_get old k = Some w" using Cons.prems(3) by (simp add: rows)
    have "write_rows (changed_rows old b) ((d @ [(k, v)]) @ rows') = (d @ [(k, v)]) @ b"
      using Cons.prems by (intro Cons.IH) (simp_all add: p rows)
    then show ?case using old set
      by (cases "v = w") (simp_all add: write_rows_def changed_rows_def p rows)
  qed (simp add: write_rows_def changed_rows_def)
  show "distinct (map fst rows) \<Longrightarrow> map fst b = map fst rows \<Longrightarrow> write_rows (changed_rows rows b) rows = b"
    using gen [of "[]" rows] by simp
qed

lemma changed_keys: "set (map fst (changed_rows found b)) \<subseteq> set (map fst b)"
  by (auto simp: changed_rows_def)

lemma store_sel [simp]:
  "as_rows (set_phase i p s) = as_rows s" "as_locks (set_phase i p s) = as_locks s"
  "as_txns (set_phase i p s) = (as_txns s)(i := p)"
  "as_rows (unlock_all i s) = as_rows s" "as_txns (unlock_all i s) = as_txns s"
  by (simp_all add: set_phase_def unlock_all_def)

lemma holds_unlock: "j \<noteq> i \<Longrightarrow> holds_all j ks (unlock_all i s) = holds_all j ks s"
  by (auto simp: holds_all_def unlock_all_def)

text \<open>Phases of other transactions survive changes of locks that are not theirs.\<close>

lemma phase_ok_locks:
  assumes "phase_ok jobs ks s j p" "as_rows s' = as_rows s" "\<And>k. as_locks s k = Some j \<Longrightarrow> as_locks s' k = Some j"
  shows "phase_ok jobs ks s' j p"
  using assms by (cases p) (auto simp: holds_all_def)

lemma phase_ok_idle:
  assumes "phase_ok jobs ks s j p" "ks \<noteq> []" "holds_all i ks s" "j \<noteq> i"
  shows "(case p of Selected todo acc \<Rightarrow> acc = [] \<and> todo = ks | Loaded b \<Rightarrow> False | Looked found b \<Rightarrow> False | Flushed b \<Rightarrow> False | _ \<Rightarrow> True)"
proof -
  have no: "ls = []" if "holds_all j ls s" "set ls \<subseteq> set ks" for ls
    using assms(3,4) that by (cases ls) (auto simp: holds_all_def)
  show ?thesis
  proof (cases p)
    case (Selected todo acc)
    then show ?thesis using assms(1) no [of "map fst acc"] by auto
  qed (use assms(1,2) no [of ks] in auto)
qed

lemma unlocked_cases: "unlocked_for i k s \<Longrightarrow> as_locks s k = None \<or> as_locks s k = Some i"
  by (auto simp: unlocked_for_def split: option.splits)

text \<open>A step of transaction \<open>i\<close> that leaves the rows and the locks of the others alone.\<close>

lemma store_okI:
  assumes "store_ok jobs ks s" "as_rows s' = as_rows s" "as_txns s' = (as_txns s)(i := p)" "phase_ok jobs ks s' i p"
    and "\<And>j k. j \<noteq> i \<Longrightarrow> as_locks s k = Some j \<Longrightarrow> as_locks s' k = Some j"
  shows "store_ok jobs ks s'"
proof -
  have "phase_ok jobs ks s' j (as_txns s' j)" for j
    using assms by (cases "j = i") (auto simp: store_ok_def intro: phase_ok_locks [where s = s])
  then show ?thesis using assms(1,2) by (simp add: store_ok_def)
qed

lemma store_okD: "store_ok jobs ks s \<Longrightarrow> as_txns s i = p \<Longrightarrow> phase_ok jobs ks s i p"
  by (auto simp: store_ok_def)

lemma lock_extends:
  assumes "distinct ks" "map fst rows = ks" "ks = map fst acc @ k # todo" "acc = take (length acc) rows" "dict_get rows k = Some v"
  shows "acc @ [(k, v)] = take (length (acc @ [(k, v)])) rows"
proof -
  have "length rows = length acc + Suc (length todo)" using arg_cong [OF assms(2)[unfolded assms(3)], of length] by simp
  then have len: "length acc < length rows" by simp
  have "fst (rows ! length acc) = k" using assms(2,3) len by (metis length_map nth_append_length nth_map)
  moreover have "rows ! length acc \<in> set rows" using len by simp
  ultimately have "rows ! length acc = (k, v)"
    using assms(1,2,5) by (metis map_of_eq_Some_iff option.inject prod.collapse)
  then show ?thesis using assms(4) len by (simp add: take_Suc_conv_app_nth)
qed

text \<open>The steps that take locks or write, one by one.\<close>

lemma lock_ok:
  assumes "store_ok jobs ks s" "distinct ks" "as_txns s i = Selected (k # todo) acc" "unlocked_for i k s" "dict_get (as_rows s) k = Some v"
  shows "store_ok jobs ks (set_phase i (Selected todo (acc @ [(k, v)])) (s\<lparr>as_locks := (as_locks s)(k := Some i)\<rparr>))" (is "store_ok jobs ks ?s'")
proof (rule store_okI [OF assms(1)])
  note ph = store_okD [OF assms(1,3), unfolded phase_ok.simps]
  have keys: "map fst (as_rows s) = ks" using assms(1) by (simp add: store_ok_def)
  have "acc @ [(k, v)] = take (length (acc @ [(k, v)])) (as_rows ?s')"
    unfolding store_sel account_store.select_convs
    using lock_extends [OF assms(2) keys conjunct1 [OF ph] _ assms(5)] ph by (simp del: take_append length_append)
  moreover have "ks = map fst (acc @ [(k, v)]) @ todo" using ph by simp
  moreover have "holds_all i (map fst (acc @ [(k, v)])) ?s'" using ph by (auto simp: holds_all_def)
  ultimately show "phase_ok jobs ks ?s' i (Selected todo (acc @ [(k, v)]))" unfolding phase_ok.simps by blast
qed (use unlocked_cases [OF assms(4)] in auto)

lemma load_ok:
  assumes "store_ok jobs ks s" "ks \<noteq> []" "as_txns s i = Selected [] acc"
  shows "store_ok jobs ks (set_phase i (Loaded (if acc = [] then initial_funds else acc)) s)"
proof -
  note ph = store_okD [OF assms(1,3), unfolded phase_ok.simps]
  have keys: "map fst (as_rows s) = ks" using assms(1) by (simp add: store_ok_def)
  then have len: "length acc = length (as_rows s)" using ph by (metis append_Nil2 length_map)
  have "acc = take (length acc) (as_rows s)" using ph by blast
  then have all: "acc = as_rows s" unfolding len by simp
  have "as_rows s \<noteq> []" using assms(2) keys by auto
  then show ?thesis using ph all
    by (intro store_okI [OF assms(1), where i = i and p = "Loaded (as_rows s)"]) (simp_all add: holds_all_def keys)
qed

lemma flush_ok:
  assumes "store_ok jobs ks s" "keeps_assets (jobs i) ks" "as_txns s i = Looked found b" "w = changed_rows found b"
  shows "store_ok jobs ks (set_phase i (Flushed w) (s\<lparr>as_locks := (\<lambda>k. if k \<in> set (map fst w) then Some i else as_locks s k)\<rparr>))"
    (is "store_ok jobs ks ?s'")
proof -
  note ph = store_okD [OF assms(1,3)]
  then have "map fst b = ks" using assms(1,2) by (auto simp: keeps_assets_def store_ok_def)
  then have "set (map fst w) \<subseteq> set ks" using changed_keys [of found b] assms(4) by simp
  then have "as_locks ?s' = as_locks s" using ph by (fastforce simp: holds_all_def)
  then show ?thesis using ph assms(4)
    by (intro store_okI [OF assms(1), where i = i and p = "Flushed w"]) (simp_all add: holds_all_def)
qed

lemma flushed_writes:
  assumes "store_ok jobs ks s" "distinct ks" "keeps_assets (jobs i) ks" "as_txns s i = Flushed w"
  obtains b where "run_job (jobs i) (as_rows s) = Inr b" "map fst b = ks" "write_rows w (as_rows s) = b"
proof -
  have keys: "map fst (as_rows s) = ks" using assms(1) by (simp add: store_ok_def)
  obtain b where b: "run_job (jobs i) (as_rows s) = Inr b" "w = changed_rows (as_rows s) b" using store_okD [OF assms(1,4)] by auto
  then have "map fst b = ks" using assms(3) keys by (auto simp: keeps_assets_def)
  then show ?thesis using that b write_changed [of "as_rows s" b] keys assms(2) by simp
qed

lemma commit_ok:
  assumes "store_ok jobs ks s" "ks \<noteq> []" "distinct ks" "keeps_assets (jobs i) ks" "as_txns s i = Flushed w"
  shows "store_ok jobs ks (set_phase i Committed (unlock_all i (s\<lparr>as_rows := write_rows w (as_rows s)\<rparr>)))" (is "store_ok jobs ks ?s'")
proof -
  have holds: "holds_all i ks s" using store_okD [OF assms(1,5)] by simp
  have "phase_ok jobs ks ?s' j (as_txns ?s' j)" for j
  proof (cases "j = i")
    case False
    from phase_ok_idle [OF store_okD [OF assms(1) refl] assms(2) holds False] show ?thesis
      using False by (cases "as_txns s j") (auto simp: holds_all_def)
  qed simp
  moreover obtain b where "map fst b = ks" "write_rows w (as_rows s) = b" using flushed_writes [OF assms(1,3,4,5)] by blast
  ultimately show ?thesis by (simp add: store_ok_def)
qed

lemma step_ok:
  assumes "txn_step jobs s s'" "store_ok jobs ks s" "ks \<noteq> []" "distinct ks" "\<And>i. keeps_assets (jobs i) ks"
  shows "store_ok jobs ks s'"
proof -
  have keys: "map fst (as_rows s) = ks" using assms(2) by (simp add: store_ok_def)
  have ended: "store_ok jobs ks (set_phase i Aborted (unlock_all i s))" for i
    by (rule store_okI [OF assms(2), where i = i and p = Aborted]) (simp_all add: unlock_all_def)
  from assms(1) show ?thesis
  proof cases
    case (select i)
    show ?thesis by (rule store_okI [OF assms(2), where i = i and p = "Selected ks []"]) (simp_all add: select(1) keys holds_all_def)
  next
    case (lock i k todo acc v)
    then show ?thesis using lock_ok [OF assms(2,4)] by simp
  next
    case (load i acc)
    then show ?thesis using load_ok [OF assms(2,3)] by simp
  next
    case (operate i b b')
    note ph = store_okD [OF assms(2) operate(2)]
    show ?thesis by (rule store_okI [OF assms(2), where i = i and p = "Looked (as_rows s) b'"]) (use ph operate(3) keys in \<open>simp_all add: operate(1) holds_all_def\<close>)
  next
    case (flush i found b w)
    then show ?thesis using flush_ok [OF assms(2) assms(5) flush(2,3)] by simp
  next
    case (commit i w)
    then show ?thesis using commit_ok [OF assms(2-4) assms(5) commit(2)] by simp
  qed (use ended in simp_all)
qed

lemma step_serialised:
  assumes "txn_step jobs s s'" "store_ok jobs ks s" "distinct ks" "\<And>i. keeps_assets (jobs i) ks" "serialised jobs rows s"
  shows "serialised jobs rows s'"
proof -
  obtain order where o: "distinct order" "set order = {i. as_txns s i = Committed}" "serial jobs order rows = Inr (as_rows s)"
    using assms(5) by (auto simp: serialised_def)
  from assms(1) show ?thesis
  proof cases
    case (commit i w)
    obtain b where ph: "run_job (jobs i) (as_rows s) = Inr b" and w: "write_rows w (as_rows s) = b"
      by (rule flushed_writes [OF assms(2,3) assms(4) commit(2)])
    have "serial jobs (order @ [i]) rows = Inr b" using o(3) ph by (simp add: serial_append)
    moreover have "distinct (order @ [i])" "set (order @ [i]) = {j. as_txns s' j = Committed}"
      using o(1,2) commit(2) by (auto simp: commit(1))
    moreover have "as_rows s' = b" using w by (simp add: commit(1))
    ultimately show ?thesis unfolding serialised_def by blast
  qed (use o in \<open>auto simp: serialised_def intro!: exI [of _ order]\<close>)
qed

lemma steps_serialised:
  assumes "(txn_step jobs)\<^sup>*\<^sup>* (opened rows) s" "rows \<noteq> []" "distinct (map fst rows)" "\<And>i. keeps_assets (jobs i) (map fst rows)"
  shows "store_ok jobs (map fst rows) s \<and> serialised jobs rows s"
  using assms(1)
proof (induction rule: rtranclp_induct)
  case base
  show ?case by (auto simp: store_ok_def serialised_def opened_def intro!: exI [of _ "[]"])
next
  case (step s s')
  then have ih: "store_ok jobs (map fst rows) s" "serialised jobs rows s" by simp_all
  have "store_ok jobs (map fst rows) s'" by (rule step_ok [OF step.hyps(2) ih(1) _ assms(3,4)]) (use assms(2) in simp)
  moreover have "serialised jobs rows s'" by (rule step_serialised [OF step.hyps(2) ih(1) assms(3,4) ih(2)])
  ultimately show ?case ..
qed

section \<open>Progress\<close>

text \<open>The keys a transaction may hold locks on, and the transactions that are over.\<close>

fun held_keys :: "string list \<Rightarrow> txn_phase \<Rightarrow> string set" where
  "held_keys ks (Selected todo acc) = set (map fst acc)"
| "held_keys ks (Loaded b) = set ks"
| "held_keys ks (Looked found b) = set ks"
| "held_keys ks (Flushed w) = set ks"
| "held_keys ks _ = {}"

definition locks_owned :: "string list \<Rightarrow> account_store \<Rightarrow> bool" where
  "locks_owned ks s \<longleftrightarrow> (\<forall>k j. as_locks s k = Some j \<longrightarrow> k \<in> held_keys ks (as_txns s j))"

definition finished :: "txn_phase \<Rightarrow> bool" where
  "finished p \<longleftrightarrow> p = Committed \<or> p = Aborted"

lemma step_owned:
  assumes "txn_step jobs s s'" "store_ok jobs ks s" "\<And>i. keeps_assets (jobs i) ks" "locks_owned ks s"
  shows "locks_owned ks s'"
  using assms(1)
proof cases
  case (load i acc)
  then show ?thesis using store_okD [OF assms(2) load(2)] assms(4) by (fastforce simp: locks_owned_def)
next
  case (flush i found b w)
  have "map fst b = ks" using store_okD [OF assms(2) flush(2)] assms(2,3) by (auto simp: keeps_assets_def store_ok_def)
  then have "set (map fst w) \<subseteq> set ks" using changed_keys [of found b] flush(3) by simp
  then show ?thesis using assms(4) flush(2) by (fastforce simp: locks_owned_def flush(1) split: if_splits)
qed (use assms(4) in \<open>fastforce simp: locks_owned_def unlock_all_def split: if_splits\<close>)+

lemma waiting_step:
  assumes "store_ok jobs ks s" "distinct ks" "locks_owned ks s" "as_txns s i = Selected (k # todo) acc"
    and "\<And>j todo' acc'. as_txns s j = Selected todo' acc' \<Longrightarrow> length acc' \<le> length acc"
    and "\<And>j. finished (as_txns s j) \<or> (\<exists>k todo acc. as_txns s j = Selected (k # todo) acc)"
  shows "\<exists>s'. txn_step jobs s s'"
proof -
  have ks: "ks = map fst acc @ k # todo" using store_okD [OF assms(1,4)] by simp
  have "unlocked_for i k s"
  proof (rule ccontr)
    assume "\<not> unlocked_for i k s"
    then obtain j where "as_locks s k = Some j" "j \<noteq> i" by (auto simp: unlocked_for_def split: option.splits)
    then have mem: "k \<in> held_keys ks (as_txns s j)" using assms(3) by (simp add: locks_owned_def)
    then obtain k' todo' acc' where j: "as_txns s j = Selected (k' # todo') acc'" using assms(6) [of j] by (auto simp: finished_def)
    have ks': "ks = map fst acc' @ k' # todo'" using store_okD [OF assms(1) j] by simp
    have "map fst acc' = take (length acc') ks" by (simp add: ks')
    also have "\<dots> = take (length acc') (map fst acc)" using assms(5) [OF j] by (simp add: ks)
    finally have "k \<in> set (map fst acc)" using mem j by (metis held_keys.simps(1) in_set_takeD)
    then show False using assms(2) by (auto simp: ks)
  qed
  moreover obtain v where "dict_get (as_rows s) k = Some v"
  proof -
    have "k \<in> set (map fst (as_rows s))" using assms(1) by (simp add: store_ok_def ks)
    then show ?thesis using that by (metis map_of_eq_None_iff not_None_eq set_map)
  qed
  ultimately show ?thesis using txn_step.lock [OF assms(4)] by blast
qed

lemma running_step:
  assumes "store_ok jobs ks s" "\<And>i. keeps_assets (jobs i) ks"
    and "\<not> finished (as_txns s j)" "\<nexists>k todo acc. as_txns s j = Selected (k # todo) acc"
  shows "\<exists>s'. txn_step jobs s s'"
proof (cases "as_txns s j")
  case (Selected todo acc)
  then show ?thesis using assms(4) txn_step.load [of s j acc] by (cases todo) auto
next
  case (Loaded b)
  then show ?thesis by (cases "run_job (jobs j) b") (auto intro: txn_step.operate txn_step.refuse)
next
  case (Looked found b)
  note ph = store_okD [OF assms(1) Looked]
  then have "map fst b = ks" using assms(1,2) by (auto simp: keeps_assets_def store_ok_def)
  then have "set (map fst (changed_rows found b)) \<subseteq> set ks" using changed_keys [of found b] by simp
  moreover have "unlocked_for j k s" if "k \<in> set ks" for k using ph that by (simp add: unlocked_for_def holds_all_def)
  ultimately have "list_all (\<lambda>k. unlocked_for j k s) (map fst (changed_rows found b))" unfolding list_all_iff by blast
  then show ?thesis using txn_step.flush [OF Looked refl] txn_step.violate [OF Looked refl] by blast
qed (use assms(3) in \<open>auto simp: finished_def intro: txn_step.select txn_step.commit\<close>)

lemma not_stuck:
  assumes "store_ok jobs ks s" "distinct ks" "\<And>i. keeps_assets (jobs i) ks" "locks_owned ks s" "\<not> finished (as_txns s i)"
  shows "\<exists>s'. txn_step jobs s s'"
proof (cases "\<exists>j. \<not> finished (as_txns s j) \<and> (\<nexists>k todo acc. as_txns s j = Selected (k # todo) acc)")
  case False
  let ?P = "\<lambda>n. \<exists>j todo acc. as_txns s j = Selected todo acc \<and> length acc = n"
  have bound: "n \<le> length ks" if n: "?P n" for n
  proof -
    obtain j todo acc where "as_txns s j = Selected todo acc" "length acc = n" using n by blast
    then show ?thesis using store_okD [OF assms(1), of j] by auto
  qed
  have "?P (Greatest ?P)" using False assms(5) bound by (intro GreatestI_ex_nat [of ?P "length ks"]) blast+
  then obtain j todo acc where j: "as_txns s j = Selected todo acc" "length acc = Greatest ?P" by blast
  from j(1) have "\<not> finished (as_txns s j)" by (simp add: finished_def)
  with j(1) False obtain k todo' where "todo = k # todo'" by (metis txn_phase.inject(1))
  moreover have "length acc' \<le> length acc" if "as_txns s m = Selected todo' acc'" for m todo' acc'
    unfolding j(2) using that bound by (intro Greatest_le_nat [of ?P _ "length ks"]) blast+
  ultimately show ?thesis using waiting_step [OF assms(1,2,4)] j(1) False by blast
qed (use running_step [OF assms(1,3)] in blast)

lemma steps_owned:
  assumes "(txn_step jobs)\<^sup>*\<^sup>* (opened rows) s" "rows \<noteq> []" "distinct (map fst rows)" "\<And>i. keeps_assets (jobs i) (map fst rows)"
  shows "locks_owned (map fst rows) s"
  using assms(1)
proof (induction rule: rtranclp_induct)
  case (step s s')
  then show ?case using steps_serialised [OF step.hyps(1) assms(2-4)] step_owned [OF step.hyps(2) _ assms(4)] by blast
qed (simp add: locks_owned_def opened_def)

section \<open>Any server\<close>

text \<open>
  What the service relies on of the database server: each of its steps is one of those documented of the
  transactions on the account, and where one of these is possible the server takes a step. \<open>view\<close>
  is what the state of the server holds of the account.
\<close>

locale read_committed =
  fixes server :: "'d \<Rightarrow> 'd \<Rightarrow> bool" and view :: "'d \<Rightarrow> account_store" and jobs :: "nat \<Rightarrow> job"
  assumes documented: "server d d' \<Longrightarrow> txn_step jobs (view d) (view d')"
    and progress: "txn_step jobs (view d) s \<Longrightarrow> \<exists>d'. server d d'"
begin

lemma view_steps: "server\<^sup>*\<^sup>* d d' \<Longrightarrow> (txn_step jobs)\<^sup>*\<^sup>* (view d) (view d')"
  by (induction rule: rtranclp_induct) (auto intro: rtranclp.rtrancl_into_rtrancl documented)

lemma view_serialised:
  assumes "server\<^sup>*\<^sup>* d d'" "view d = opened rows" "rows \<noteq> []" "distinct (map fst rows)" "\<And>i. keeps_assets (jobs i) (map fst rows)"
  shows "serialised jobs rows (view d')"
  using steps_serialised [OF view_steps [OF assms(1), unfolded assms(2)] assms(3-5)] by blast

lemma view_not_stuck:
  assumes "server\<^sup>*\<^sup>* d d'" "view d = opened rows" "rows \<noteq> []" "distinct (map fst rows)" "\<And>i. keeps_assets (jobs i) (map fst rows)"
    and "\<not> finished (as_txns (view d') i)"
  shows "\<exists>d''. server d' d''"
proof -
  note run = view_steps [OF assms(1), unfolded assms(2)]
  show ?thesis
    using not_stuck [OF conjunct1 [OF steps_serialised [OF run assms(3-5)]] assms(4,5) steps_owned [OF run assms(3-5)] assms(6)] progress
    by blast
qed

end

interpretation txn: read_committed "txn_step jobs" "\<lambda>s. s" jobs for jobs
  by unfold_locales blast+

section \<open>Placements\<close>

text \<open>A placement whose assets all have rows neither adds nor reorders rows.\<close>

lemma set_balance_assets: "a \<in> set (map fst (lg_balances lg)) \<Longrightarrow> map fst (lg_balances (set_balance a f u lg)) = map fst (lg_balances lg)"
  by (simp add: set_balance_def AList.update_keys)

definition order_assets :: "paper_adapter \<Rightarrow> order_request \<Rightarrow> string list" where
  "order_assets ad rq = (let (base, quote) = split_symbol (rq_symbol rq) (pa_quote ad) in [base, quote])"

lemma placement_assets:
  assumes "set (order_assets ad rq) \<subseteq> set (map fst (lg_balances lg))"
  shows "map fst (lg_balances (snd (paper_create_order ad fetch hex rq lg))) = map fst (lg_balances lg)"
proof -
  obtain base quote where split: "split_symbol (rq_symbol rq) (pa_quote ad) = (base, quote)" by fastforce
  then have have_rows: "base \<in> set (map fst (lg_balances lg))" "quote \<in> set (map fst (lg_balances lg))"
    using assms by (simp_all add: order_assets_def)
  show ?thesis
    using have_rows split
    by (auto simp: paper_create_order_def rest_order_def fill_order_def reserve_def debit_def credit_def put_order_def
        reservation_def resting_order_def set_balance_def AList.update_keys Let_def split: sum.splits option.splits)
qed

lemma placement_keeps_assets:
  assumes "set (order_assets ad rq) \<subseteq> set ks"
  shows "keeps_assets (paper_create_order ad fetch hex rq) ks"
  unfolding keeps_assets_def
proof (intro allI impI)
  fix b b' assume b: "map fst b = ks" and run: "run_job (paper_create_order ad fetch hex rq) b = Inr b'"
  let ?lg = "\<lparr>lg_quote_asset = ''USDT'', lg_starting_balance = 100000, lg_balances = b, lg_orders = []\<rparr>"
  have "b' = lg_balances (snd (paper_create_order ad fetch hex rq ?lg))"
    using run by (auto simp: run_job_def split: prod.splits sum.splits)
  then show "map fst b' = ks" using placement_assets [of ad rq ?lg fetch hex] assms b by simp
qed

section \<open>A lost update\<close>

text \<open>
  Two market orders buy the same asset, which the account does not hold yet, at the same time. The
  second one waits for the lock on the quote balance, so that it pays from what the first has left;
  but its locking read does not see the row that the first has inserted meanwhile. It starts from
  nothing, and its save finds the row and overwrites it.
\<close>

definition ex_buy :: "nat \<Rightarrow> job" where
  "ex_buy i = paper_create_order ex_adapter (ex_fetch 100) ''00ff'' (ex_request Buy Market 1 None)"

definition quote_only :: "decimal \<Rightarrow> funds" where
  "quote_only usdt = [(''USDT'', \<lparr>bal_asset = ''USDT'', bal_free = usdt, bal_used = 0\<rparr>)]"

definition bought :: "decimal \<Rightarrow> decimal \<Rightarrow> funds" where
  "bought usdt btc = quote_only usdt @ [(''BTC'', \<lparr>bal_asset = ''BTC'', bal_free = btc, bal_used = 0\<rparr>)]"

definition taken :: "nat \<Rightarrow> string list \<Rightarrow> string \<Rightarrow> nat option" where
  "taken i ks = (\<lambda>k. if k \<in> set ks then Some i else None)"

definition two_txns :: "funds \<Rightarrow> (string \<Rightarrow> nat option) \<Rightarrow> txn_phase \<Rightarrow> txn_phase \<Rightarrow> account_store" where
  "two_txns rows locks p q = \<lparr>as_rows = rows, as_locks = locks, as_txns = (\<lambda>i. if i = 0 then p else if i = 1 then q else Begun)\<rparr>"

lemma two_txns_sel [simp]:
  "as_rows (two_txns rows locks p q) = rows" "as_locks (two_txns rows locks p q) = locks"
  "as_txns (two_txns rows locks p q) 0 = p" "as_txns (two_txns rows locks p q) (Suc 0) = q"
  by (simp_all add: two_txns_def)

lemma two_txns_upd [simp]:
  "set_phase 0 p' (two_txns rows locks p q) = two_txns rows locks p' q"
  "set_phase (Suc 0) q' (two_txns rows locks p q) = two_txns rows locks p q'"
  "two_txns rows locks p q\<lparr>as_rows := rows'\<rparr> = two_txns rows' locks p q"
  "two_txns rows locks p q\<lparr>as_locks := locks'\<rparr> = two_txns rows locks' p q"
  "unlock_all i (two_txns rows (taken i ks) p q) = two_txns rows (taken i []) p q"
  by (auto simp: two_txns_def set_phase_def unlock_all_def taken_def fun_eq_iff)

lemma opened_two: "opened rows = two_txns rows (taken i []) Begun Begun"
  by (auto simp: opened_def two_txns_def taken_def fun_eq_iff)

lemma taken_idle: "taken i [] = taken j []"
  by (simp add: taken_def)

lemma buys:
  "run_job (ex_buy i) (quote_only 100000) = Inr (bought (9989996 / 100) 1)"
  "run_job (ex_buy i) (quote_only (9989996 / 100)) = Inr (bought (9979992 / 100) 1)"
  "run_job (ex_buy i) (bought (9989996 / 100) 1) = Inr (bought (9979992 / 100) 2)"
  unfolding ex_buy_def by code_simp+

lemma unlocked_taken [simp]: "unlocked_for i k (two_txns rows (taken i ks) p q)"
  by (simp add: unlocked_for_def taken_def)

lemma taken_upd [simp]: "(taken i ks)(k := Some i) = taken i (k # ks)"
  by (auto simp: taken_def fun_eq_iff)

lemma taken_both: "(\<lambda>k. if k \<in> set (map fst (bought u c)) then Some i else taken i [''USDT''] k) = taken i [''USDT'', ''BTC'']"
  by (auto simp: taken_def bought_def quote_only_def fun_eq_iff)

lemma bought_new: "changed_rows (quote_only h) (bought u c) = (if h = u then [last (bought u c)] else bought u c)"
  by (simp add: changed_rows_def bought_def quote_only_def)

lemma bought_written: "write_rows (bought u c) (quote_only h) = bought u c" "write_rows (quote_only u) (bought h c) = bought u c"
  by (simp_all add: write_rows_def quote_only_def bought_def)

text \<open>The first transaction loads; the second one reads the table before the first commits.\<close>

lemma first_buy_commits:
  "(txn_step ex_buy)\<^sup>*\<^sup>* (opened (quote_only 100000))
     (two_txns (bought (9989996 / 100) 1) (taken 1 []) Committed (Selected [''USDT''] []))"
proof -
  let ?h = "quote_only 100000" and ?b = "bought (9989996 / 100) 1"
  let ?s = "\<lambda>ks p q. two_txns ?h (taken 0 ks) p q" and ?wait = "Selected [''USDT''] []" and ?both = "[''USDT'', ''BTC'']"
  note [trans] = rtranclp.rtrancl_into_rtrancl
  have "(txn_step ex_buy)\<^sup>*\<^sup>* (opened ?h) (?s [] Begun Begun)" by (simp add: opened_two [of _ 0])
  also have "txn_step ex_buy (?s [] Begun Begun) (?s [] ?wait Begun)"
    using txn_step.select [of "?s [] Begun Begun" 0] by (simp add: quote_only_def)
  also have "txn_step ex_buy (?s [] ?wait Begun) (?s [] ?wait ?wait)"
    using txn_step.select [of "?s [] ?wait Begun" 1] by (simp add: quote_only_def)
  also have "txn_step ex_buy (?s [] ?wait ?wait) (?s [''USDT''] (Selected [] ?h) ?wait)"
    using txn_step.lock [of "?s [] ?wait ?wait" 0 "''USDT''" "[]" "[]" "snd (hd ?h)" ex_buy] by (simp add: quote_only_def)
  also have "txn_step ex_buy (?s [''USDT''] (Selected [] ?h) ?wait) (?s [''USDT''] (Loaded ?h) ?wait)"
    using txn_step.load [of "?s [''USDT''] (Selected [] ?h) ?wait" 0 ?h] by (simp add: quote_only_def)
  also have "txn_step ex_buy (?s [''USDT''] (Loaded ?h) ?wait) (?s [''USDT''] (Looked ?h ?b) ?wait)"
    using txn_step.operate [of "?s [''USDT''] (Loaded ?h) ?wait" 0 ?h] buys(1) by simp
  also have "txn_step ex_buy (?s [''USDT''] (Looked ?h ?b) ?wait) (?s ?both (Flushed ?b) ?wait)"
    using txn_step.flush [of "?s [''USDT''] (Looked ?h ?b) ?wait" 0 ?h ?b ?b ex_buy, unfolded two_txns_sel taken_both]
    by (simp add: bought_new) (simp add: bought_def quote_only_def)
  also have "txn_step ex_buy (?s ?both (Flushed ?b) ?wait) (two_txns ?b (taken 0 []) Committed ?wait)"
    using txn_step.commit [of "?s ?both (Flushed ?b) ?wait" 0 ?b] by (simp add: bought_written)
  finally show ?thesis by (simp add: taken_idle [of 0 1])
qed

text \<open>The second one then gets the lock and goes through.\<close>

lemma second_buy_commits:
  "(txn_step ex_buy)\<^sup>*\<^sup>* (two_txns (bought (9989996 / 100) 1) (taken 1 []) Committed (Selected [''USDT''] []))
     (two_txns (bought (9979992 / 100) 1) (taken 1 []) Committed Committed)"
proof -
  let ?r = "bought (9989996 / 100) 1" and ?h = "quote_only (9989996 / 100)" and ?b = "bought (9979992 / 100) 1" and ?w = "quote_only (9979992 / 100)"
  let ?s = "\<lambda>ks q. two_txns ?r (taken 1 ks) Committed q"
  note [trans] = rtranclp.rtrancl_into_rtrancl
  have locks: "(\<lambda>k. if k \<in> set (map fst ?w) then Some 1 else taken 1 [''USDT''] k) = taken 1 [''USDT'']"
    by (auto simp: taken_def quote_only_def fun_eq_iff)
  have "(txn_step ex_buy)\<^sup>*\<^sup>* (?s [] (Selected [''USDT''] [])) (?s [] (Selected [''USDT''] []))" by simp
  also have "txn_step ex_buy (?s [] (Selected [''USDT''] [])) (?s [''USDT''] (Selected [] ?h))"
    using txn_step.lock [of "?s [] (Selected [''USDT''] [])" 1 "''USDT''" "[]" "[]" "snd (hd ?h)" ex_buy] by (simp add: quote_only_def bought_def)
  also have "txn_step ex_buy (?s [''USDT''] (Selected [] ?h)) (?s [''USDT''] (Loaded ?h))"
    using txn_step.load [of "?s [''USDT''] (Selected [] ?h)" 1 ?h] by (simp add: quote_only_def)
  also have "txn_step ex_buy (?s [''USDT''] (Loaded ?h)) (?s [''USDT''] (Looked ?r ?b))"
    using txn_step.operate [of "?s [''USDT''] (Loaded ?h)" 1 ?h] buys(2) by simp
  also have "txn_step ex_buy (?s [''USDT''] (Looked ?r ?b)) (?s [''USDT''] (Flushed ?w))"
    using txn_step.flush [of "?s [''USDT''] (Looked ?r ?b)" 1 ?r ?b ?w ex_buy, unfolded two_txns_sel locks]
    by (simp add: changed_rows_def quote_only_def bought_def)
  also have "txn_step ex_buy (?s [''USDT''] (Flushed ?w)) (two_txns ?b (taken 1 []) Committed Committed)"
    using txn_step.commit [of "?s [''USDT''] (Flushed ?w)" 1 ?w] by (simp add: bought_written)
  finally show ?thesis .
qed

text \<open>Two first purchases of an asset lose one of the two. On an account that holds only the quote
  balance, two concurrent market orders for one unit of the same asset can both commit, both of them
  paid for, and leave one unit of the asset; one after the other, in either order, they leave two.\<close>

theorem concurrent_first_buys_lose_one:
  "(\<exists>s. (txn_step ex_buy)\<^sup>*\<^sup>* (opened (quote_only 100000)) s
      \<and> {i. as_txns s i = Committed} = {0, 1} \<and> as_rows s = bought (9979992 / 100) 1)
   \<and> serial ex_buy [0, 1] (quote_only 100000) = Inr (bought (9979992 / 100) 2)
   \<and> serial ex_buy [1, 0] (quote_only 100000) = Inr (bought (9979992 / 100) 2)"
proof -
  let ?s = "two_txns (bought (9979992 / 100) 1) (taken 1 []) Committed Committed"
  have "(txn_step ex_buy)\<^sup>*\<^sup>* (opened (quote_only 100000)) ?s" using first_buy_commits second_buy_commits by (rule rtranclp_trans)
  moreover have "{i. as_txns ?s i = Committed} = {0, 1}" by (auto simp: two_txns_def)
  ultimately have "\<exists>s. (txn_step ex_buy)\<^sup>*\<^sup>* (opened (quote_only 100000)) s \<and> {i. as_txns s i = Committed} = {0, 1}
      \<and> as_rows s = bought (9979992 / 100) 1" by (intro exI [of _ ?s]) simp
  then show ?thesis by (simp only: serial.simps rbind_simps buys simp_thms)
qed



text \<open>The hypotheses hold of an account that holds both assets and has an order committed.\<close>

lemma third_buy_commits:
  "(txn_step ex_buy)\<^sup>*\<^sup>* (opened (bought (9989996 / 100) 1)) (two_txns (bought (9979992 / 100) 2) (taken 0 []) Committed Begun)"
proof -
  let ?r = "bought (9989996 / 100) 1" and ?b = "bought (9979992 / 100) 2" and ?both = "[''USDT'', ''BTC'']"
  let ?s = "\<lambda>ks p. two_txns ?r (taken 0 ks) p Begun"
  note [trans] = rtranclp.rtrancl_into_rtrancl
  have w: "changed_rows ?r ?b = ?b" "write_rows ?b ?r = ?b" by (simp_all add: changed_rows_def write_rows_def bought_def quote_only_def)
  have locks: "taken 0 [''BTC'', ''USDT''] = taken 0 ?both"
    "(\<lambda>k. if k \<in> set (map fst ?b) then Some 0 else taken 0 ?both k) = taken 0 ?both"
    by (auto simp: taken_def bought_def quote_only_def fun_eq_iff)
  have "(txn_step ex_buy)\<^sup>*\<^sup>* (opened ?r) (?s [] Begun)" by (simp add: opened_two [of _ 0])
  also have "txn_step ex_buy (?s [] Begun) (?s [] (Selected ?both []))"
    using txn_step.select [of "?s [] Begun" 0] by (simp add: quote_only_def bought_def)
  also have "txn_step ex_buy (?s [] (Selected ?both [])) (?s [''USDT''] (Selected [''BTC''] [hd ?r]))"
    using txn_step.lock [of "?s [] (Selected ?both [])" 0 "''USDT''" "[''BTC'']" "[]" "snd (hd ?r)" ex_buy] by (simp add: quote_only_def bought_def)
  also have "txn_step ex_buy (?s [''USDT''] (Selected [''BTC''] [hd ?r])) (?s ?both (Selected [] ?r))"
    using txn_step.lock [of "?s [''USDT''] (Selected [''BTC''] [hd ?r])" 0 "''BTC''" "[]" "[hd ?r]" "snd (last ?r)" ex_buy]
    by (simp add: quote_only_def bought_def locks(1))
  also have "txn_step ex_buy (?s ?both (Selected [] ?r)) (?s ?both (Loaded ?r))"
    using txn_step.load [of "?s ?both (Selected [] ?r)" 0 ?r] by (simp add: bought_def)
  also have "txn_step ex_buy (?s ?both (Loaded ?r)) (?s ?both (Looked ?r ?b))"
    using txn_step.operate [of "?s ?both (Loaded ?r)" 0 ?r] buys(3) by simp
  also have "txn_step ex_buy (?s ?both (Looked ?r ?b)) (?s ?both (Flushed ?b))"
    using txn_step.flush [of "?s ?both (Looked ?r ?b)" 0 ?r ?b ?b ex_buy, unfolded two_txns_sel locks(2)]
    by (simp add: changed_rows_def quote_only_def bought_def)
  also have "txn_step ex_buy (?s ?both (Flushed ?b)) (two_txns ?b (taken 0 []) Committed Begun)"
    using txn_step.commit [of "?s ?both (Flushed ?b)" 0 ?b] w by simp
  finally show ?thesis .
qed



end
