(* ===== verification/Migrations.thy ===== *)
theory Migrations
  imports Prelude
begin

text \<open>
  The schema of the database: the Alembic revisions (\<^verbatim>\<open>alembic/versions\<close>) as lists of the
  commands they issue, the mapped classes (\<^verbatim>\<open>app/models\<close>, \<^verbatim>\<open>app/database/base.py\<close>) with
  their columns, and what these commands do to a database with data in it. The database server, Alembic
  and SQLAlchemy are parameters; what is assumed of them is stated as locales in
  \<open>Migration_Properties\<close>. Of the server it is assumed that a command does to the tables, or is refused,
  as PostgreSQL documents it, which \<open>apply_ddl\<close> writes out: names that exist or do not, references to tables or columns that do not exist,
  dropping what others refer to, a mandatory column without a value for the rows that are there,
  duplicate values under a unique index. A cell is the text of a value, or nothing for a null.
\<close>

section \<open>Tables and commands\<close>

datatype column_type =
  SaString nat | SaBoolean | SaInteger | SaBigInteger | SaNumeric nat nat | SaDateTime bool | SaJSON

datatype server_default = Current_timestamp | Literal string

record column =
  co_name :: string
  co_type :: column_type
  co_nullable :: bool
  co_server_default :: "server_default option"

datatype ondelete = On_cascade | On_set_null

datatype table_constraint =
    PrimaryKeyConstraint "string list"
  | ForeignKeyConstraint "string list" string "string list" ondelete
  | UniqueConstraint "string list" string

record table_index =
  ix_name :: string
  ix_columns :: "string list"
  ix_unique :: bool

datatype ddl =
    Create_table string "column list" "table_constraint list"
  | Drop_table string
  | Create_index string string "string list" bool
  | Drop_index string string
  | Add_column string column
  | Drop_column string string

datatype ddl_error =
    Duplicate_table | Undefined_table | Duplicate_column | Undefined_column | Duplicate_index | Undefined_index
  | Undefined_reference | Dependent_objects | Not_null_violation | Unique_violation

type_synonym cells = "(string, string option) dict"

record db_table =
  tb_columns :: "column list"
  tb_constraints :: "table_constraint list"
  tb_indexes :: "table_index list"
  tb_rows :: "cells list"

type_synonym database = "(string, db_table) dict"

fun constraint_columns :: "table_constraint \<Rightarrow> string list" where
  "constraint_columns (PrimaryKeyConstraint cs) = cs"
| "constraint_columns (ForeignKeyConstraint cs _ _ _) = cs"
| "constraint_columns (UniqueConstraint cs _) = cs"

fun reference_of :: "table_constraint \<Rightarrow> (string \<times> string list) option" where
  "reference_of (ForeignKeyConstraint _ t cs _) = Some (t, cs)"
| "reference_of _ = None"

definition column_names :: "db_table \<Rightarrow> string list" where
  "column_names t = map co_name (tb_columns t)"

definition references :: "db_table \<Rightarrow> (string \<times> string list) list" where
  "references t = List.map_filter reference_of (tb_constraints t)"

text \<open>A reference is good if its columns are the primary key of a table that exists.\<close>

definition reference_ok :: "database \<Rightarrow> string \<times> string list \<Rightarrow> bool" where
  "reference_ok d r = (case dict_get d (fst r) of None \<Rightarrow> False
     | Some t \<Rightarrow> PrimaryKeyConstraint (snd r) \<in> set (tb_constraints t))"

definition index_names :: "database \<Rightarrow> string list" where
  "index_names d = concat (map (\<lambda>(_, t). map ix_name (tb_indexes t)) d)"

definition unique_on :: "string list \<Rightarrow> cells list \<Rightarrow> bool" where
  "unique_on cs rows = distinct (filter (\<lambda>vs. None \<notin> set vs) (map (\<lambda>row. map (\<lambda>c. Option.bind (dict_get row c) id) cs) rows))"

definition on_table :: "string \<Rightarrow> database \<Rightarrow> (db_table \<Rightarrow> ddl_error + db_table) \<Rightarrow> ddl_error + database" where
  "on_table n d f = (case dict_get d n of None \<Rightarrow> Inl Undefined_table
     | Some t \<Rightarrow> rbind (f t) (\<lambda>t'. Inr (dict_set n t' d)))"

definition refers_to :: "string \<Rightarrow> string list \<Rightarrow> database \<Rightarrow> bool" where
  "refers_to n cs d = list_ex (\<lambda>(_, t). list_ex (\<lambda>(m, ds). m = n \<and> set ds \<inter> set cs \<noteq> {}) (references t)) d"

definition add_index :: "database \<Rightarrow> table_index \<Rightarrow> db_table \<Rightarrow> ddl_error + db_table" where
  "add_index d ix t =
     (if ix_name ix \<in> set (index_names d) then Inl Duplicate_index
      else if \<not> set (ix_columns ix) \<subseteq> set (column_names t) then Inl Undefined_column
      else if ix_unique ix \<and> \<not> unique_on (ix_columns ix) (tb_rows t) then Inl Unique_violation
      else Inr (t\<lparr>tb_indexes := tb_indexes t @ [ix]\<rparr>))"

definition remove_index :: "string \<Rightarrow> db_table \<Rightarrow> ddl_error + db_table" where
  "remove_index i t =
     (if i \<notin> set (map ix_name (tb_indexes t)) then Inl Undefined_index
      else Inr (t\<lparr>tb_indexes := filter (\<lambda>ix. ix_name ix \<noteq> i) (tb_indexes t)\<rparr>))"

text \<open>The rows that are there get the default of a new column; \<open>now\<close> is the server's clock.\<close>

fun default_value :: "string \<Rightarrow> server_default \<Rightarrow> string" where
  "default_value now Current_timestamp = now"
| "default_value now (Literal v) = v"

definition add_column :: "string \<Rightarrow> column \<Rightarrow> db_table \<Rightarrow> ddl_error + db_table" where
  "add_column now c t =
     (if co_name c \<in> set (column_names t) then Inl Duplicate_column
      else if tb_rows t \<noteq> [] \<and> \<not> co_nullable c \<and> co_server_default c = None then Inl Not_null_violation
      else Inr (t\<lparr>tb_columns := tb_columns t @ [c], tb_rows := map (\<lambda>row. row @ [(co_name c, map_option (default_value now) (co_server_default c))]) (tb_rows t)\<rparr>))"

text \<open>Dropping a column takes the constraints and indexes of the table with it that use the column.\<close>

definition drop_column :: "string \<Rightarrow> db_table \<Rightarrow> ddl_error + db_table" where
  "drop_column c t =
     (if c \<notin> set (column_names t) then Inl Undefined_column
      else Inr \<lparr>tb_columns = filter (\<lambda>k. co_name k \<noteq> c) (tb_columns t),
                tb_constraints = filter (\<lambda>k. c \<notin> set (constraint_columns k)) (tb_constraints t),
                tb_indexes = filter (\<lambda>ix. c \<notin> set (ix_columns ix)) (tb_indexes t),
                tb_rows = map (dict_pop c) (tb_rows t)\<rparr>)"

fun apply_ddl :: "string \<Rightarrow> ddl \<Rightarrow> database \<Rightarrow> ddl_error + database" where
  "apply_ddl now (Create_table n cs ks) d =
     (let t = \<lparr>tb_columns = cs, tb_constraints = ks, tb_indexes = [], tb_rows = []\<rparr> in
      if n \<in> set (map fst d) then Inl Duplicate_table
      else if \<not> distinct (column_names t) then Inl Duplicate_column
      else if \<not> list_all (\<lambda>k. set (constraint_columns k) \<subseteq> set (column_names t)) ks then Inl Undefined_column
      else if \<not> list_all (reference_ok d) (references t) then Inl Undefined_reference
      else Inr (d @ [(n, t)]))"
| "apply_ddl now (Drop_table n) d =
     (case dict_get d n of None \<Rightarrow> Inl Undefined_table
      | Some _ \<Rightarrow> (let d' = dict_pop n d in
          if list_ex (\<lambda>(_, t). n \<in> set (map fst (references t))) d' then Inl Dependent_objects else Inr d'))"
| "apply_ddl now (Create_index i n cs u) d = on_table n d (add_index d \<lparr>ix_name = i, ix_columns = cs, ix_unique = u\<rparr>)"
| "apply_ddl now (Drop_index i n) d = on_table n d (remove_index i)"
| "apply_ddl now (Add_column n c) d = on_table n d (add_column now c)"
| "apply_ddl now (Drop_column n c) d = (if refers_to n [c] d then Inl Dependent_objects else on_table n d (drop_column c))"

text \<open>A sequence of commands on a server that executes a command by \<open>exec\<close>.\<close>

primrec run_ddl :: "(ddl \<Rightarrow> 'd \<Rightarrow> 'e + 'd) \<Rightarrow> ddl list \<Rightarrow> 'd \<Rightarrow> 'e + 'd" where
  "run_ddl exec [] d = Inr d"
| "run_ddl exec (c # cs) d = rbind (exec c d) (run_ddl exec cs)"

lemma run_ddl_append: "run_ddl exec (cs @ ds) d = rbind (run_ddl exec cs d) (run_ddl exec ds)"
  by (induction cs arbitrary: d) (auto simp: rbind_def split: sum.splits)

section \<open>The revisions\<close>

record revision =
  rv_revision :: string
  rv_down_revision :: "string option"
  rv_upgrade :: "ddl list"
  rv_downgrade :: "ddl list"

definition column_not_null :: "string \<Rightarrow> column_type \<Rightarrow> column" where
  "column_not_null n ty = \<lparr>co_name = n, co_type = ty, co_nullable = False, co_server_default = None\<rparr>"

definition column_null :: "string \<Rightarrow> column_type \<Rightarrow> column" where
  "column_null n ty = \<lparr>co_name = n, co_type = ty, co_nullable = True, co_server_default = None\<rparr>"

definition column_default :: "string \<Rightarrow> column_type \<Rightarrow> server_default \<Rightarrow> column" where
  "column_default n ty v = \<lparr>co_name = n, co_type = ty, co_nullable = False, co_server_default = Some v\<rparr>"

definition create_users :: "ddl list" where
  "create_users =
    [Create_table ''users''
       [column_not_null ''email'' (SaString 320), column_not_null ''password_hash'' (SaString 255),
        column_not_null ''role'' (SaString 20), column_not_null ''is_active'' SaBoolean,
        column_not_null ''totp_enabled'' SaBoolean, column_null ''totp_secret_enc'' (SaString 512),
        column_null ''totp_last_counter'' SaBigInteger, column_not_null ''id'' (SaString 32),
        column_default ''created_at'' (SaDateTime True) Current_timestamp,
        column_default ''updated_at'' (SaDateTime True) Current_timestamp]
       [PrimaryKeyConstraint [''id'']],
     Create_index ''ix_users_email'' ''users'' [''email''] True]"

definition create_alert_rules :: "ddl list" where
  "create_alert_rules =
    [Create_table ''alert_rules''
       [column_not_null ''user_id'' (SaString 32), column_not_null ''metric'' (SaString 32),
        column_null ''symbol'' (SaString 32), column_not_null ''operator'' (SaString 4),
        column_not_null ''threshold'' (SaNumeric 36 18), column_not_null ''is_active'' SaBoolean,
        column_not_null ''triggered'' SaBoolean, column_not_null ''id'' (SaString 32),
        column_default ''created_at'' (SaDateTime True) Current_timestamp,
        column_default ''updated_at'' (SaDateTime True) Current_timestamp]
       [ForeignKeyConstraint [''user_id''] ''users'' [''id''] On_cascade, PrimaryKeyConstraint [''id'']],
     Create_index ''ix_alert_rules_user_id'' ''alert_rules'' [''user_id''] False]"

definition create_audit_logs :: "ddl list" where
  "create_audit_logs =
    [Create_table ''audit_logs''
       [column_null ''user_id'' (SaString 32), column_not_null ''action'' (SaString 64),
        column_null ''ip_address'' (SaString 64), column_not_null ''detail'' SaJSON,
        column_not_null ''id'' (SaString 32), column_default ''created_at'' (SaDateTime True) Current_timestamp,
        column_default ''updated_at'' (SaDateTime True) Current_timestamp]
       [ForeignKeyConstraint [''user_id''] ''users'' [''id''] On_set_null, PrimaryKeyConstraint [''id'']],
     Create_index ''ix_audit_logs_action'' ''audit_logs'' [''action''] False,
     Create_index ''ix_audit_logs_user_id'' ''audit_logs'' [''user_id''] False]"

definition create_exchange_accounts :: "ddl list" where
  "create_exchange_accounts =
    [Create_table ''exchange_accounts''
       [column_not_null ''user_id'' (SaString 32), column_not_null ''exchange_id'' (SaString 32),
        column_not_null ''label'' (SaString 64), column_not_null ''market_type'' (SaString 16),
        column_not_null ''is_paper'' SaBoolean, column_null ''api_key_enc'' (SaString 1024),
        column_null ''api_secret_enc'' (SaString 2048), column_null ''passphrase_enc'' (SaString 1024),
        column_not_null ''is_active'' SaBoolean, column_not_null ''id'' (SaString 32),
        column_default ''created_at'' (SaDateTime True) Current_timestamp,
        column_default ''updated_at'' (SaDateTime True) Current_timestamp]
       [ForeignKeyConstraint [''user_id''] ''users'' [''id''] On_cascade, PrimaryKeyConstraint [''id''],
        UniqueConstraint [''user_id'', ''exchange_id'', ''label''] ''uq_account_label''],
     Create_index ''ix_exchange_accounts_user_id'' ''exchange_accounts'' [''user_id''] False]"

definition create_orders :: "ddl list" where
  "create_orders =
    [Create_table ''orders''
       [column_not_null ''user_id'' (SaString 32), column_not_null ''account_id'' (SaString 32),
        column_null ''exchange_order_id'' (SaString 64), column_null ''client_order_id'' (SaString 64),
        column_not_null ''symbol'' (SaString 32), column_not_null ''side'' (SaString 8),
        column_not_null ''type'' (SaString 16), column_not_null ''status'' (SaString 20),
        column_not_null ''amount'' (SaNumeric 36 18), column_not_null ''filled'' (SaNumeric 36 18),
        column_null ''price'' (SaNumeric 36 18), column_null ''average'' (SaNumeric 36 18),
        column_not_null ''fee'' (SaNumeric 36 18), column_not_null ''is_paper'' SaBoolean,
        column_not_null ''id'' (SaString 32), column_default ''created_at'' (SaDateTime True) Current_timestamp,
        column_default ''updated_at'' (SaDateTime True) Current_timestamp]
       [ForeignKeyConstraint [''account_id''] ''exchange_accounts'' [''id''] On_cascade,
        ForeignKeyConstraint [''user_id''] ''users'' [''id''] On_cascade, PrimaryKeyConstraint [''id'']],
     Create_index ''ix_orders_account_id'' ''orders'' [''account_id''] False,
     Create_index ''ix_orders_exchange_order_id'' ''orders'' [''exchange_order_id''] False,
     Create_index ''ix_orders_status'' ''orders'' [''status''] False,
     Create_index ''ix_orders_symbol'' ''orders'' [''symbol''] False,
     Create_index ''ix_orders_user_id'' ''orders'' [''user_id''] False]"

definition create_paper_balances :: "ddl list" where
  "create_paper_balances =
    [Create_table ''paper_balances''
       [column_not_null ''account_id'' (SaString 32), column_not_null ''asset'' (SaString 32),
        column_not_null ''free'' (SaNumeric 36 18), column_not_null ''used'' (SaNumeric 36 18),
        column_not_null ''id'' (SaString 32), column_default ''created_at'' (SaDateTime True) Current_timestamp,
        column_default ''updated_at'' (SaDateTime True) Current_timestamp]
       [ForeignKeyConstraint [''account_id''] ''exchange_accounts'' [''id''] On_cascade,
        PrimaryKeyConstraint [''id''], UniqueConstraint [''account_id'', ''asset''] ''uq_paper_balance''],
     Create_index ''ix_paper_balances_account_id'' ''paper_balances'' [''account_id''] False]"

definition initial_upgrade :: "ddl list" where
  "initial_upgrade = create_users @ create_alert_rules @ create_audit_logs @ create_exchange_accounts @ create_orders @ create_paper_balances"

definition initial_downgrade :: "ddl list" where
  "initial_downgrade =
      [Drop_index ''ix_paper_balances_account_id'' ''paper_balances'', Drop_table ''paper_balances'',
       Drop_index ''ix_orders_user_id'' ''orders'', Drop_index ''ix_orders_symbol'' ''orders'',
       Drop_index ''ix_orders_status'' ''orders'', Drop_index ''ix_orders_exchange_order_id'' ''orders'',
       Drop_index ''ix_orders_account_id'' ''orders'', Drop_table ''orders'',
       Drop_index ''ix_exchange_accounts_user_id'' ''exchange_accounts'', Drop_table ''exchange_accounts'',
       Drop_index ''ix_audit_logs_user_id'' ''audit_logs'', Drop_index ''ix_audit_logs_action'' ''audit_logs'',
       Drop_table ''audit_logs'', Drop_index ''ix_alert_rules_user_id'' ''alert_rules'', Drop_table ''alert_rules'',
       Drop_index ''ix_users_email'' ''users'', Drop_table ''users'']"

definition initial_schema :: revision where
  "initial_schema = \<lparr>rv_revision = ''789a21f30bb9'', rv_down_revision = None,
     rv_upgrade = initial_upgrade, rv_downgrade = initial_downgrade\<rparr>"

definition add_token_generation :: revision where
  "add_token_generation = \<lparr>rv_revision = ''3b2953903c0a'', rv_down_revision = Some ''789a21f30bb9'',
     rv_upgrade = [Add_column ''users'' (column_default ''token_generation'' SaInteger (Literal ''0''))],
     rv_downgrade = [Drop_column ''users'' ''token_generation'']\<rparr>"

definition revisions :: "revision list" where
  "revisions = [add_token_generation, initial_schema]"

text \<open>
  \<^verbatim>\<open>alembic upgrade head\<close> and \<^verbatim>\<open>alembic downgrade base\<close>: from the version recorded in the
  database, follow the links between the revisions. \<^verbatim>\<open>_do_run_migrations\<close> of
  \<^verbatim>\<open>alembic/env.py\<close> runs the migration that was asked for in one transaction.
\<close>

record 'd migrated =
  mg_version :: "string option"
  mg_tables :: 'd

lemma find_remove1: "find P xs = Some x \<Longrightarrow> length (remove1 x xs) < length xs"
proof -
  assume "find P xs = Some x"
  then have "x \<in> set xs" by (auto simp: find_Some_iff)
  then show ?thesis using length_pos_if_in_set [of x xs] by (simp add: length_remove1)
qed

function upgrade_head :: "(ddl \<Rightarrow> 'd \<Rightarrow> 'e + 'd) \<Rightarrow> revision list \<Rightarrow> 'd migrated \<Rightarrow> 'e + 'd migrated" where
  "upgrade_head exec revs m = (case find (\<lambda>r. rv_down_revision r = mg_version m) revs of
       None \<Rightarrow> Inr m
     | Some r \<Rightarrow> (case run_ddl exec (rv_upgrade r) (mg_tables m) of
         Inl e \<Rightarrow> Inl e
       | Inr d \<Rightarrow> upgrade_head exec (remove1 r revs) \<lparr>mg_version = Some (rv_revision r), mg_tables = d\<rparr>))"
  by pat_completeness auto
termination by (relation "measure (\<lambda>(_, revs, _). length revs)") (auto dest: find_remove1)

function downgrade_base :: "(ddl \<Rightarrow> 'd \<Rightarrow> 'e + 'd) \<Rightarrow> revision list \<Rightarrow> 'd migrated \<Rightarrow> 'e + 'd migrated" where
  "downgrade_base exec revs m = (case find (\<lambda>r. Some (rv_revision r) = mg_version m) revs of
       None \<Rightarrow> Inr m
     | Some r \<Rightarrow> (case run_ddl exec (rv_downgrade r) (mg_tables m) of
         Inl e \<Rightarrow> Inl e
       | Inr d \<Rightarrow> downgrade_base exec (remove1 r revs) \<lparr>mg_version = rv_down_revision r, mg_tables = d\<rparr>))"
  by pat_completeness auto
termination by (relation "measure (\<lambda>(_, revs, _). length revs)") (auto dest: find_remove1)

declare upgrade_head.simps [simp del] downgrade_base.simps [simp del]

definition run_migrations :: "('d migrated \<Rightarrow> 'e + 'd migrated) \<Rightarrow> ('d migrated, 'e, unit) action" where
  "run_migrations migrate m = (case migrate m of Inl e \<Rightarrow> (Inl e, m) | Inr m' \<Rightarrow> (Inr (), m'))"

section \<open>The mapped classes\<close>

record mapped_column =
  mc_name :: string
  mc_type :: column_type
  mc_nullable :: bool
  mc_primary_key :: bool
  mc_index :: bool
  mc_unique :: bool
  mc_foreign_key :: "(string \<times> string \<times> ondelete) option"
  mc_server_default :: "server_default option"

record mapped_class =
  cl_tablename :: string
  cl_columns :: "mapped_column list"
  cl_table_args :: "table_constraint list"

definition mapped :: "string \<Rightarrow> column_type \<Rightarrow> mapped_column" where
  "mapped n ty = \<lparr>mc_name = n, mc_type = ty, mc_nullable = False, mc_primary_key = False, mc_index = False,
     mc_unique = False, mc_foreign_key = None, mc_server_default = None\<rparr>"

definition optional :: "string \<Rightarrow> column_type \<Rightarrow> mapped_column" where
  "optional n ty = (mapped n ty)\<lparr>mc_nullable := True\<rparr>"

definition foreign_key :: "string \<Rightarrow> string \<Rightarrow> string \<Rightarrow> ondelete \<Rightarrow> mapped_column" where
  "foreign_key n t c od = (mapped n (SaString 32))\<lparr>mc_index := True, mc_foreign_key := Some (t, c, od)\<rparr>"

definition uuid_primary_key :: "mapped_column list" where
  "uuid_primary_key = [(mapped ''id'' (SaString 32))\<lparr>mc_primary_key := True\<rparr>]"

definition timestamp_mixin :: "mapped_column list" where
  "timestamp_mixin = [(mapped ''created_at'' (SaDateTime True))\<lparr>mc_server_default := Some Current_timestamp\<rparr>,
     (mapped ''updated_at'' (SaDateTime True))\<lparr>mc_server_default := Some Current_timestamp\<rparr>]"

definition user_class :: mapped_class where
  "user_class = \<lparr>cl_tablename = ''users'',
     cl_columns = [(mapped ''email'' (SaString 320))\<lparr>mc_unique := True, mc_index := True\<rparr>,
       mapped ''password_hash'' (SaString 255), mapped ''role'' (SaString 20), mapped ''is_active'' SaBoolean,
       mapped ''totp_enabled'' SaBoolean, optional ''totp_secret_enc'' (SaString 512),
       optional ''totp_last_counter'' SaBigInteger, mapped ''token_generation'' SaInteger],
     cl_table_args = []\<rparr>"

definition exchange_account_class :: mapped_class where
  "exchange_account_class = \<lparr>cl_tablename = ''exchange_accounts'',
     cl_columns = [foreign_key ''user_id'' ''users'' ''id'' On_cascade, mapped ''exchange_id'' (SaString 32),
       mapped ''label'' (SaString 64), mapped ''market_type'' (SaString 16), mapped ''is_paper'' SaBoolean,
       optional ''api_key_enc'' (SaString 1024), optional ''api_secret_enc'' (SaString 2048),
       optional ''passphrase_enc'' (SaString 1024), mapped ''is_active'' SaBoolean],
     cl_table_args = [UniqueConstraint [''user_id'', ''exchange_id'', ''label''] ''uq_account_label'']\<rparr>"

definition alert_rule_class :: mapped_class where
  "alert_rule_class = \<lparr>cl_tablename = ''alert_rules'',
     cl_columns = [foreign_key ''user_id'' ''users'' ''id'' On_cascade, mapped ''metric'' (SaString 32),
       optional ''symbol'' (SaString 32), mapped ''operator'' (SaString 4), mapped ''threshold'' (SaNumeric 36 18),
       mapped ''is_active'' SaBoolean, mapped ''triggered'' SaBoolean],
     cl_table_args = []\<rparr>"

definition audit_log_class :: mapped_class where
  "audit_log_class = \<lparr>cl_tablename = ''audit_logs'',
     cl_columns = [(foreign_key ''user_id'' ''users'' ''id'' On_set_null)\<lparr>mc_nullable := True\<rparr>,
       (mapped ''action'' (SaString 64))\<lparr>mc_index := True\<rparr>, optional ''ip_address'' (SaString 64), mapped ''detail'' SaJSON],
     cl_table_args = []\<rparr>"

definition order_record_class :: mapped_class where
  "order_record_class = \<lparr>cl_tablename = ''orders'',
     cl_columns = [foreign_key ''user_id'' ''users'' ''id'' On_cascade,
       foreign_key ''account_id'' ''exchange_accounts'' ''id'' On_cascade,
       (optional ''exchange_order_id'' (SaString 64))\<lparr>mc_index := True\<rparr>, optional ''client_order_id'' (SaString 64),
       (mapped ''symbol'' (SaString 32))\<lparr>mc_index := True\<rparr>, mapped ''side'' (SaString 8), mapped ''type'' (SaString 16),
       (mapped ''status'' (SaString 20))\<lparr>mc_index := True\<rparr>, mapped ''amount'' (SaNumeric 36 18),
       mapped ''filled'' (SaNumeric 36 18), optional ''price'' (SaNumeric 36 18), optional ''average'' (SaNumeric 36 18),
       mapped ''fee'' (SaNumeric 36 18), mapped ''is_paper'' SaBoolean],
     cl_table_args = []\<rparr>"

definition paper_balance_class :: mapped_class where
  "paper_balance_class = \<lparr>cl_tablename = ''paper_balances'',
     cl_columns = [foreign_key ''account_id'' ''exchange_accounts'' ''id'' On_cascade, mapped ''asset'' (SaString 32),
       mapped ''free'' (SaNumeric 36 18), mapped ''used'' (SaNumeric 36 18)],
     cl_table_args = [UniqueConstraint [''account_id'', ''asset''] ''uq_paper_balance'']\<rparr>"

definition models :: "mapped_class list" where
  "models = [exchange_account_class, alert_rule_class, audit_log_class, order_record_class, paper_balance_class, user_class]"

text \<open>
  What SQLAlchemy documents of the declarations: the columns of the mixins belong to every class, an
  indexed column \<open>c\<close> of table \<open>t\<close> gets the index \<open>ix_t_c\<close>, unique if the column is.
\<close>

definition class_columns :: "mapped_class \<Rightarrow> mapped_column list" where
  "class_columns k = cl_columns k @ uuid_primary_key @ timestamp_mixin"

definition column_of :: "mapped_column \<Rightarrow> column" where
  "column_of m = \<lparr>co_name = mc_name m, co_type = mc_type m, co_nullable = mc_nullable m, co_server_default = mc_server_default m\<rparr>"

definition class_constraints :: "mapped_class \<Rightarrow> table_constraint list" where
  "class_constraints k =
     PrimaryKeyConstraint (map mc_name (filter mc_primary_key (class_columns k)))
     # List.map_filter (\<lambda>m. map_option (\<lambda>(t, c, od). ForeignKeyConstraint [mc_name m] t [c] od) (mc_foreign_key m)) (class_columns k)
     @ cl_table_args k"

definition class_indexes :: "mapped_class \<Rightarrow> table_index list" where
  "class_indexes k = map (\<lambda>m. \<lparr>ix_name = ''ix_'' @ cl_tablename k @ ''_'' @ mc_name m, ix_columns = [mc_name m], ix_unique = mc_unique m\<rparr>)
     (filter mc_index (class_columns k))"

definition class_ddl :: "mapped_class \<Rightarrow> ddl list" where
  "class_ddl k = Create_table (cl_tablename k) (map column_of (class_columns k)) (class_constraints k)
     # map (\<lambda>ix. Create_index (ix_name ix) (cl_tablename k) (ix_columns ix) (ix_unique ix)) (class_indexes k)"

definition class_targets :: "mapped_class \<Rightarrow> string list" where
  "class_targets k = map fst (List.map_filter mc_foreign_key (class_columns k))"

text \<open>
  \<^verbatim>\<open>create_all\<close> sends the commands that SQLAlchemy emits for the classes on what is in the
  database. It documents that these create the tables that are missing, a table after the tables
  it refers to; the order is otherwise its own.
\<close>

definition create_all :: "(ddl \<Rightarrow> 'd \<Rightarrow> 'e + 'd) \<Rightarrow> (mapped_class list \<Rightarrow> 'd \<Rightarrow> ddl list) \<Rightarrow> 'd \<Rightarrow> 'e + 'd" where
  "create_all exec emits d = run_ddl exec (emits models d) d"

fun creation_order :: "string list \<Rightarrow> mapped_class list \<Rightarrow> bool" where
  "creation_order created [] = True"
| "creation_order created (k # ks) =
     (set (class_targets k) \<subseteq> set created \<union> {cl_tablename k} \<and> creation_order (cl_tablename k # created) ks)"

definition creates :: "database \<Rightarrow> mapped_class list \<Rightarrow> mapped_class list \<Rightarrow> bool" where
  "creates d ks order \<longleftrightarrow> distinct order \<and> set order = set (filter (\<lambda>k. cl_tablename k \<notin> set (map fst d)) ks)
     \<and> creation_order (map fst d) order"

end
