(* ===== verification/Migration_Properties.thy ===== *)
theory Migration_Properties
  imports Migrations
begin

text \<open>
  What the migrations do to a database: commands that undo each other, upgrades of databases with data,
  and the tables that the mapped classes declare. The lemmas are proved for the documented behaviour of
  the commands and carry over to every server, Alembic and SQLAlchemy that keep the contracts
  \<open>ddl_server\<close>, \<open>migration_tool\<close> and \<open>table_creator\<close>.
\<close>

section \<open>Well-formed databases\<close>

definition table_wf :: "database \<Rightarrow> db_table \<Rightarrow> bool" where
  "table_wf d t \<longleftrightarrow> distinct (column_names t)
     \<and> (\<forall>k \<in> set (tb_constraints t). set (constraint_columns k) \<subseteq> set (column_names t))
     \<and> (\<forall>ix \<in> set (tb_indexes t). set (ix_columns ix) \<subseteq> set (column_names t))
     \<and> (\<forall>row \<in> set (tb_rows t). map fst row = column_names t)
     \<and> (\<forall>r \<in> set (references t). reference_ok d r)"

definition db_wf :: "database \<Rightarrow> bool" where
  "db_wf d \<longleftrightarrow> dict_wf d \<and> (\<forall>(n, t) \<in> set d. table_wf d t)"

lemma db_wfD: "db_wf d \<Longrightarrow> dict_get d n = Some t \<Longrightarrow> table_wf d t"
  by (auto simp: db_wf_def dest: map_of_SomeD)

lemma dict_set_mem: "(m, u) \<in> set (dict_set n t d) \<Longrightarrow> (m, u) = (n, t) \<or> (m, u) \<in> set d"
  by (induction d) (auto split: if_splits)

lemma dict_pop_append: "n \<notin> set (map fst d) \<Longrightarrow> dict_pop n (d @ [(n, t)]) = d"
  by (induction d) (auto simp: AList.delete_eq)

lemma reference_ok_set:
  "dict_get d n = Some t \<Longrightarrow> tb_constraints t' = tb_constraints t \<Longrightarrow> reference_ok (dict_set n t' d) r = reference_ok d r"
  by (auto simp: reference_ok_def dict_get_set split: option.splits)

lemma db_wf_set:
  assumes "db_wf d" "dict_get d n = Some t" "tb_constraints t' = tb_constraints t" "table_wf d t'"
  shows "db_wf (dict_set n t' d)"
  using assms by (fastforce simp: db_wf_def table_wf_def reference_ok_set dest!: dict_set_mem)

lemma table_wf_mono: "table_wf d t \<Longrightarrow> (\<And>r. reference_ok d r \<Longrightarrow> reference_ok d' r) \<Longrightarrow> table_wf d' t"
  by (simp add: table_wf_def)

lemma reference_ok_mem: "reference_ok d r \<Longrightarrow> fst r \<in> set (map fst d)"
  by (force simp: reference_ok_def split: option.splits dest: map_of_SomeD)

lemma reference_ok_new: "n \<notin> set (map fst d) \<Longrightarrow> reference_ok d r \<Longrightarrow> reference_ok (d @ [(n, t)]) r"
  by (auto simp: reference_ok_def map_add_def split: option.splits dest: map_of_SomeD)

section \<open>Commands that undo each other\<close>

fun reverts :: "ddl \<Rightarrow> ddl \<Rightarrow> bool" where
  "reverts (Drop_table n) (Create_table m _ _) = (n = m)"
| "reverts (Drop_index i n) (Create_index j m _ _) = (i = j \<and> n = m)"
| "reverts (Drop_column n c) (Add_column m k) = (n = m \<and> c = co_name k)"
| "reverts _ _ = False"

lemma create_reverted:
  assumes "db_wf d" "apply_ddl now (Create_table n cs ks) d = Inr d'"
  shows "db_wf d' \<and> apply_ddl later (Drop_table n) d' = Inr d"
proof -
  let ?t = "\<lparr>tb_columns = cs, tb_constraints = ks, tb_indexes = [], tb_rows = []\<rparr>"
  have new: "n \<notin> set (map fst d)" and d': "d' = d @ [(n, ?t)]" and t: "table_wf d ?t"
    using assms(2) by (auto simp: Let_def table_wf_def list_all_iff split: if_splits)
  have "table_wf d' u" if "(m, u) \<in> set d'" for m u
  proof (rule table_wf_mono [of d])
    show "table_wf d u" using that assms(1) t by (auto simp: d' db_wf_def)
  qed (simp add: d' reference_ok_new [OF new])
  then have wf: "db_wf d'" using assms(1) new by (auto simp: db_wf_def dict_wf_def d')
  have "n \<notin> set (map fst (references u))" if "(m, u) \<in> set d" for m u
    using that assms(1) new by (fastforce simp: db_wf_def table_wf_def dest: reference_ok_mem)
  then have "\<not> list_ex (\<lambda>(_, u). n \<in> set (map fst (references u))) d" unfolding list_ex_iff by blast
  moreover have "dict_get d' n = Some ?t" using new by (force simp: d' map_add_def split: option.splits dest: map_of_SomeD)
  ultimately show ?thesis using wf dict_pop_append [OF new, of ?t] by (simp add: d' Let_def)
qed

lemma index_reverted:
  assumes "db_wf d" "apply_ddl now (Create_index i n cs u) d = Inr d'"
  shows "db_wf d' \<and> apply_ddl later (Drop_index i n) d' = Inr d"
proof -
  obtain t where t: "dict_get d n = Some t" and new: "i \<notin> set (index_names d)" and cols: "set cs \<subseteq> set (column_names t)"
    and d': "d' = dict_set n (t\<lparr>tb_indexes := tb_indexes t @ [\<lparr>ix_name = i, ix_columns = cs, ix_unique = u\<rparr>]\<rparr>) d"
    using assms(2) by (auto simp: on_table_def add_index_def rbind_Inr_iff split: option.splits if_splits)
  have fresh: "i \<notin> ix_name ` set (tb_indexes t)" using new map_of_SomeD [OF t] by (force simp: index_names_def)
  have "db_wf d'" unfolding d' using db_wfD [OF assms(1) t] cols
    by (intro db_wf_set [OF assms(1) t]) (auto simp: table_wf_def column_names_def references_def)
  moreover have "filter (\<lambda>ix. ix_name ix \<noteq> i) (tb_indexes t) = tb_indexes t" using fresh by (auto simp: filter_id_conv)
  ultimately show ?thesis by (simp add: d' on_table_def remove_index_def dict_simps dict_set_same [OF t])
qed

lemma column_reverted:
  assumes "db_wf d" "apply_ddl now (Add_column n c) d = Inr d'"
  shows "db_wf d' \<and> apply_ddl later (Drop_column n (co_name c)) d' = Inr d"
proof -
  let ?v = "map_option (default_value now) (co_server_default c)"
  obtain t where t: "dict_get d n = Some t" and new: "co_name c \<notin> set (column_names t)"
    and d': "d' = dict_set n (t\<lparr>tb_columns := tb_columns t @ [c], tb_rows := map (\<lambda>row. row @ [(co_name c, ?v)]) (tb_rows t)\<rparr>) d"
    using assms(2) by (auto simp: on_table_def add_column_def rbind_Inr_iff split: option.splits if_splits)
  note wf = db_wfD [OF assms(1) t]
  have wf': "db_wf d'" unfolding d' using wf new
    by (intro db_wf_set [OF assms(1) t]) (auto simp: table_wf_def column_names_def references_def)
  have "set ds \<subseteq> set (column_names t)" if "(m, u) \<in> set d'" "(n, ds) \<in> set (references u)" for m u ds
  proof -
    have "reference_ok d (n, ds)" using dict_set_mem [OF that(1)[unfolded d']] that(2) assms(1) wf
      by (auto simp: db_wf_def table_wf_def references_def)
    then have "PrimaryKeyConstraint ds \<in> set (tb_constraints t)" by (simp add: reference_ok_def t)
    then show ?thesis using wf by (force simp: table_wf_def)
  qed
  then have unref: "\<not> refers_to n [co_name c] d'" using new by (fastforce simp: refers_to_def list_ex_iff)
  have "filter (\<lambda>k. co_name k \<noteq> co_name c) (tb_columns t) = tb_columns t" using new by (simp add: filter_id_conv column_names_def image_iff) metis
  moreover have "filter (\<lambda>k. co_name c \<notin> set (constraint_columns k)) (tb_constraints t) = tb_constraints t"
    "filter (\<lambda>ix. co_name c \<notin> set (ix_columns ix)) (tb_indexes t) = tb_indexes t"
    using wf new by (auto simp: filter_id_conv table_wf_def)
  moreover have "map (dict_pop (co_name c) \<circ> (\<lambda>row. row @ [(co_name c, ?v)])) (tb_rows t) = tb_rows t"
    using wf new by (auto simp: table_wf_def intro!: map_idI dict_pop_append)
  ultimately have "drop_column (co_name c) (t\<lparr>tb_columns := tb_columns t @ [c], tb_rows := map (\<lambda>row. row @ [(co_name c, ?v)]) (tb_rows t)\<rparr>) = Inr t"
    by (simp add: drop_column_def column_names_def)
  then show ?thesis using wf' unref by (simp add: d' on_table_def dict_simps dict_set_same [OF t])
qed

lemmas ddl_reverted = create_reverted index_reverted column_reverted

lemma apply_reverted: "db_wf d \<Longrightarrow> apply_ddl now c d = Inr d' \<Longrightarrow> reverts b c \<Longrightarrow> db_wf d' \<and> apply_ddl later b d' = Inr d"
proof (induction b c rule: reverts.induct)
  case (1 n m cs ks)
  then show ?case using create_reverted by (simp del: apply_ddl.simps)
next
  case (2 i n j m cs u)
  then show ?case using index_reverted by (simp del: apply_ddl.simps)
next
  case (3 n c m k)
  then show ?case using column_reverted by (simp del: apply_ddl.simps)
qed (simp_all del: apply_ddl.simps)

lemma run_reverted:
  "db_wf d \<Longrightarrow> run_ddl (apply_ddl now) cs d = Inr d' \<Longrightarrow> list_all2 reverts bs (rev cs) \<Longrightarrow> db_wf d' \<and> run_ddl (apply_ddl later) bs d' = Inr d"
proof (induction cs arbitrary: d bs)
  case (Cons c cs)
  obtain e where e: "apply_ddl now c d = Inr e" "run_ddl (apply_ddl now) cs e = Inr d'" using Cons.prems(2) by (auto simp: rbind_Inr_iff)
  obtain bs' b where bs: "bs = bs' @ [b]" "list_all2 reverts bs' (rev cs)" "reverts b c"
    using Cons.prems(3) by (auto simp: list_all2_append2 list_all2_Cons2)
  note undone = apply_reverted [OF Cons.prems(1) e(1) bs(3), of later]
  show ?case using undone Cons.IH [OF _ e(2) bs(2)] by (simp add: bs(1) run_ddl_append)
qed simp

lemmas create_tables = create_users_def create_alert_rules_def create_audit_logs_def create_exchange_accounts_def
  create_orders_def create_paper_balances_def

lemma initial_reverts: "list_all2 reverts (rv_downgrade initial_schema) (rev (rv_upgrade initial_schema))"
  by (simp add: initial_schema_def initial_upgrade_def initial_downgrade_def create_tables)

lemma token_generation_reverts: "list_all2 reverts (rv_downgrade add_token_generation) (rev (rv_upgrade add_token_generation))"
  by (simp add: add_token_generation_def column_default_def)

section \<open>Upgrades with data\<close>

definition erase_rows :: "database \<Rightarrow> database" where
  "erase_rows d = map (\<lambda>(n, t). (n, t\<lparr>tb_rows := []\<rparr>)) d"

definition initial_tables :: database where
  "initial_tables = (case run_ddl (apply_ddl []) initial_upgrade [] of Inl _ \<Rightarrow> [] | Inr d \<Rightarrow> d)"

definition same_table :: "db_table \<Rightarrow> db_table \<Rightarrow> bool" where
  "same_table t u \<longleftrightarrow> set (tb_columns t) = set (tb_columns u) \<and> set (tb_constraints t) = set (tb_constraints u)
     \<and> set (tb_indexes t) = set (tb_indexes u) \<and> tb_rows t = tb_rows u"

definition same_schema :: "database \<Rightarrow> database \<Rightarrow> bool" where
  "same_schema d e \<longleftrightarrow> set (map fst d) = set (map fst e)
     \<and> list_all (\<lambda>(n, t). case dict_get e n of None \<Rightarrow> False | Some u \<Rightarrow> same_table t u) d"

definition set_default :: "string \<Rightarrow> string \<Rightarrow> server_default \<Rightarrow> database \<Rightarrow> database" where
  "set_default n c v d = map (\<lambda>(m, t). (m, t\<lparr>tb_columns :=
     map (\<lambda>k. if m = n \<and> co_name k = c then k\<lparr>co_server_default := Some v\<rparr> else k) (tb_columns t)\<rparr>)) d"

text \<open>A database at the first revision with one user in it.\<close>

definition with_user :: "database \<Rightarrow> database" where
  "with_user d = map (\<lambda>(n, t). (n, if n = ''users'' then t\<lparr>tb_rows := [map (\<lambda>c. (co_name c, Some ''x'')) (tb_columns t)]\<rparr> else t)) d"

lemma initial_facts:
  "(\<lambda>d. (case dict_get d ''users'' of None \<Rightarrow> False | Some t \<Rightarrow> ''token_generation'' \<notin> set (column_names t))
      \<and> (\<lambda>e. db_wf e \<and> erase_rows e = d) (with_user d)) initial_tables"
  by code_simp

lemma erase_rows_get: "dict_get (erase_rows d) n = map_option (\<lambda>t. t\<lparr>tb_rows := []\<rparr>) (dict_get d n)"
  by (induction d) (auto simp: erase_rows_def)

lemma revision_links:
  "upgrade_head (apply_ddl now) revisions \<lparr>mg_version = None, mg_tables = d\<rparr> =
     rbind (run_ddl (apply_ddl now) (rv_upgrade initial_schema) d) (\<lambda>e. upgrade_head (apply_ddl now) [add_token_generation] \<lparr>mg_version = Some ''789a21f30bb9'', mg_tables = e\<rparr>)"
  "upgrade_head (apply_ddl now) (add_token_generation # rs) \<lparr>mg_version = Some ''789a21f30bb9'', mg_tables = d\<rparr> =
     rbind (run_ddl (apply_ddl now) (rv_upgrade add_token_generation) d) (\<lambda>e. upgrade_head (apply_ddl now) rs \<lparr>mg_version = Some ''3b2953903c0a'', mg_tables = e\<rparr>)"
  "upgrade_head (apply_ddl now) [] m' = Inr m'"
  "upgrade_head (apply_ddl now) [initial_schema] \<lparr>mg_version = Some ''3b2953903c0a'', mg_tables = d\<rparr> = Inr \<lparr>mg_version = Some ''3b2953903c0a'', mg_tables = d\<rparr>"
  "downgrade_base (apply_ddl now) revisions \<lparr>mg_version = Some ''3b2953903c0a'', mg_tables = d\<rparr> =
     rbind (run_ddl (apply_ddl now) (rv_downgrade add_token_generation) d) (\<lambda>e.
       rbind (run_ddl (apply_ddl now) (rv_downgrade initial_schema) e) (\<lambda>f. Inr \<lparr>mg_version = None, mg_tables = f\<rparr>))"
  by (subst upgrade_head.simps downgrade_base.simps,
      simp add: revisions_def initial_schema_def add_token_generation_def rbind_def
        upgrade_head.simps downgrade_base.simps split: sum.splits)+

lemma revisions_revert:
  assumes "db_wf d" "upgrade_head (apply_ddl now) revisions \<lparr>mg_version = None, mg_tables = d\<rparr> = Inr m"
  shows "mg_version m = Some ''3b2953903c0a'' \<and> downgrade_base (apply_ddl later) revisions m = Inr \<lparr>mg_version = None, mg_tables = d\<rparr>"
proof -
  obtain e f where e: "run_ddl (apply_ddl now) (rv_upgrade initial_schema) d = Inr e" and f: "run_ddl (apply_ddl now) (rv_upgrade add_token_generation) e = Inr f"
    and m: "m = \<lparr>mg_version = Some ''3b2953903c0a'', mg_tables = f\<rparr>"
    using assms(2) by (auto simp: revision_links rbind_Inr_iff)
  note first = run_reverted [OF assms(1) e initial_reverts, of later]
  note second = run_reverted [OF conjunct1 [OF first] f token_generation_reverts, of later]
  show ?thesis using first second by (simp add: m revision_links)
qed

lemma head_upgrade_keeps:
  assumes "db_wf d" "erase_rows d = initial_tables"
  shows "\<exists>d'. upgrade_head (apply_ddl now) revisions \<lparr>mg_version = Some ''789a21f30bb9'', mg_tables = d\<rparr> = Inr \<lparr>mg_version = Some ''3b2953903c0a'', mg_tables = d'\<rparr>
    \<and> map fst d' = map fst d
    \<and> (\<forall>n. map_option tb_rows (dict_get d' n) = map_option (\<lambda>t. if n = ''users''
         then map (\<lambda>row. row @ [(''token_generation'', Some ''0'')]) (tb_rows t) else tb_rows t) (dict_get d n))"
proof -
  obtain t where t: "dict_get d ''users'' = Some t" using initial_facts by (auto simp: assms(2)[symmetric] erase_rows_get split: option.splits)
  have "''token_generation'' \<notin> set (column_names (t\<lparr>tb_rows := []\<rparr>))"
    using initial_facts by (simp add: assms(2)[symmetric] erase_rows_get t)
  then have new: "''token_generation'' \<notin> set (column_names t)" by (simp add: column_names_def)
  have keys: "map fst (dict_set ''users'' u d) = map fst d" for u using map_of_SomeD [OF t] by (force simp: AList.update_keys)
  obtain t' where run: "run_ddl (apply_ddl now) (rv_upgrade add_token_generation) d = Inr (dict_set ''users'' t' d)"
    and rows: "tb_rows t' = map (\<lambda>row. row @ [(''token_generation'', Some ''0'')]) (tb_rows t)"
    using new by (simp add: add_token_generation_def on_table_def t add_column_def column_default_def)
  have "upgrade_head (apply_ddl now) revisions \<lparr>mg_version = Some ''789a21f30bb9'', mg_tables = d\<rparr>
      = Inr \<lparr>mg_version = Some ''3b2953903c0a'', mg_tables = dict_set ''users'' t' d\<rparr>"
    using run by (simp add: revisions_def revision_links)
  then show ?thesis using keys rows by (auto simp: dict_get_set t)
qed

section \<open>Creating the tables of the models\<close>

definition class_table :: "mapped_class \<Rightarrow> db_table" where
  "class_table k = \<lparr>tb_columns = map column_of (class_columns k), tb_constraints = class_constraints k,
     tb_indexes = class_indexes k, tb_rows = []\<rparr>"

definition class_tables :: "mapped_class list \<Rightarrow> database" where
  "class_tables ks = map (\<lambda>k. (cl_tablename k, class_table k)) ks"

text \<open>What the declarations of one class have to satisfy, and those of two.\<close>

definition class_ok :: "mapped_class \<Rightarrow> bool" where
  "class_ok k \<longleftrightarrow> distinct (column_names (class_table k))
     \<and> list_all (\<lambda>c. set (constraint_columns c) \<subseteq> set (column_names (class_table k))) (class_constraints k)
     \<and> list_all (\<lambda>(t, cs). t \<in> set (class_targets k) \<and> t \<noteq> cl_tablename k \<and> cs = [''id'']) (references (class_table k))
     \<and> PrimaryKeyConstraint [''id''] \<in> set (class_constraints k)
     \<and> distinct (map ix_name (class_indexes k))
     \<and> list_all (\<lambda>ix. set (ix_columns ix) \<subseteq> set (column_names (class_table k))) (class_indexes k)"

definition class_apart :: "mapped_class \<Rightarrow> mapped_class \<Rightarrow> bool" where
  "class_apart k l \<longleftrightarrow> cl_tablename k \<noteq> cl_tablename l
     \<and> list_all (\<lambda>ix. ix_name ix \<notin> set (map ix_name (class_indexes l))) (class_indexes k)"

lemma models_ok: "list_all (\<lambda>k. class_ok k \<and> list_all (\<lambda>l. cl_tablename l = cl_tablename k \<or> class_apart k l) models) models"
  by code_simp

lemma models_names: "distinct (map cl_tablename models)"
  by code_simp

lemma models_apart: "k \<in> set models \<Longrightarrow> l \<in> set models \<Longrightarrow> k \<noteq> l \<Longrightarrow> class_apart k l"
  using models_ok models_names by (auto simp: list_all_iff distinct_map dest: inj_onD)

lemma dict_get_append_new: "n \<notin> set (map fst d) \<Longrightarrow> dict_get (d @ [(n, t)]) n = Some t"
  by (induction d) auto

lemma dict_set_append_new: "n \<notin> set (map fst d) \<Longrightarrow> dict_set n u (d @ [(n, t)]) = d @ [(n, u)]"
  by (induction d) auto

lemma index_names_append: "index_names (d @ [(n, t)]) = index_names d @ map ix_name (tb_indexes t)"
  by (simp add: index_names_def)

lemma add_indexes:
  assumes "n \<notin> set (map fst d)" "tb_rows t = []" "list_all (\<lambda>ix. set (ix_columns ix) \<subseteq> set (column_names t)) ixs"
    and "distinct (map ix_name (tb_indexes t @ ixs))" "set (map ix_name ixs) \<inter> set (index_names d) = {}"
  shows "run_ddl (apply_ddl now) (map (\<lambda>ix. Create_index (ix_name ix) n (ix_columns ix) (ix_unique ix)) ixs) (d @ [(n, t)])
    = Inr (d @ [(n, t\<lparr>tb_indexes := tb_indexes t @ ixs\<rparr>)])"
  using assms(2-)
proof (induction ixs arbitrary: t)
  case (Cons ix ixs)
  let ?t = "t\<lparr>tb_indexes := tb_indexes t @ [ix]\<rparr>"
  have "apply_ddl now (Create_index (ix_name ix) n (ix_columns ix) (ix_unique ix)) (d @ [(n, t)]) = Inr (d @ [(n, ?t)])"
    using Cons.prems dict_get_append_new [OF assms(1), of t] dict_set_append_new [OF assms(1), of _ t]
    by (simp add: on_table_def add_index_def index_names_append unique_on_def del: map_of_append)
  moreover have "run_ddl (apply_ddl now) (map (\<lambda>ix. Create_index (ix_name ix) n (ix_columns ix) (ix_unique ix)) ixs) (d @ [(n, ?t)])
      = Inr (d @ [(n, ?t\<lparr>tb_indexes := tb_indexes ?t @ ixs\<rparr>)])"
    using Cons.prems by (intro Cons.IH) (auto simp: column_names_def)
  ultimately show ?case by (simp del: apply_ddl.simps)
qed simp

lemma create_class:
  assumes "class_ok k" "cl_tablename k \<notin> set (map fst d)" "list_all (reference_ok d) (references (class_table k))"
    and "set (map ix_name (class_indexes k)) \<inter> set (index_names d) = {}"
  shows "run_ddl (apply_ddl now) (class_ddl k) d = Inr (d @ [(cl_tablename k, class_table k)])"
proof -
  let ?t = "(class_table k)\<lparr>tb_indexes := []\<rparr>"
  have "apply_ddl now (Create_table (cl_tablename k) (map column_of (class_columns k)) (class_constraints k)) d = Inr (d @ [(cl_tablename k, ?t)])"
    using assms(1-3) by (simp add: class_ok_def class_table_def column_names_def references_def Let_def)
  moreover have "run_ddl (apply_ddl now) (map (\<lambda>ix. Create_index (ix_name ix) (cl_tablename k) (ix_columns ix) (ix_unique ix)) (class_indexes k))
      (d @ [(cl_tablename k, ?t)]) = Inr (d @ [(cl_tablename k, ?t\<lparr>tb_indexes := tb_indexes ?t @ class_indexes k\<rparr>)])"
    using assms by (intro add_indexes) (simp_all add: class_ok_def class_table_def column_names_def)
  ultimately show ?thesis by (simp add: class_ddl_def class_table_def del: apply_ddl.simps)
qed

lemma class_tables_facts:
  "map fst (class_tables ks) = map cl_tablename ks"
  "set (index_names (class_tables ks)) = (\<Union>k \<in> set ks. set (map ix_name (class_indexes k)))"
  "class_tables (ks @ [k]) = class_tables ks @ [(cl_tablename k, class_table k)]"
  by (auto simp: class_tables_def index_names_def class_table_def)

text \<open>Whatever the order, if it respects the references, the tables are those of the classes.\<close>

lemma create_classes:
  assumes "set (done @ order) \<subseteq> set models" "distinct (done @ order)" "creation_order (map cl_tablename (rev done)) order"
  shows "run_ddl (apply_ddl now) (concat (map class_ddl order)) (class_tables done) = Inr (class_tables (done @ order))"
  using assms
proof (induction order arbitrary: "done")
  case (Cons k order)
  have k: "class_ok k" using Cons.prems(1) models_ok by (simp add: list_all_iff)
  have apart: "class_apart k l" if "l \<in> set done" for l using Cons.prems(1,2) that by (intro models_apart) auto
  have "reference_ok (class_tables done) r" if r: "r \<in> set (references (class_table k))" for r
  proof -
    have "fst r \<in> set (class_targets k) \<and> fst r \<noteq> cl_tablename k \<and> snd r = [''id'']"
      using r k by (auto simp: class_ok_def list_all_iff)
    then have "fst r \<in> cl_tablename ` set done" "snd r = [''id'']" using Cons.prems(3) by auto
    then obtain l where l: "l \<in> set done" "fst r = cl_tablename l" by blast
    have "distinct (map cl_tablename done)"
      using Cons.prems(1,2) models_names by (auto simp: distinct_map intro: inj_on_subset)
    then have "dict_get (class_tables done) (fst r) = Some (class_table l)"
      using l by (simp add: class_tables_def map_of_eq_Some_iff comp_def)
    moreover have "class_ok l" using l(1) Cons.prems(1) models_ok by (auto simp: list_all_iff)
    ultimately show ?thesis using \<open>snd r = _\<close> by (simp add: reference_ok_def class_ok_def class_table_def)
  qed
  moreover have "set (map ix_name (class_indexes k)) \<inter> set (index_names (class_tables done)) = {}"
    using apart by (force simp: class_tables_facts class_apart_def list_all_iff)
  moreover have "cl_tablename k \<notin> set (map fst (class_tables done))"
    using apart by (auto simp: class_tables_facts class_apart_def)
  ultimately have "run_ddl (apply_ddl now) (class_ddl k) (class_tables done) = Inr (class_tables (done @ [k]))"
    using create_class [OF k] by (simp add: class_tables_facts(3) list_all_iff)
  then show ?case using Cons.IH [of "done @ [k]"] Cons.prems by (simp add: run_ddl_append)
qed simp

lemma create_order_irrelevant:
  assumes "creates [] models order"
  shows "run_ddl (apply_ddl now) (concat (map class_ddl order)) [] = Inr (class_tables order)"
    and "dict_get (class_tables order) = dict_get (class_tables models)" "set (map fst (class_tables order)) = set (map fst (class_tables models))"
proof -
  have order: "distinct order" "set order = set models" "creation_order [] order" using assms by (simp_all add: creates_def)
  show "run_ddl (apply_ddl now) (concat (map class_ddl order)) [] = Inr (class_tables order)"
    using create_classes [of "[]" order] order by (simp add: class_tables_def)
  have "distinct (map cl_tablename order)" using order models_names by (simp add: distinct_map)
  then show "dict_get (class_tables order) = dict_get (class_tables models)"
    using models_names order(2) by (subst map_of_inject_set) (auto simp: class_tables_def comp_def)
qed (use assms in \<open>auto simp: class_tables_facts creates_def\<close>)

lemma head_schema:
  "(case upgrade_head (apply_ddl now) revisions \<lparr>mg_version = None, mg_tables = []\<rparr> of Inl _ \<Rightarrow> False | Inr m \<Rightarrow>
      same_schema (mg_tables m) (set_default ''users'' ''token_generation'' (Literal ''0'') (class_tables models)))"
  by code_simp

lemma models_creatable: "creates [] models [user_class, exchange_account_class, alert_rule_class, audit_log_class, order_record_class, paper_balance_class]"
  unfolding creates_def by code_simp

lemma same_schema_cong:
  "dict_get d = dict_get e \<Longrightarrow> set (map fst d) = set (map fst e) \<Longrightarrow> same_schema t (set_default n c v d) = same_schema t (set_default n c v e)"
proof -
  have get: "dict_get (set_default n c v x) m = map_option (\<lambda>t. t\<lparr>tb_columns :=
     map (\<lambda>k. if m = n \<and> co_name k = c then k\<lparr>co_server_default := Some v\<rparr> else k) (tb_columns t)\<rparr>) (dict_get x m)" for m x
    by (induction x) (auto simp: set_default_def)
  have keys: "map fst (set_default n c v x) = map fst x" for x by (induction x) (auto simp: set_default_def)
  assume "dict_get d = dict_get e" "set (map fst d) = set (map fst e)"
  then show ?thesis unfolding same_schema_def get keys by simp
qed

section \<open>Any server, Alembic and SQLAlchemy\<close>

fun outcome :: "('d \<Rightarrow> 'v) \<Rightarrow> 'e + 'd \<Rightarrow> 'v option" where
  "outcome f (Inl _) = None"
| "outcome f (Inr d) = Some (f d)"

lemma outcome_Some: "outcome f r = Some v \<longleftrightarrow> (\<exists>d. r = Inr d \<and> f d = v)"
  by (cases r) auto

lemma outcome_rbind:
  "outcome f r = outcome g r' \<Longrightarrow> (\<And>d d'. f d = g d' \<Longrightarrow> outcome h (k d) = outcome h' (k' d')) \<Longrightarrow> outcome h (rbind r k) = outcome h' (rbind r' k')"
  by (cases r; cases r') auto

definition migrated_view :: "('d \<Rightarrow> database) \<Rightarrow> 'd migrated \<Rightarrow> database migrated" where
  "migrated_view view m = \<lparr>mg_version = mg_version m, mg_tables = view (mg_tables m)\<rparr>"

lemma migrated_view_mk: "migrated_view view \<lparr>mg_version = v, mg_tables = d\<rparr> = \<lparr>mg_version = v, mg_tables = view d\<rparr>"
  by (simp add: migrated_view_def)

lemma migrated_view_eq: "migrated_view view m = \<lparr>mg_version = v, mg_tables = d'\<rparr> \<longleftrightarrow> (\<exists>d. m = \<lparr>mg_version = v, mg_tables = d\<rparr> \<and> view d = d')"
  by (cases m) (auto simp: migrated_view_def)

lemma migrated_view_version: "mg_version (migrated_view view m) = mg_version m"
  by (simp add: migrated_view_def)

text \<open>The server: a command changes the tables, or is refused, as documented.\<close>

locale ddl_server =
  fixes exec :: "string \<Rightarrow> ddl \<Rightarrow> 'd \<Rightarrow> 'e + 'd" and view :: "'d \<Rightarrow> database"
  assumes command: "outcome view (exec now c d) = outcome (\<lambda>x. x) (apply_ddl now c (view d))"
begin

lemma run_outcome: "outcome view (run_ddl (exec now) cs d) = outcome (\<lambda>x. x) (run_ddl (apply_ddl now) cs (view d))"
proof (induction cs arbitrary: d)
  case (Cons c cs)
  show ?case by (simp del: apply_ddl.simps) (rule outcome_rbind [OF command], simp add: Cons.IH)
qed simp

end

text \<open>Alembic: it follows the links between the revisions.\<close>

locale migration_tool = ddl_server exec view for exec :: "string \<Rightarrow> ddl \<Rightarrow> 'd \<Rightarrow> 'e + 'd" and view :: "'d \<Rightarrow> database" +
  fixes upgrade downgrade :: "string \<Rightarrow> revision list \<Rightarrow> 'd migrated \<Rightarrow> 'e + 'd migrated"
  assumes upgrades: "upgrade now revs m = upgrade_head (exec now) revs m"
    and downgrades: "downgrade now revs m = downgrade_base (exec now) revs m"
begin

lemma step_outcome:
  assumes "\<And>d. outcome (migrated_view view) (f d) = outcome (\<lambda>x. x) (g (view d))"
  shows "outcome (migrated_view view) (case run_ddl (exec now) cs d of Inl e \<Rightarrow> Inl e | Inr d' \<Rightarrow> f d')
    = outcome (\<lambda>x. x) (case run_ddl (apply_ddl now) cs (view d) of Inl e \<Rightarrow> Inl e | Inr d' \<Rightarrow> g d')"
  using run_outcome [of now cs d] assms by (auto split: sum.splits)

lemma upgrade_outcome: "outcome (migrated_view view) (upgrade now revs m) = outcome (\<lambda>x. x) (upgrade_head (apply_ddl now) revs (migrated_view view m))"
  unfolding upgrades
proof (induction revs arbitrary: m rule: measure_induct_rule [of length])
  case (less revs)
  show ?case
  proof (cases "find (\<lambda>r. rv_down_revision r = mg_version m) revs")
    case (Some r)
    show ?thesis
      by (subst (1 2) upgrade_head.simps)
        (simp add: Some migrated_view_def [of view m], rule step_outcome, simp add: less find_remove1 [OF Some] migrated_view_def)
  qed (simp add: upgrade_head.simps migrated_view_def)
qed

lemma downgrade_outcome: "outcome (migrated_view view) (downgrade now revs m) = outcome (\<lambda>x. x) (downgrade_base (apply_ddl now) revs (migrated_view view m))"
  unfolding downgrades
proof (induction revs arbitrary: m rule: measure_induct_rule [of length])
  case (less revs)
  show ?case
  proof (cases "find (\<lambda>r. Some (rv_revision r) = mg_version m) revs")
    case (Some r)
    show ?thesis
      by (subst (1 2) downgrade_base.simps)
        (simp add: Some migrated_view_def [of view m], rule step_outcome, simp add: less find_remove1 [OF Some] migrated_view_def)
  qed (simp add: downgrade_base.simps migrated_view_def)
qed

lemma upgraded: "upgrade now revs m = Inr m' \<Longrightarrow> upgrade_head (apply_ddl now) revs (migrated_view view m) = Inr (migrated_view view m')"
  using upgrade_outcome [of now revs m] by (auto simp: outcome_Some dest: sym)

lemma upgrade_view: "upgrade_head (apply_ddl now) revs (migrated_view view m) = Inr x \<Longrightarrow> \<exists>m'. upgrade now revs m = Inr m' \<and> migrated_view view m' = x"
  using upgrade_outcome [of now revs m] by (simp add: outcome_Some)

lemma downgrade_view: "downgrade_base (apply_ddl now) revs (migrated_view view m) = Inr x \<Longrightarrow> \<exists>m'. downgrade now revs m = Inr m' \<and> migrated_view view m' = x"
  using downgrade_outcome [of now revs m] by (simp add: outcome_Some)

end

text \<open>SQLAlchemy: it creates the missing tables, a table after those it refers to.\<close>

locale table_creator = ddl_server exec view for exec :: "string \<Rightarrow> ddl \<Rightarrow> 'd \<Rightarrow> 'e + 'd" and view :: "'d \<Rightarrow> database" +
  fixes emits :: "mapped_class list \<Rightarrow> 'd \<Rightarrow> ddl list"
  assumes emitted: "creates (view d) ks order \<Longrightarrow> \<exists>order'. creates (view d) ks order' \<and> emits ks d = concat (map class_ddl order')"
begin

lemma create_all_empty:
  assumes "view d = []"
  shows "\<exists>d' order. create_all (exec now) emits d = Inr d' \<and> creates [] models order \<and> view d' = class_tables order"
proof -
  obtain order where "creates [] models order" "emits models d = concat (map class_ddl order)"
    using emitted [of d, unfolded assms, OF models_creatable] by blast
  then show ?thesis using run_outcome [of now "emits models d" d] create_order_irrelevant(1) [of order now]
    by (auto simp: create_all_def assms outcome_Some)
qed

lemma create_all_present:
  assumes "set (map cl_tablename models) \<subseteq> set (map fst (view d))"
  shows "create_all (exec now) emits d = Inr d"
proof -
  have "filter (\<lambda>k. cl_tablename k \<notin> set (map fst (view d))) models = []" using assms by (auto simp: filter_empty_conv)
  then have none: "creates (view d) models order \<longleftrightarrow> order = []" for order by (auto simp: creates_def)
  then show ?thesis using emitted [of d models "[]"] by (simp add: create_all_def)
qed

end

text \<open>Servers and tools that do literally what is documented satisfy the contracts; the tables are sorted
  by taking the first class all of whose references are there.\<close>

function sort_tables :: "string list \<Rightarrow> mapped_class list \<Rightarrow> mapped_class list" where
  "sort_tables created ks = (case find (\<lambda>k. set (class_targets k) \<subseteq> set created \<union> {cl_tablename k}) ks of
       None \<Rightarrow> ks
     | Some k \<Rightarrow> k # sort_tables (cl_tablename k # created) (remove1 k ks))"
  by pat_completeness auto
termination by (relation "measure (length \<circ> snd)") (auto dest: find_remove1)

declare sort_tables.simps [simp del]

definition missing_tables :: "mapped_class list \<Rightarrow> database \<Rightarrow> ddl list" where
  "missing_tables ks d = concat (map class_ddl (sort_tables (map fst d) (remdups (filter (\<lambda>k. cl_tablename k \<notin> set (map fst d)) ks))))"

lemma creation_order_mono: "creation_order a ks \<Longrightarrow> set a \<subseteq> set b \<Longrightarrow> creation_order b ks"
proof (induction ks arbitrary: a b)
  case (Cons k ks)
  then show ?case using Cons.IH [of "cl_tablename k # a" "cl_tablename k # b"] by auto
qed simp

lemma creation_order_remove: "creation_order a ks \<Longrightarrow> creation_order (cl_tablename k # a) (remove1 k ks)"
proof (induction ks arbitrary: a)
  case (Cons l ks)
  then show ?case
    using creation_order_mono [OF Cons.IH [of "cl_tablename l # a"], of "cl_tablename l # cl_tablename k # a"] by auto
qed simp

lemma sort_tables_sorts:
  "creation_order created order \<Longrightarrow> distinct order \<Longrightarrow> distinct ks \<Longrightarrow> set order = set ks
   \<Longrightarrow> distinct (sort_tables created ks) \<and> set (sort_tables created ks) = set ks \<and> creation_order created (sort_tables created ks)"
proof (induction created ks arbitrary: order rule: sort_tables.induct)
  case (1 created ks)
  show ?case
  proof (cases order)
    case Nil
    then show ?thesis using "1.prems" by (simp add: sort_tables.simps)
  next
    case (Cons l order')
    then have "find (\<lambda>k. set (class_targets k) \<subseteq> set created \<union> {cl_tablename k}) ks \<noteq> None"
      using "1.prems" by (auto simp: find_None_iff)
    then obtain k where k: "find (\<lambda>k. set (class_targets k) \<subseteq> set created \<union> {cl_tablename k}) ks = Some k" by blast
    then have "k \<in> set ks" "set (class_targets k) \<subseteq> set created \<union> {cl_tablename k}" by (auto simp: find_Some_iff)
    moreover have "distinct (sort_tables (cl_tablename k # created) (remove1 k ks))
        \<and> set (sort_tables (cl_tablename k # created) (remove1 k ks)) = set (remove1 k ks)
        \<and> creation_order (cl_tablename k # created) (sort_tables (cl_tablename k # created) (remove1 k ks))"
      using "1.prems" by (intro "1.IH" [OF k, of "remove1 k order"]) (simp_all add: creation_order_remove)
    moreover have "sort_tables created ks = k # sort_tables (cl_tablename k # created) (remove1 k ks)"
      by (subst sort_tables.simps) (simp only: k option.case)
    ultimately show ?thesis using "1.prems"(3) by (auto simp: set_remove1_eq)
  qed
qed

interpretation postgres: migration_tool apply_ddl "\<lambda>d. d" "\<lambda>now. upgrade_head (apply_ddl now)" "\<lambda>now. downgrade_base (apply_ddl now)"
  by unfold_locales simp_all

interpretation postgres: table_creator apply_ddl "\<lambda>d. d" missing_tables
proof
  fix d ks order
  assume "creates d ks order"
  then show "\<exists>order'. creates d ks order' \<and> missing_tables ks d = concat (map class_ddl order')"
    unfolding creates_def missing_tables_def
    using sort_tables_sorts [of "map fst d" order "remdups (filter (\<lambda>k. cl_tablename k \<notin> set (map fst d)) ks)"] by auto
qed

section \<open>The properties\<close>

text \<open>C12: the migrations undo each other. On any server and with any migration tool that keep their
  contracts, whatever well-formed database an upgrade to the newest revision starts from, with whatever
  data in its tables, if it succeeds the database is at that revision, and the downgrade to the base
  succeeds and restores every table, index and row.\<close>

theorem migrations_revert:
  assumes "migration_tool exec view upgrade downgrade" "db_wf (view d)"
    and "upgrade now revisions \<lparr>mg_version = None, mg_tables = d\<rparr> = Inr m"
  shows "mg_version m = Some ''3b2953903c0a''
    \<and> (\<exists>d'. downgrade later revisions m = Inr \<lparr>mg_version = None, mg_tables = d'\<rparr> \<and> view d' = view d)"
proof -
  note up = migration_tool.upgraded [OF assms(1,3), unfolded migrated_view_mk]
  note undone = revisions_revert [OF assms(2) up, of later]
  show ?thesis using migration_tool.downgrade_view [OF assms(1) conjunct2 [OF undone]] conjunct1 [OF undone]
    by (auto simp: migrated_view_eq migrated_view_version)
qed

theorem migrations_revert_witness:
  "(case upgrade_head (apply_ddl []) revisions \<lparr>mg_version = None, mg_tables = []\<rparr> of Inl _ \<Rightarrow> False
    | Inr m \<Rightarrow> downgrade_base (apply_ddl []) revisions m = Inr \<lparr>mg_version = None, mg_tables = []\<rparr>)"
proof -
  have "is_ok (upgrade_head (apply_ddl []) revisions \<lparr>mg_version = None, mg_tables = []\<rparr>)"
    using head_schema [where now = "[]"] by (auto simp: is_ok_iff split: sum.splits)
  moreover have "db_wf []" by (simp add: db_wf_def)
  ultimately show ?thesis
    using migrations_revert [OF postgres.migration_tool_axioms, of "[]" "[]"] by (auto simp: is_ok_iff split: sum.splits)
qed
text \<open>C26: the upgrade keeps the data. On a database at the first revision, with any rows in its tables, the
  migration to the newest revision commits; it leaves the rows of all tables alone but for the new column
  of the users, which holds 0 in every row that was there.\<close>

theorem upgrade_keeps_data:
  assumes "migration_tool exec view upgrade downgrade" "db_wf (view d)" "erase_rows (view d) = initial_tables"
  shows "\<exists>d'. run_migrations (upgrade now revisions) \<lparr>mg_version = Some ''789a21f30bb9'', mg_tables = d\<rparr>
      = (Inr (), \<lparr>mg_version = Some ''3b2953903c0a'', mg_tables = d'\<rparr>)
    \<and> map fst (view d') = map fst (view d)
    \<and> (\<forall>n. map_option tb_rows (dict_get (view d') n) = map_option (\<lambda>t. if n = ''users''
         then map (\<lambda>row. row @ [(''token_generation'', Some ''0'')]) (tb_rows t) else tb_rows t) (dict_get (view d) n))"
proof -
  obtain e where e: "upgrade_head (apply_ddl now) revisions (migrated_view view \<lparr>mg_version = Some ''789a21f30bb9'', mg_tables = d\<rparr>)
      = Inr \<lparr>mg_version = Some ''3b2953903c0a'', mg_tables = e\<rparr>"
    and kept: "map fst e = map fst (view d)"
      "\<forall>n. map_option tb_rows (dict_get e n) = map_option (\<lambda>t. if n = ''users''
         then map (\<lambda>row. row @ [(''token_generation'', Some ''0'')]) (tb_rows t) else tb_rows t) (dict_get (view d) n)"
    using head_upgrade_keeps [OF assms(2,3), of now] unfolding migrated_view_mk by blast
  obtain d' where "upgrade now revisions \<lparr>mg_version = Some ''789a21f30bb9'', mg_tables = d\<rparr> = Inr \<lparr>mg_version = Some ''3b2953903c0a'', mg_tables = d'\<rparr>"
    "view d' = e" using migration_tool.upgrade_view [OF assms(1) e] by (auto simp: migrated_view_eq)
  then show ?thesis using kept by (intro exI [of _ d']) (simp add: run_migrations_def)
qed

theorem upgrade_keeps_data_witness:
  "\<exists>d'. run_migrations (upgrade_head (apply_ddl []) revisions) \<lparr>mg_version = Some ''789a21f30bb9'', mg_tables = with_user initial_tables\<rparr>
     = (Inr (), \<lparr>mg_version = Some ''3b2953903c0a'', mg_tables = d'\<rparr>)"
proof -
  have "db_wf (with_user initial_tables)" "erase_rows (with_user initial_tables) = initial_tables" using initial_facts by simp_all
  from upgrade_keeps_data [OF postgres.migration_tool_axioms this, of "[]"] show ?thesis by blast
qed

text \<open>C11: the migrations build the schema of the models. On an empty database the upgrade to the newest
  revision and \<^verbatim>\<open>create_all\<close> of the mapped classes both succeed and give the same tables: the same
  columns with the same types, nullability and defaults, keys, references with their deletion rules,
  unique constraints and indexes, in whatever order SQLAlchemy creates the tables. They differ in the
  order of the columns of the users and in one default, which backfills \<^verbatim>\<open>token_generation\<close>. On the
  migrated database \<^verbatim>\<open>create_all\<close> changes nothing.\<close>

theorem migrations_match_models:
  assumes "migration_tool exec view upgrade downgrade" "table_creator exec view emits" "view d = []"
  shows "\<exists>m e. upgrade now revisions \<lparr>mg_version = None, mg_tables = d\<rparr> = Inr m \<and> create_all (exec later) emits d = Inr e
     \<and> same_schema (view (mg_tables m)) (set_default ''users'' ''token_generation'' (Literal ''0'') (view e))
     \<and> create_all (exec later) emits (mg_tables m) = Inr (mg_tables m)"
proof -
  obtain x where x: "upgrade_head (apply_ddl now) revisions (migrated_view view \<lparr>mg_version = None, mg_tables = d\<rparr>) = Inr x"
    and agree: "same_schema (mg_tables x) (set_default ''users'' ''token_generation'' (Literal ''0'') (class_tables models))"
    using head_schema [where now = now] by (auto simp: migrated_view_mk assms(3) split: sum.splits)
  obtain m where m: "upgrade now revisions \<lparr>mg_version = None, mg_tables = d\<rparr> = Inr m" "mg_tables x = view (mg_tables m)"
    using migration_tool.upgrade_view [OF assms(1) x] by (auto simp: migrated_view_def)
  obtain e order where e: "create_all (exec later) emits d = Inr e" "creates [] models order" "view e = class_tables order"
    using table_creator.create_all_empty [OF assms(2,3)] by blast
  have "same_schema (view (mg_tables m)) (set_default ''users'' ''token_generation'' (Literal ''0'') (view e))"
    using agree same_schema_cong [OF create_order_irrelevant(2,3) [OF e(2)]] by (simp add: m(2) e(3))
  moreover have "set (map cl_tablename models) \<subseteq> set (map fst (view (mg_tables m)))"
    using agree by (simp add: same_schema_def m(2) set_default_def class_tables_def image_image case_prod_unfold)
  ultimately show ?thesis using m(1) e(1) table_creator.create_all_present [OF assms(2)] by blast
qed

theorem migrations_match_models_witness:
  "\<exists>m e. upgrade_head (apply_ddl []) revisions \<lparr>mg_version = None, mg_tables = []\<rparr> = Inr m \<and> create_all (apply_ddl []) missing_tables [] = Inr e
     \<and> same_schema (mg_tables m) (set_default ''users'' ''token_generation'' (Literal ''0'') e)"
  using migrations_match_models [OF postgres.migration_tool_axioms postgres.table_creator_axioms refl, of "[]" "[]"] by blast

end
