(* ===== verification/Column_Bounds.thy ===== *)
theory Column_Bounds
  imports Migrations Api Trading_Properties
begin

text \<open>
  Stored texts against the columns that hold them: the widths come from the schema the migrations
  build, the texts from what the request schemas (\<^verbatim>\<open>app/schemas\<close>) admit and the services write.
  PostgreSQL refuses a text that is longer than its column.
\<close>

section \<open>Widths\<close>

definition head_tables :: database where
  "head_tables = (case upgrade_head (apply_ddl []) revisions \<lparr>mg_version = None, mg_tables = []\<rparr> of Inl _ \<Rightarrow> [] | Inr m \<Rightarrow> mg_tables m)"

fun text_width :: "column_type \<Rightarrow> nat option" where
  "text_width (SaString w) = Some w"
| "text_width _ = None"

definition width_in :: "database \<Rightarrow> string \<Rightarrow> string \<Rightarrow> nat option" where
  "width_in d n c = Option.bind (dict_get d n) (\<lambda>t.
     Option.bind (find (\<lambda>k. co_name k = c) (tb_columns t)) (\<lambda>k. text_width (co_type k)))"

definition fits :: "string \<Rightarrow> string \<Rightarrow> string \<Rightarrow> bool" where
  "fits n c v = (case width_in head_tables n c of None \<Rightarrow> False | Some w \<Rightarrow> length v \<le> w)"

definition fits_opt :: "string \<Rightarrow> string \<Rightarrow> string option \<Rightarrow> bool" where
  "fits_opt n c v = (case v of None \<Rightarrow> True | Some s \<Rightarrow> fits n c s)"

definition order_fits :: "order_row \<Rightarrow> bool" where
  "order_fits r \<longleftrightarrow> fits ''orders'' ''id'' (or_id r) \<and> fits ''orders'' ''user_id'' (or_user_id r)
     \<and> fits ''orders'' ''account_id'' (or_account_id r) \<and> fits_opt ''orders'' ''exchange_order_id'' (or_exchange_order_id r)
     \<and> fits_opt ''orders'' ''client_order_id'' (or_client_order_id r) \<and> fits ''orders'' ''symbol'' (or_symbol r)
     \<and> fits ''orders'' ''side'' (or_side r) \<and> fits ''orders'' ''type'' (or_type r) \<and> fits ''orders'' ''status'' (or_status r)"

definition account_fits :: "account_row \<Rightarrow> bool" where
  "account_fits a \<longleftrightarrow> fits ''exchange_accounts'' ''id'' (ac_id a) \<and> fits ''exchange_accounts'' ''user_id'' (ac_user_id a)
     \<and> fits ''exchange_accounts'' ''exchange_id'' (ac_exchange_id a) \<and> fits ''exchange_accounts'' ''label'' (ac_label a)
     \<and> fits ''exchange_accounts'' ''market_type'' (ac_market_type a)
     \<and> fits_opt ''exchange_accounts'' ''api_key_enc'' (ac_api_key_enc a)
     \<and> fits_opt ''exchange_accounts'' ''api_secret_enc'' (ac_api_secret_enc a)
     \<and> fits_opt ''exchange_accounts'' ''passphrase_enc'' (ac_passphrase_enc a)"

lemma widths:
  "(\<lambda>d. map (width_in d ''orders'') [''id'', ''user_id'', ''account_id'', ''exchange_order_id'', ''client_order_id'', ''symbol'',
      ''side'', ''type'', ''status''] = [Some 32, Some 32, Some 32, Some 64, Some 64, Some 32, Some 8, Some 16, Some 20]
     \<and> map (width_in d ''exchange_accounts'') [''id'', ''user_id'', ''exchange_id'', ''label'', ''market_type'', ''api_key_enc'',
      ''api_secret_enc'', ''passphrase_enc''] = [Some 32, Some 32, Some 32, Some 64, Some 16, Some 1024, Some 2048, Some 1024]) head_tables"
  by code_simp

lemmas row_fits = order_fits_def account_fits_def fits_def fits_opt_def widths [simplified]

section \<open>Orders\<close>

lemma symbol_lengths: "symbol_ok s \<Longrightarrow> length s \<le> 62"
  by (auto simp: symbol_ok_iff symbol_part_def length_between_def)

lemma value_lengths: "length (side_value s) \<le> 8" "length (type_value t) \<le> 16" "length (status_value st) \<le> 20"
  by (cases s; simp) (cases t; simp; fail | cases st; simp)+

lemma created_order_texts:
  assumes "paper_create_order ad fetch hex rq lg = (Inr ord, lg')"
  shows "o_symbol ord = rq_symbol rq \<and> o_client_order_id ord = rq_client_order_id rq \<and> o_id ord = new_order_id hex"
  by (cases rule: create_order_cases [where fetch = fetch and rq = rq and ad = ad and hex = hex and lg = lg])
    (use assms in \<open>auto simp: Let_def resting_order_def filled_order_def\<close>)

text \<open>What a placed order stores. The row of an order placed on a paper account fits its columns
  exactly if its symbol has at most 32 characters; the schema of the request admits symbols of up to
  62 characters, and no more.\<close>

theorem placed_order_fits_iff:
  assumes "order_create_errors p = []"
    and "place_order ap limits inp u aid (order_request_of p) (s, bs, x) = (Inr r, (s', net'))"
    and "account_get_for_user aid u (ss_work s) = Some a" and "is_paper_effective ap a"
    and "load_ledger aid (ss_work s) = Inr lg"
    and "length (pi_row_id inp) \<le> 32" "length u \<le> 32" "length aid \<le> 32"
  shows "(order_fits r \<longleftrightarrow> length (oc_symbol p) \<le> 32) \<and> length (oc_symbol p) \<le> 62"
proof -
  obtain t ord lg' e where c: "paper_create_order (new_paper_adapter e ''USDT'' default_fee) (\<lambda>_. Inr t) (pi_order_hex inp)
      (the_request inp (order_request_of p)) lg = (Inr ord, lg')"
    and r: "r = persist_row (pi_row_id inp) (pi_now inp) u a ord"
    using place_order_paper [OF assms(2-5)] by metis
  have "ac_id a = aid" using assms(3) by (auto simp: account_get_for_user_def dest!: find_SomeD)
  moreover have "symbol_ok (oc_symbol p)" using assms(1) by (simp add: order_create_errors_def Let_def split: if_splits)
  ultimately show ?thesis
    using created_order_texts [OF c] assms(6-8) value_lengths symbol_lengths
    by (simp add: r row_fits persist_row_def the_request_def order_request_of_def new_order_id_def new_client_order_id_def min_def)
qed

text \<open>A symbol of 62 characters that the request schema accepts.\<close>

definition long_symbol :: string where
  "long_symbol = replicate 20 CHR ''A'' @ ''/'' @ replicate 20 CHR ''B'' @ '':'' @ replicate 20 CHR ''C''"

definition ex_payload :: "string \<Rightarrow> order_create" where
  "ex_payload symbol = \<lparr>oc_account_id = ''a1'', oc_symbol = symbol, oc_side = Buy, oc_type = Limit, oc_amount = 2, oc_price = Some 90,
     oc_stop_price = None, oc_time_in_force = GTC, oc_reduce_only = False, oc_post_only = False, oc_leverage = None\<rparr>"

lemma long_symbol_accepted: "order_create_errors (ex_payload long_symbol) = []" "length long_symbol = 62"
  by code_simp+

theorem placed_order_fits_iff_witness:
  "\<exists>r. fst (place_order ex_app default_risk_limits ex_inputs ''u1'' ''a1'' (order_request_of (ex_payload ''BTC/USDT''))
      (\<lparr>ss_committed = ex_db, ss_work = ex_db\<rparr>, [], 0)) = Inr r \<and> order_fits r"
proof -
  let ?p = "ex_payload ''BTC/USDT''" and ?s = "\<lparr>ss_committed = ex_db, ss_work = ex_db\<rparr>"
  have "is_ok (fst (place_order ex_app default_risk_limits ex_inputs ''u1'' ''a1'' (order_request_of ?p) (?s, [], 0)))" by code_simp
  then obtain r s' net' where p: "place_order ex_app default_risk_limits ex_inputs ''u1'' ''a1'' (order_request_of ?p) (?s, [], 0) = (Inr r, (s', net'))"
    by (metis is_ok_iff prod.collapse)
  have "account_get_for_user ''a1'' ''u1'' (ss_work ?s) = Some ex_account" "load_ledger ''a1'' (ss_work ?s) = Inr ex_loaded"
    by (simp_all add: ex_place_account ex_ledger_loaded)
  moreover have "order_create_errors ?p = []" "length (pi_row_id ex_inputs) \<le> 32" by code_simp+
  ultimately show ?thesis using placed_order_fits_iff [OF _ p _ ex_effective] p by (simp add: ex_payload_def)
qed

section \<open>Accounts\<close>

text \<open>
  The length of a Fernet token (version, time, initialisation vector, padded ciphertext and signature
  in base 64), from the number of bytes of the text in UTF-8, where a character of the model takes one
  byte or two.
\<close>

definition utf8_length :: "string \<Rightarrow> nat" where
  "utf8_length s = sum_list (map (\<lambda>c. if of_char c < (128 :: nat) then 1 else 2) s)"

definition fernet_length :: "nat \<Rightarrow> nat" where
  "fernet_length n = 4 * ((57 + 16 * (n div 16 + 1) + 2) div 3)"

definition fernet_format :: "fernet_lib \<Rightarrow> bool" where
  "fernet_format fe \<longleftrightarrow> (\<forall>ks n p. length (fn_encrypt fe ks n p) = fernet_length (utf8_length p))"

lemma utf8_length_le: "utf8_length s \<le> 2 * length s"
  by (induction s) (auto simp: utf8_length_def)

lemma fernet_length_mono: "m \<le> n \<Longrightarrow> fernet_length m \<le> fernet_length n"
  unfolding fernet_length_def by (intro mult_le_mono2 div_le_mono add_le_mono le_refl)

lemma encrypted_length:
  assumes "fernet_format fe" "length p \<le> n"
  shows "length (fn_encrypt fe ks nonce p) \<le> fernet_length (2 * n)"
  using assms utf8_length_le [of p] by (auto simp: fernet_format_def intro!: fernet_length_mono)

lemma exchange_name_lengths: "e \<in> set (map fst supported_exchanges) \<Longrightarrow> length e \<le> 32"
proof -
  have "list_all (\<lambda>e. length e \<le> 32) (map fst supported_exchanges)" by code_simp
  then show "e \<in> set (map fst supported_exchanges) \<Longrightarrow> ?thesis" unfolding list_all_iff by blast
qed

text \<open>What a live account stores. Whatever request for a live account the schema accepts, the row that
  the service creates fits its columns: the label, the names of exchange and market, and the ciphertexts
  of the longest key, secret and passphrase allowed.\<close>

theorem live_account_fits:
  assumes "live_account_errors p key secret pass = []" and "fernet_format (ap_fernet ap)"
    and "fst (create_live_account ap aid now ns u (py_lower (pl_exchange_id p)) (pl_label p) (pl_market_type p) key secret pass st) = Inr a"
    and "length aid \<le> 32" "length u \<le> 32"
  shows "account_fits a"
proof -
  let ?enc = "fn_encrypt (ap_fernet ap) (sc_keys (ap_cipher ap))"
  have a: "ac_id a = aid" "ac_user_id a = u" "ac_exchange_id a = py_lower (pl_exchange_id p)" "ac_label a = pl_label p"
    "ac_market_type a = pl_market_type p" "ac_api_key_enc a = Some (?enc (fst ns) key)" "ac_api_secret_enc a = Some (?enc (fst (snd ns)) secret)"
    "ac_passphrase_enc a = (case pass of None \<Rightarrow> None | Some [] \<Rightarrow> None | Some q \<Rightarrow> Some (?enc (snd (snd ns)) q))"
    using assms(3) by (auto simp: create_live_account_def cipher_encrypt_def encrypt_opt_def abind_ok_iff apure_def Let_def
        split: option.splits if_splits list.splits)
  have bounds: "length key \<le> 256" "length secret \<le> 512" "\<And>q. pass = Some q \<Longrightarrow> length q \<le> 256" "length (pl_label p) \<le> 64"
    "length (pl_market_type p) \<le> 16"
    using assms(1) by (auto simp: live_account_errors_def account_errors_def length_between_def opt_all_def)
  have "py_lower (pl_exchange_id p) \<in> set (map fst supported_exchanges)"
    using assms(1) by (simp add: live_account_errors_def account_errors_def known_exchange_def Let_def split: if_splits)
  then have name: "length (py_lower (pl_exchange_id p)) \<le> 32" by (rule exchange_name_lengths)
  have "length (?enc n q) \<le> 1024" if "length q \<le> 256" for n q using encrypted_length [OF assms(2) that, of "sc_keys (ap_cipher ap)" n] by (simp add: fernet_length_def)
  moreover have "length (?enc n secret) \<le> 2048" for n using encrypted_length [OF assms(2) bounds(2), of "sc_keys (ap_cipher ap)" n] by (simp add: fernet_length_def)
  ultimately show ?thesis using a bounds name assms(4,5) by (auto simp: row_fits split: option.splits list.splits)
qed

definition sized_fernet :: fernet_lib where
  "sized_fernet = ex_fernet\<lparr>fn_encrypt := (\<lambda>ks n p. replicate (fernet_length (utf8_length p)) CHR ''A'')\<rparr>"

theorem live_account_fits_witness:
  "\<exists>a. fst (create_live_account (ex_app\<lparr>ap_fernet := sized_fernet\<rparr>) ''a2'' 1 ([], [], []) ''u1'' (py_lower ''okx'') ''live'' ''spot''
      ''key-12345'' ''secret-12345'' (Some ''pw'') (\<lparr>ss_committed = ex_db, ss_work = ex_db\<rparr>, ())) = Inr a \<and> account_fits a"
proof -
  let ?p = "\<lparr>pl_exchange_id = ''okx'', pl_label = ''live'', pl_market_type = ''spot''\<rparr>"
  let ?r = "fst (create_live_account (ex_app\<lparr>ap_fernet := sized_fernet\<rparr>) ''a2'' 1 ([], [], []) ''u1'' (py_lower (pl_exchange_id ?p)) (pl_label ?p)
      (pl_market_type ?p) ''key-12345'' ''secret-12345'' (Some ''pw'') (\<lparr>ss_committed = ex_db, ss_work = ex_db\<rparr>, ()))"
  have "(case get_info (py_lower ''okx'') of None \<Rightarrow> False | Some i \<Rightarrow> True)" by code_simp
  then have "is_ok ?r"
    by (auto simp: create_live_account_def cipher_encrypt_def encrypt_opt_def abind_def apure_def Let_def on_work_def account_add_def
        change_work_def ex_db_def empty_db_def ex_account_def split: option.splits)
  then obtain a where a: "?r = Inr a" by (auto simp: is_ok_iff)
  moreover have "live_account_errors ?p ''key-12345'' ''secret-12345'' (Some ''pw'') = []" by code_simp
  moreover have "fernet_format sized_fernet" by (simp add: fernet_format_def sized_fernet_def)
  ultimately show ?thesis using live_account_fits [OF _ _ a] by simp
qed

end
