(* ===== verification/Session_Races.thy ===== *)
theory Session_Races
  imports Auth_Properties Redis_Stores
begin

text \<open>
  Concurrent requests of one session. \<^verbatim>\<open>AuthService.refresh\<close>
  (\<^verbatim>\<open>app/services/auth_service.py\<close>) is divided at its suspension points and runs over either token
  store (\<^verbatim>\<open>app/security/token_store.py\<close>): the lookup of the user waits for the database; a query
  of the shared store waits for the server, while the store in memory answers without giving up
  control, so that its check and its revocation are one step. \<open>exchange_step\<close> interleaves any
  number of requests that present the same token.
\<close>

section \<open>Refreshing over a token store\<close>

record 'r token_ops =
  tk_is_revoked :: "rat \<Rightarrow> string \<Rightarrow> ('r, exn, bool) action"
  tk_revoke :: "rat \<Rightarrow> string \<Rightarrow> int \<Rightarrow> ('r, exn, unit) action"

definition memory_tokens :: "jti_store token_ops" where
  "memory_tokens = \<lparr>tk_is_revoked = (\<lambda>t j js. case is_revoked t j js of (b, js') \<Rightarrow> (Inr b, js')),
     tk_revoke = (\<lambda>t j ttl js. (Inr (), revoke t j ttl js))\<rparr>"

definition shared_tokens :: "'r redis_exec \<Rightarrow> 'r token_ops" where
  "shared_tokens ex = \<lparr>tk_is_revoked = redis_is_revoked ex, tk_revoke = redis_revoke ex\<rparr>"

definition on_store :: "('r, exn, 'a) action \<Rightarrow> (session \<times> 'r, exn, 'a) action" where
  "on_store act = (\<lambda>(s, r). case act r of (x, r') \<Rightarrow> (x, (s, r')))"

definition refresh_lookup :: "auth \<Rightarrow> auth_inputs \<Rightarrow> string \<Rightarrow> (session \<times> 'r, exn, token_claims \<times> user_row) action" where
  "refresh_lookup ae inp token =
     abind (apure (decode_token (at_jwt ae) (at_tokens ae) (ai_now inp) token (Some Refresh))) (\<lambda>claims.
       read_work (\<lambda>d. case user_get (tc_subject claims) d of
           Some u \<Rightarrow> if us_is_active u then Inr (claims, u) else Inl (auth_error ''User no longer active.'')
         | None \<Rightarrow> Inl (auth_error ''User no longer active.'')))"

text \<open>What follows the answer of the store. The generation is that of the row loaded before.\<close>

definition refresh_settle ::
    "auth \<Rightarrow> 'r token_ops \<Rightarrow> auth_inputs \<Rightarrow> rat \<Rightarrow> token_claims \<Rightarrow> user_row \<Rightarrow> bool \<Rightarrow> (session \<times> 'r, exn, token_pair) action" where
  "refresh_settle ae ops inp t claims u revoked =
     (if revoked then
        abind (change_work (user_update (us_id u) (\<lambda>v. v\<lparr>us_token_generation := us_token_generation u + 1\<rparr>))) (\<lambda>_.
        abind (change_work (audit_record ''auth.sessions_invalidated'' (Some (us_id u)) None [(''reason'', VStr ''refresh_token_reuse'')])) (\<lambda>_.
        abind (\<lambda>(s, r). (Inr (), (session_commit (at_dbms ae) s, r))) (\<lambda>_.
          apure (Inl (auth_error ''This refresh token has been revoked.'')))))
      else if tc_generation claims < us_token_generation u
      then apure (Inl (auth_error ''This session has been invalidated.''))
      else
        abind (on_store (tk_revoke ops t (tc_jti claims) (remaining_ttl (ai_now inp) (tc_expires_at claims)))) (\<lambda>_.
          apure (Inr (issue_pair (at_jwt ae) (at_tokens ae) (ai_now inp) (ai_jtis inp)
            (us_id u) (us_role u) (us_token_generation u)))))"

definition refresh_from ::
    "auth \<Rightarrow> 'r token_ops \<Rightarrow> auth_inputs \<Rightarrow> rat \<Rightarrow> token_claims \<times> user_row \<Rightarrow> (session \<times> 'r, exn, token_pair) action" where
  "refresh_from ae ops inp t cu =
     abind (on_store (tk_is_revoked ops t (tc_jti (fst cu)))) (refresh_settle ae ops inp t (fst cu) (snd cu))"

definition refresh_over :: "auth \<Rightarrow> 'r token_ops \<Rightarrow> auth_inputs \<Rightarrow> rat \<Rightarrow> string \<Rightarrow> (session \<times> 'r, exn, token_pair) action" where
  "refresh_over ae ops inp t token = abind (refresh_lookup ae inp token) (refresh_from ae ops inp t)"

lemma update_loaded:
  assumes "distinct (map us_id (db_users d))" "user_get i d = Some u"
  shows "user_update (us_id u) (\<lambda>v. v\<lparr>us_token_generation := us_token_generation u + 1\<rparr>) d
    = user_update (us_id u) (\<lambda>v. v\<lparr>us_token_generation := us_token_generation v + 1\<rparr>) d"
proof -
  have "u \<in> set (db_users d)" using assms(2) by (auto simp: user_get_def find_Some_iff)
  then have "v = u" if "v \<in> set (db_users d)" "us_id v = us_id u" for v using assms(1) that by (simp add: distinct_map inj_on_def)
  then have "map (\<lambda>v. if us_id v = us_id u then v\<lparr>us_token_generation := us_token_generation u + 1\<rparr> else v) (db_users d)
      = map (\<lambda>v. if us_id v = us_id u then v\<lparr>us_token_generation := us_token_generation v + 1\<rparr> else v) (db_users d)"
    by (intro map_cong) auto
  then show ?thesis by (simp add: user_update_def)
qed

text \<open>Over the store in memory this is the operation of the service.\<close>

lemma refresh_over_memory:
  assumes "distinct (map us_id (db_users (ss_work s)))"
  shows "refresh ae inp token (s, (th, js)) =
    (case refresh_over ae memory_tokens inp (ai_mono inp) token (s, js) of (r, (s', js')) \<Rightarrow> (r, (s', (th, js'))))"
  by (auto simp: refresh_def refresh_over_def refresh_lookup_def refresh_from_def refresh_settle_def memory_tokens_def on_store_def
      abind_def apure_def with_jtis_def read_work_def on_work_def change_work_def invalidate_sessions_def commit_security_event_def
      update_loaded [OF assms] split: sum.splits option.splits prod.splits)

section \<open>Interleaved exchanges of one token\<close>

datatype exchange_phase =
    Presented
  | Found "token_claims \<times> user_row"
  | Answered "token_claims \<times> user_row" bool
  | Settled "exn + token_pair"

record 'r exchange =
  xc_db :: db
  xc_store :: 'r
  xc_phase :: "nat \<Rightarrow> exchange_phase"

definition go_to :: "nat \<Rightarrow> exchange_phase \<Rightarrow> 'r exchange \<Rightarrow> 'r exchange" where
  "go_to i p x = x\<lparr>xc_phase := (xc_phase x)(i := p)\<rparr>"

inductive exchange_step ::
    "auth \<Rightarrow> 'r token_ops \<Rightarrow> bool \<Rightarrow> (nat \<Rightarrow> auth_inputs) \<Rightarrow> string \<Rightarrow> 'r exchange \<Rightarrow> 'r exchange \<Rightarrow> bool"
  for ae ops suspends inp token where
  found: "xc_phase x i = Presented
    \<Longrightarrow> fst (refresh_lookup ae (inp i) token (\<lparr>ss_committed = xc_db x, ss_work = xc_db x\<rparr>, xc_store x)) = Inr cu
    \<Longrightarrow> exchange_step ae ops suspends inp token x (go_to i (Found cu) x)"
| unknown: "xc_phase x i = Presented
    \<Longrightarrow> fst (refresh_lookup ae (inp i) token (\<lparr>ss_committed = xc_db x, ss_work = xc_db x\<rparr>, xc_store x)) = Inl e
    \<Longrightarrow> exchange_step ae ops suspends inp token x (go_to i (Settled (Inl e)) x)"
| at_once: "xc_phase x i = Found cu \<Longrightarrow> \<not> suspends
    \<Longrightarrow> with_session (at_dbms ae) (refresh_from ae ops (inp i) (ai_mono (inp i)) cu) (xc_db x, xc_store x) = (r, (d, st))
    \<Longrightarrow> exchange_step ae ops suspends inp token x (go_to i (Settled r) (x\<lparr>xc_db := d, xc_store := st\<rparr>))"
| asked: "xc_phase x i = Found cu \<Longrightarrow> suspends \<Longrightarrow> tk_is_revoked ops t (tc_jti (fst cu)) (xc_store x) = (Inr b, st)
    \<Longrightarrow> exchange_step ae ops suspends inp token x (go_to i (Answered cu b) (x\<lparr>xc_store := st\<rparr>))"
| unanswered: "xc_phase x i = Found cu \<Longrightarrow> suspends \<Longrightarrow> tk_is_revoked ops t (tc_jti (fst cu)) (xc_store x) = (Inl e, st)
    \<Longrightarrow> exchange_step ae ops suspends inp token x (go_to i (Settled (Inl e)) (x\<lparr>xc_store := st\<rparr>))"
| settled: "xc_phase x i = Answered cu b
    \<Longrightarrow> with_session (at_dbms ae) (refresh_settle ae ops (inp i) t (fst cu) (snd cu) b) (xc_db x, xc_store x) = (r, (d, st))
    \<Longrightarrow> exchange_step ae ops suspends inp token x (go_to i (Settled r) (x\<lparr>xc_db := d, xc_store := st\<rparr>))"

definition presented :: "db \<Rightarrow> 'r \<Rightarrow> 'r exchange" where
  "presented d st = \<lparr>xc_db = d, xc_store = st, xc_phase = (\<lambda>_. Presented)\<rparr>"

lemma go_to_sel [simp]:
  "xc_phase (go_to i p x) = (xc_phase x)(i := p)" "xc_store (go_to i p x) = xc_store x" "xc_db (go_to i p x) = xc_db x"
  by (simp_all add: go_to_def)

subsection \<open>In memory\<close>

text \<open>Once an exchange has succeeded, every request that is still to come finds the token revoked.\<close>

definition burnt :: "(nat \<Rightarrow> auth_inputs) \<Rightarrow> string \<Rightarrow> jti_store \<Rightarrow> bool" where
  "burnt inp j js \<longleftrightarrow> (\<forall>k. fst (is_revoked (ai_mono (inp k)) j js))"

definition once :: "(nat \<Rightarrow> auth_inputs) \<Rightarrow> token_claims \<Rightarrow> jti_store exchange \<Rightarrow> bool" where
  "once inp c x \<longleftrightarrow> (\<forall>i cu. xc_phase x i = Found cu \<longrightarrow> fst cu = c) \<and> (\<forall>i cu b. xc_phase x i \<noteq> Answered cu b)
     \<and> (\<forall>i p. xc_phase x i = Settled (Inr p) \<longrightarrow> burnt inp (tc_jti c) (xc_store x) \<and> (\<forall>k q. xc_phase x k = Settled (Inr q) \<longrightarrow> k = i))"

lemma lookup_claims:
  assumes "fst (refresh_lookup ae inp token st) = Inr cu"
  shows "decode_token (at_jwt ae) (at_tokens ae) (ai_now inp) token (Some Refresh) = Inr (fst cu)"
proof -
  obtain s r where st: "st = (s, r)" by fastforce
  show ?thesis using assms
    by (cases "decode_token (at_jwt ae) (at_tokens ae) (ai_now inp) token (Some Refresh)")
      (auto simp: st refresh_lookup_def abind_def apure_def read_work_def on_work_def split: option.splits if_splits)
qed

lemma burnt_refused:
  assumes "burnt inp (tc_jti (fst cu)) js"
    and "with_session dm (refresh_from ae memory_tokens (inp i) (ai_mono (inp i)) cu) (d, js) = (r, (d', js'))"
  shows "js' = js \<and> \<not> is_ok r"
proof -
  have "is_revoked (ai_mono (inp i)) (tc_jti (fst cu)) js = (True, js)"
    using assms(1) by (auto simp: burnt_def is_revoked_def split: option.splits if_splits)
  then show ?thesis using assms(2)
    by (auto simp: with_session_def refresh_from_def refresh_settle_def on_store_def memory_tokens_def abind_def apure_def
        change_work_def on_work_def split: prod.splits)
qed

lemma success_burns:
  assumes "with_session dm (refresh_from ae memory_tokens (inp i) (ai_mono (inp i)) cu) (d, js) = (Inr p, (d', js'))"
    and "\<And>k. ai_mono (inp k) < fadd (ai_mono (inp i)) (of_int (remaining_ttl (ai_now (inp i)) (tc_expires_at (fst cu))))"
  shows "burnt inp (tc_jti (fst cu)) js'"
proof -
  obtain js1 where js1: "js' = revoke (ai_mono (inp i)) (tc_jti (fst cu)) (remaining_ttl (ai_now (inp i)) (tc_expires_at (fst cu))) js1"
    using assms(1) by (auto simp: with_session_def refresh_from_def refresh_settle_def on_store_def memory_tokens_def abind_def apure_def
        change_work_def on_work_def split: prod.splits sum.splits if_splits)
  have "max (remaining_ttl n e) 1 = remaining_ttl n e" for n e by (simp add: remaining_ttl_def)
  then show ?thesis using assms(2) by (simp add: burnt_def js1 revoke_def is_revoked_def dict_get_set not_le)
qed

lemma once_step:
  assumes "exchange_step ae memory_tokens False inp token x x'" "once inp c x"
    and "\<And>i c'. decode_token (at_jwt ae) (at_tokens ae) (ai_now (inp i)) token (Some Refresh) = Inr c' \<Longrightarrow> c' = c"
    and "\<And>i k. ai_mono (inp k) < fadd (ai_mono (inp i)) (of_int (remaining_ttl (ai_now (inp i)) (tc_expires_at c)))"
  shows "once inp c x'"
  using assms(1)
proof cases
  case (found i cu)
  have "fst cu = c" by (rule assms(3) [OF lookup_claims [OF found(3)]])
  then show ?thesis using assms(2) by (auto simp: once_def found(1))
next
  case (at_once i cu r d st)
  have c: "fst cu = c" using assms(2) at_once(2) unfolding once_def by blast
  show ?thesis
  proof (cases "burnt inp (tc_jti c) (xc_store x)")
    case True
    then have "st = xc_store x" "\<not> is_ok r" using burnt_refused [of inp cu "xc_store x", OF _ at_once(4)] by (simp_all add: c)
    then show ?thesis using assms(2) True by (auto simp: once_def at_once(1))
  next
    case False
    then have none: "xc_phase x k \<noteq> Settled (Inr q)" for k q using assms(2) by (auto simp: once_def)
    have "burnt inp (tc_jti c) st" if "r = Inr p" for p
      using success_burns [where inp = inp and i = i, OF at_once(4)[unfolded that]] assms(4) by (simp add: c)
    then show ?thesis using assms(2) none by (auto simp: once_def at_once(1))
  qed
qed (use assms(2) in \<open>auto simp: once_def\<close>)


definition ex_token :: string where
  "ex_token = refresh_token ex_auth ''u1'' ''trader'' ''j0'' 0 1 50"

definition ex_found :: "token_claims \<times> user_row" where
  "ex_found = (claims_of ''u1'' ''trader'' ''j0'' 0 1 50, ex_user)"

lemma ex_lookup: "fst (refresh_lookup ex_auth (ex_auth_inputs 5) ex_token (ex_session ex_user_db, r)) = Inr ex_found"
proof -
  have "fst (refresh_lookup ex_auth (ex_auth_inputs 5) ex_token (ex_session ex_user_db, ())) = Inr ex_found" by code_simp
  then show ?thesis
    by (auto simp: refresh_lookup_def abind_def apure_def read_work_def on_work_def split: sum.splits)
qed

lemma ex_settled:
  "\<exists>p st. with_session (at_dbms ex_auth) (refresh_from ex_auth memory_tokens (ex_auth_inputs 5) 5 ex_found) (ex_user_db, []) = (Inr p, (ex_user_db, st))"
proof -
  have "(case with_session (at_dbms ex_auth) (refresh_from ex_auth memory_tokens (ex_auth_inputs 5) 5 ex_found) (ex_user_db, []) of
      (r, (d, st)) \<Rightarrow> is_ok r \<and> d = ex_user_db)" by code_simp
  then show ?thesis by (auto simp: is_ok_iff split: prod.splits)
qed


subsection \<open>In the shared store\<close>

text \<open>
  Two replicas ask the server one after the other, and revoke the token one after the other: both get
  the answer that it is not revoked, and both issue new tokens. The second use, which the service
  takes for a sign of theft, goes unnoticed.
\<close>

definition ex_inputs_of :: "nat \<Rightarrow> auth_inputs" where
  "ex_inputs_of i = (ex_auth_inputs 5)\<lparr>ai_jtis := (if i = 0 then (''a0'', ''r0'') else (''a1'', ''r1''))\<rparr>"

lemma ex_inputs_now [simp]: "ai_now (ex_inputs_of i) = 5"
  by (simp add: ex_inputs_of_def ex_auth_inputs_def)

definition ex_pair :: "nat \<Rightarrow> token_pair" where
  "ex_pair i = issue_pair ex_jwt (at_tokens ex_auth) 5 (ai_jtis (ex_inputs_of i)) ''u1'' (us_role ex_user) 0"

lemma ex_asked: "tk_is_revoked (shared_tokens local_exec) t j (\<lambda>_. None) = (Inr False, \<lambda>_. None)"
  by (simp add: shared_tokens_def redis_is_revoked_def one_command_def local_exec_def first_reply_def abind_def apure_def alive_def)

lemma ex_rotated:
  "\<exists>st'. with_session (at_dbms ex_auth) (refresh_settle ex_auth (shared_tokens local_exec) (ex_inputs_of i) 5 (fst ex_found) (snd ex_found) False)
     (ex_user_db, st) = (Inr (ex_pair i), (ex_user_db, st'))"
proof -
  let ?ttl = "remaining_ttl 5 (of_int (trunc 50))"
  have "fst (redis_revoke local_exec 5 ''j0'' ?ttl st) = Inr ()"
    by (simp add: redis_revoke_def one_command_def local_exec_def first_reply_def abind_def apure_def)
  then obtain st' where "redis_revoke local_exec 5 ''j0'' ?ttl st = (Inr (), st')" by (metis prod.collapse)
  moreover have "store_db (at_dbms ex_auth) ex_user_db = ex_user_db" using ex_user_stored by (simp add: stored_def)
  ultimately show ?thesis
    by (simp add: with_session_def refresh_settle_def ex_found_def claims_of_def ex_user_def on_store_def shared_tokens_def abind_def apure_def
        session_commit_def ex_pair_def)
qed

lemma ex_pairs_differ: "tp_refresh_token (ex_pair 0) \<noteq> tp_refresh_token (ex_pair 1)"
  by code_simp

theorem shared_exchange_twice:
  "\<exists>x p q. (exchange_step ex_auth (shared_tokens local_exec) True ex_inputs_of ex_token)\<^sup>*\<^sup>* (presented ex_user_db (\<lambda>_. None)) x
     \<and> xc_phase x 0 = Settled (Inr p) \<and> xc_phase x 1 = Settled (Inr q) \<and> tp_refresh_token p \<noteq> tp_refresh_token q"
proof -
  let ?step = "exchange_step ex_auth (shared_tokens local_exec) True ex_inputs_of ex_token" and ?x0 = "presented ex_user_db (\<lambda>_. None)"
  let ?x1 = "go_to 0 (Found ex_found) ?x0"
  let ?x2 = "go_to 1 (Found ex_found) ?x1"
  let ?x3 = "go_to 0 (Answered ex_found False) (?x2\<lparr>xc_store := (\<lambda>_. None)\<rparr>)"
  let ?x4 = "go_to 1 (Answered ex_found False) (?x3\<lparr>xc_store := (\<lambda>_. None)\<rparr>)"
  obtain st where st: "with_session (at_dbms ex_auth) (refresh_settle ex_auth (shared_tokens local_exec) (ex_inputs_of 0) 5 (fst ex_found) (snd ex_found) False)
     (ex_user_db, \<lambda>_. None) = (Inr (ex_pair 0), (ex_user_db, st))" using ex_rotated by blast
  let ?x5 = "go_to 0 (Settled (Inr (ex_pair 0))) (?x4\<lparr>xc_db := ex_user_db, xc_store := st\<rparr>)"
  obtain st' where st': "with_session (at_dbms ex_auth) (refresh_settle ex_auth (shared_tokens local_exec) (ex_inputs_of 1) 5 (fst ex_found) (snd ex_found) False)
     (ex_user_db, st) = (Inr (ex_pair 1), (ex_user_db, st'))" using ex_rotated by blast
  let ?x6 = "go_to 1 (Settled (Inr (ex_pair 1))) (?x5\<lparr>xc_db := ex_user_db, xc_store := st'\<rparr>)"
  have look: "fst (refresh_lookup ex_auth (ex_inputs_of i) ex_token (\<lparr>ss_committed = ex_user_db, ss_work = ex_user_db\<rparr>, r)) = Inr ex_found" for i r
    using ex_lookup [of r] by (simp add: refresh_lookup_def ex_inputs_of_def ex_session_def ex_auth_inputs_def)
  note [trans] = rtranclp.rtrancl_into_rtrancl
  have "?step\<^sup>*\<^sup>* ?x0 ?x0" by simp
  also have "?step ?x0 ?x1" using look by (intro exchange_step.found) (simp_all add: presented_def)
  also have "?step ?x1 ?x2" using look by (intro exchange_step.found) (simp_all add: presented_def)
  also have "?step ?x2 ?x3" by (intro exchange_step.asked [where t = 5]) (simp_all add: presented_def ex_asked)
  also have "?step ?x3 ?x4" by (intro exchange_step.asked [where t = 5]) (simp_all add: presented_def ex_asked)
  also have "?step ?x4 ?x5" using st by (intro exchange_step.settled [where t = 5 and cu = ex_found and b = False]) (simp_all add: presented_def)
  also have "?step ?x5 ?x6" using st' by (intro exchange_step.settled [where t = 5 and cu = ex_found and b = False]) simp_all
  finally have run: "?step\<^sup>*\<^sup>* ?x0 ?x6" .
  show ?thesis by (intro exI [of _ ?x6] exI [of _ "ex_pair 0"] exI [of _ "ex_pair 1"] conjI run ex_pairs_differ) simp_all
qed

section \<open>Concurrent logins with one code\<close>

text \<open>
  A login loads the user, verifies the password in a worker thread and then compares the code with the
  step recorded in the row it has loaded. A login whose row was loaded before the first login committed
  accepts the same code once more: both run on the same committed tables.
\<close>

lemma success_unlocks:
  assumes "authenticate ae inp email password code ip (s, (th, js)) = (Inr tp, (s', (th', js')))"
  shows "dict_get (th_entries th') (normalise (py_lower email)) = None"
proof -
  let ?th = "snd (is_locked (ai_mono inp) (py_lower email) th)"
  obtain u where u: "user_get_by_email (py_lower email) (ss_work s) = Some u"
    and ok: "\<not> fst (is_locked (ai_mono inp) (py_lower email) th)" "hasher_verify (at_argon ae) (us_password_hash u) password = Inr True"
      "us_is_active u" "second_factor_ok ae inp u code"
    using login_ok_iff [of ae inp email password code ip s th js tp] assms by auto
  obtain s1 th1 js1 where f: "second_factor ae inp (py_lower email) code ip u (s, (?th, js)) = (Inr (), (s1, (th1, js1)))"
    using second_factor_ok_iff [of ae inp "py_lower email" code ip u s ?th js] ok(4) by (auto simp: is_ok_iff) (metis prod.collapse)
  have "login_success ae inp (py_lower email) password ip u (s1, (th1, js1)) = (Inr tp, (s', (th', js')))"
    using assms u ok f by (simp add: authenticate_def authenticate_user_def Let_def abind_def apure_def)
  then have "th' = throttle_success (py_lower email) th1"
    by (auto simp: login_success_def abind_def apure_def with_throttle_def change_work_def on_work_def split: if_splits)
  then show ?thesis by (simp add: throttle_success_def dict_get_pop)
qed

theorem concurrent_logins_share_code:
  assumes "authenticate ae inp email password code ip (\<lparr>ss_committed = d, ss_work = d\<rparr>, (th, js)) = (Inr tp, (s', (th', js')))"
  shows "fst (authenticate ae inp email password code ip2 (\<lparr>ss_committed = d, ss_work = d\<rparr>, (th', js'))) = Inr tp"
proof -
  have "\<not> fst (is_locked (ai_mono inp) (py_lower email) th')" using success_unlocks [OF assms] by (simp add: is_locked_def)
  moreover have "fst (authenticate ae inp email password code ip (\<lparr>ss_committed = d, ss_work = d\<rparr>, (th, js))) = Inr tp" by (simp add: assms)
  ultimately show ?thesis unfolding login_ok_iff by blast
qed

section \<open>Concurrent guesses at one password\<close>

text \<open>
  A login asks the throttle first, then waits for the database and for the worker thread that verifies
  the password, and tells the throttle last how it ended. \<open>guess_step\<close> interleaves the logins of one
  identity at times in \<open>ts\<close>, of which at most \<open>c\<close> are between the question and the end: a wrong
  password or code is recorded as a failure, a success clears the record, and a login that ends in any
  other way, such as the request for a code, leaves the throttle alone. Logins of other identities
  come in between.
\<close>

datatype guess_phase = Arrived | Guessing | Tried | Welcomed | Undecided | Turned_away

record guesses =
  gs_throttle :: throttle
  gs_phase :: "nat \<Rightarrow> guess_phase"

definition in_phase :: "guess_phase \<Rightarrow> guesses \<Rightarrow> nat set" where
  "in_phase p x = {i. gs_phase x i = p}"

inductive guess_step :: "string \<Rightarrow> rat set \<Rightarrow> nat \<Rightarrow> guesses \<Rightarrow> guesses \<Rightarrow> bool" for email ts c where
  admitted: "gs_phase x i = Arrived \<Longrightarrow> t \<in> ts \<Longrightarrow> is_locked t email (gs_throttle x) = (False, th) \<Longrightarrow> card (in_phase Guessing x) < c
    \<Longrightarrow> guess_step email ts c x \<lparr>gs_throttle = th, gs_phase = (gs_phase x)(i := Guessing)\<rparr>"
| turned_away: "gs_phase x i = Arrived \<Longrightarrow> t \<in> ts \<Longrightarrow> is_locked t email (gs_throttle x) = (True, th)
    \<Longrightarrow> guess_step email ts c x \<lparr>gs_throttle = th, gs_phase = (gs_phase x)(i := Turned_away)\<rparr>"
| tried: "gs_phase x i = Guessing \<Longrightarrow> t \<in> ts
    \<Longrightarrow> guess_step email ts c x \<lparr>gs_throttle = throttle_failure t email (gs_throttle x), gs_phase = (gs_phase x)(i := Tried)\<rparr>"
| welcomed: "gs_phase x i = Guessing
    \<Longrightarrow> guess_step email ts c x \<lparr>gs_throttle = throttle_success email (gs_throttle x), gs_phase = (gs_phase x)(i := Welcomed)\<rparr>"
| undecided: "gs_phase x i = Guessing
    \<Longrightarrow> guess_step email ts c x \<lparr>gs_throttle = gs_throttle x, gs_phase = (gs_phase x)(i := Undecided)\<rparr>"
| elsewhere: "normalise j \<noteq> normalise email
    \<Longrightarrow> th \<in> {snd (is_locked t j (gs_throttle x)), throttle_failure t j (gs_throttle x), throttle_success j (gs_throttle x)}
    \<Longrightarrow> guess_step email ts c x (x\<lparr>gs_throttle := th\<rparr>)"

subsection \<open>The steps are those of a login\<close>

text \<open>What a login that is not turned away does to the throttle depends on how it ends.\<close>

definition login_ends :: "rat \<Rightarrow> string \<Rightarrow> exn + 'a \<Rightarrow> throttle \<Rightarrow> throttle" where
  "login_ends t email r th = (case r of Inr _ \<Rightarrow> throttle_success email th
     | Inl e \<Rightarrow> if auditable e then throttle_failure t email th else th)"

lemma reject_ends:
  "auditable err \<Longrightarrow> snd (snd (reject_login ae inp email act uid ip err (s, (th, js)))) = (login_ends (ai_mono inp) email (Inl err) th, js)"
  by (simp add: reject_login_run login_ends_def)

lemma second_factor_ends:
  assumes "second_factor ae inp email code ip u (s, (th, js)) = (r, (s', st'))"
  shows "st' = (case r of Inr _ \<Rightarrow> (th, js) | Inl e \<Rightarrow> (login_ends (ai_mono inp) email (Inl e :: exn + unit) th, js))"
proof (cases "us_totp_enabled u \<and> code \<noteq> None \<and> code \<noteq> Some []")
  case True
  then show ?thesis
    using assms
    by (cases rule: consume_totp_cases [of ae inp u "the code" s "(th, js)"])
      (auto simp: second_factor_def is_app_auth reject_login_run login_ends_def split: if_splits)
next
  case False
  then show ?thesis using assms by (auto simp: second_factor_def apure_def login_ends_def auditable_def split: if_splits)
qed

lemma authenticate_user_ends:
  assumes "authenticate_user ae inp email password code ip u (s, (th, js)) = (r, (s', st'))"
    and "\<And>h x. hasher_verify (at_argon ae) h password = Inl x \<Longrightarrow> \<not> auditable x"
  shows "st' = (login_ends (ai_mono inp) email r th, js)"
proof (cases "hasher_verify (at_argon ae) (us_password_hash u) password")
  case (Inl x)
  then show ?thesis using assms by (auto simp: authenticate_user_def login_ends_def abind_def apure_def)
next
  case (Inr ok)
  obtain r1 s1 th1 js1 where f: "second_factor ae inp email code ip u (s, (th, js)) = (r1, (s1, (th1, js1)))" by (metis surj_pair)
  show ?thesis
  proof (cases "ok \<and> us_is_active u")
    case True
    then have run: "abind (second_factor ae inp email code ip u) (\<lambda>_. login_success ae inp email password ip u) (s, (th, js)) = (r, (s', st'))"
      using assms(1) Inr by (simp add: authenticate_user_def abind_def apure_def)
    show ?thesis
    proof (cases r1)
      case (Inl e)
      then show ?thesis using run f second_factor_ends [OF f] by (auto simp: abind_def login_ends_def)
    next
      case (Inr x)
      then show ?thesis using run f second_factor_ends [OF f]
        by (auto simp: abind_def login_ends_def login_success_def apure_def with_throttle_def change_work_def on_work_def split: if_splits)
    qed
  next
    case False
    then show ?thesis using assms(1) Inr
      by (auto simp: authenticate_user_def abind_def apure_def reject_login_run login_ends_def split: if_splits)
  qed
qed

lemma login_on_throttle:
  assumes "authenticate ae inp email password code ip (s, (th, js)) = (r, (s', (th', js')))"
    and "\<And>h x. hasher_verify (at_argon ae) h password = Inl x \<Longrightarrow> \<not> auditable x"
  shows "is_locked (ai_mono inp) (py_lower email) th = (True, th1) \<Longrightarrow> th' = th1"
    and "is_locked (ai_mono inp) (py_lower email) th = (False, th1) \<Longrightarrow> th' = login_ends (ai_mono inp) (py_lower email) r th1"
proof -
  show "th' = th1" if "is_locked (ai_mono inp) (py_lower email) th = (True, th1)"
    using that assms(1) by (auto simp: authenticate_def Let_def abind_def apure_def)
  show "th' = login_ends (ai_mono inp) (py_lower email) r th1" if l: "is_locked (ai_mono inp) (py_lower email) th = (False, th1)"
  proof (cases "user_get_by_email (py_lower email) (ss_work s)")
    case None
    then show ?thesis using assms l
      by (cases "hasher_verify (at_argon ae) (at_decoy ae) password")
        (auto simp: authenticate_def Let_def abind_def apure_def reject_login_run login_ends_def)
  next
    case (Some u)
    then have "authenticate_user ae inp (py_lower email) password code ip u (s, (th1, js)) = (r, (s', (th', js')))"
      using assms(1) l by (simp add: authenticate_def Let_def abind_def)
    from authenticate_user_ends [OF this assms(2)] show ?thesis by simp
  qed
qed

subsection \<open>The bound\<close>

definition guesses_ok :: "string \<Rightarrow> rat set \<Rightarrow> nat \<Rightarrow> int \<Rightarrow> int \<Rightarrow> guesses \<Rightarrow> bool" where
  "guesses_ok email ts c m l x \<longleftrightarrow>
     finite (in_phase Guessing x) \<and> finite (in_phase Tried x) \<and> finite (in_phase Welcomed x) \<and> throttle_ok (gs_throttle x)
     \<and> th_max_attempts (gs_throttle x) = m \<and> th_lockout_seconds (gs_throttle x) = l
     \<and> 0 \<le> throttle_fails email (gs_throttle x)
     \<and> (m \<le> throttle_fails email (gs_throttle x) \<longrightarrow> (\<forall>u \<in> ts. fst (is_locked u email (gs_throttle x))))
     \<and> card (in_phase Guessing x) \<le> c
     \<and> throttle_fails email (gs_throttle x) + int (card (in_phase Guessing x)) \<le> m - 1 + int c
     \<and> int (card (in_phase Tried x)) - throttle_fails email (gs_throttle x) + int (card (in_phase Welcomed x))
         \<le> int (card (in_phase Welcomed x)) * (m - 1 + int c)"

lemma in_phase_upd:
  "gs_phase x i = p \<Longrightarrow> p \<noteq> q \<Longrightarrow> in_phase q \<lparr>gs_throttle = th, gs_phase = (gs_phase x)(i := q)\<rparr> = insert i (in_phase q x)"
  "gs_phase x i = p \<Longrightarrow> p \<noteq> q \<Longrightarrow> in_phase p \<lparr>gs_throttle = th, gs_phase = (gs_phase x)(i := q)\<rparr> = in_phase p x - {i}"
  "gs_phase x i = p \<Longrightarrow> p \<noteq> r \<Longrightarrow> q \<noteq> r \<Longrightarrow> in_phase r \<lparr>gs_throttle = th, gs_phase = (gs_phase x)(i := q)\<rparr> = in_phase r x"
  by (auto simp: in_phase_def split: if_splits)

lemma in_phase_throttle [simp]: "in_phase p (x\<lparr>gs_throttle := th\<rparr>) = in_phase p x"
  by (simp add: in_phase_def)

lemma is_locked_True: "is_locked t i th = (True, th') \<Longrightarrow> th' = th"
  by (auto simp: is_locked_def Let_def split: option.splits if_splits)

lemma is_locked_below: "throttle_ok th \<Longrightarrow> throttle_fails i th < th_max_attempts th \<Longrightarrow> is_locked t i th = (False, th)"
  by (auto simp: is_locked_def Let_def throttle_ok_def entry_ok_def throttle_fails_def split: option.splits)

lemma throttle_success_sel [simp]:
  "th_max_attempts (throttle_success i th) = th_max_attempts th" "th_lockout_seconds (throttle_success i th) = th_lockout_seconds th"
  "throttle_fails i (throttle_success i th) = 0" "throttle_ok th \<Longrightarrow> throttle_ok (throttle_success i th)"
  by (auto simp: throttle_success_def throttle_fails_def throttle_ok_def entry_ok_def dict_get_pop split: if_splits)

text \<open>A login of another identity leaves the record of this one.\<close>

lemma elsewhere_keeps:
  assumes "normalise j \<noteq> normalise i" "throttle_ok th"
    and "th' \<in> {snd (is_locked t j th), throttle_failure t j th, throttle_success j th}"
  shows "throttle_ok th'" "th_max_attempts th' = th_max_attempts th" "th_lockout_seconds th' = th_lockout_seconds th"
    "throttle_fails i th' = throttle_fails i th" "fst (is_locked u i th') = fst (is_locked u i th)"
proof -
  have other: "throttle_ok th'' \<and> th_max_attempts th'' = th_max_attempts th \<and> th_lockout_seconds th'' = th_lockout_seconds th
      \<and> dict_get (th_entries th'') (normalise i) = dict_get (th_entries th) (normalise i)"
    if "th'' \<in> {th, throttle_failure t j th, throttle_success j th}" for th''
    using that assms(1,2) by (auto simp: throttle_ok_failure throttle_failure_get) (simp add: throttle_success_def dict_get_pop)
  have "snd (is_locked t j th) \<in> {th, throttle_success j th}"
    by (auto simp: is_locked_def Let_def throttle_success_def split: option.splits)
  then have *: "throttle_ok th' \<and> th_max_attempts th' = th_max_attempts th \<and> th_lockout_seconds th' = th_lockout_seconds th
      \<and> dict_get (th_entries th') (normalise i) = dict_get (th_entries th) (normalise i)"
    using other assms(3) by blast
  then show "throttle_ok th'" "th_max_attempts th' = th_max_attempts th" "th_lockout_seconds th' = th_lockout_seconds th"
    "throttle_fails i th' = throttle_fails i th" "fst (is_locked u i th') = fst (is_locked u i th)"
    by (auto simp: throttle_fails_def is_locked_def Let_def split: option.splits)
qed

lemma guessing_leaves:
  assumes "guesses_ok email ts c m l x" "gs_phase x i = Guessing"
  shows "int (card (in_phase Guessing x - {i})) = int (card (in_phase Guessing x)) - 1"
proof -
  have "i \<in> in_phase Guessing x" "finite (in_phase Guessing x)" using assms by (simp_all add: in_phase_def guesses_ok_def)
  then have "card (in_phase Guessing x) = Suc (card (in_phase Guessing x - {i}))" using card_Suc_Diff1 by metis
  then show ?thesis by simp
qed

lemma guess_step_ok:
  assumes "guess_step email ts c x x'" "guesses_ok email ts c m l x" "0 < m"
    and "\<forall>t \<in> ts. 0 \<le> t" "\<forall>t \<in> ts. \<forall>u \<in> ts. u < fadd t (of_int l)"
  shows "guesses_ok email ts c m l x'"
  using assms(1)
proof cases
  case (admitted i t th)
  have below: "throttle_fails email (gs_throttle x) < m" using assms(2) admitted(3,4) by (fastforce simp: guesses_ok_def)
  then have "th = gs_throttle x" using is_locked_below [of "gs_throttle x" email t] assms(2) admitted(4) by (simp add: guesses_ok_def)
  moreover have "i \<notin> in_phase Guessing x" using admitted(2) by (simp add: in_phase_def)
  ultimately show ?thesis using assms(2) admitted(2,5) below by (simp add: guesses_ok_def admitted(1) in_phase_upd)
next
  case (turned_away i t th)
  then show ?thesis using assms(2) is_locked_True [OF turned_away(4)] by (simp add: guesses_ok_def in_phase_upd)
next
  case (tried i t)
  let ?th = "throttle_failure t email (gs_throttle x)"
  note card = guessing_leaves [OF assms(2) tried(2)]
  have i: "i \<notin> in_phase Tried x" using tried(2) by (simp add: in_phase_def)
  have "0 \<le> t" using assms(4) tried(3) by simp
  then have locked: "fst (is_locked u email ?th)" if "m \<le> throttle_fails email (gs_throttle x) + 1" "u \<in> ts" for u
    using mem.fail_locks [of "gs_throttle x" t email email u] assms(2,5) tried(3) that by (simp add: guesses_ok_def)
  show ?thesis using assms(2) tried(2) i card locked mem.fail_fails [of email t email "gs_throttle x"]
    by (auto simp: guesses_ok_def tried(1) in_phase_upd throttle_ok_failure)
next
  case (welcomed i)
  note card = guessing_leaves [OF assms(2) welcomed(2)]
  have i: "i \<notin> in_phase Welcomed x" using welcomed(2) by (simp add: in_phase_def)
  show ?thesis using assms(2,3) welcomed(2) i card
    by (auto simp: guesses_ok_def welcomed(1) in_phase_upd algebra_simps)
next
  case (undecided i)
  then show ?thesis using assms(2) guessing_leaves [OF assms(2) undecided(2)]
    by (auto simp: guesses_ok_def in_phase_upd)
next
  case (elsewhere j th t)
  then show ?thesis using assms(2) elsewhere_keeps [OF elsewhere(2) _ elsewhere(3)] by (simp add: guesses_ok_def)
qed



end
