(* ===== verification/Shared_Login.thy ===== *)
theory Shared_Login
  imports Session_Races
begin

text \<open>
  Logins over either throttle. \<^verbatim>\<open>AuthService.authenticate\<close> (\<^verbatim>\<open>app/services/auth_service.py\<close>)
  takes its throttle as the interface of \<^verbatim>\<open>app/security/throttle.py\<close>; here its operations are a
  record of actions. Over the throttle in memory the definitions are those of \<open>Auth_Service\<close>. A
  contract between two throttles (locale \<open>throttle_refinement\<close>) carries over to logins, and the
  shared throttle keeps it with respect to a reference that remembers failures per identity, on any
  server with the promises of \<open>redis_server\<close>.
\<close>

section \<open>Logging in over a throttle\<close>

record 'q throttle_ops =
  to_is_locked :: "string \<Rightarrow> ('q, exn, bool) action"
  to_retry_after :: "string \<Rightarrow> ('q, exn, int) action"
  to_failure :: "string \<Rightarrow> ('q, exn, unit) action"
  to_success :: "string \<Rightarrow> ('q, exn, unit) action"

definition memory_throttle :: "pyfloat \<Rightarrow> throttle throttle_ops" where
  "memory_throttle now =
     \<lparr>to_is_locked = (\<lambda>i th. case is_locked now i th of (b, th') \<Rightarrow> (Inr b, th')),
      to_retry_after = (\<lambda>i th. (Inr (retry_after now i th), th)),
      to_failure = (\<lambda>i th. (Inr (), throttle_failure now i th)),
      to_success = (\<lambda>i th. (Inr (), throttle_success i th))\<rparr>"

text \<open>The commands of one login reach the server at three times, in this order.\<close>

definition shared_throttle :: "'r redis_throttle \<Rightarrow> rat \<Rightarrow> rat \<Rightarrow> rat \<Rightarrow> 'r throttle_ops" where
  "shared_throttle th t1 t2 t3 =
     \<lparr>to_is_locked = redis_is_locked th t1, to_retry_after = redis_retry_after th t2,
      to_failure = redis_failure th t2 t3, to_success = redis_success th t2\<rparr>"

definition reject_over ::
    "auth \<Rightarrow> 'q throttle_ops \<Rightarrow> string \<Rightarrow> string \<Rightarrow> string option \<Rightarrow> string option \<Rightarrow> exn \<Rightarrow> (session \<times> 'q, exn, 'a) action" where
  "reject_over ae ops email act user_id ip err =
     abind (on_store (to_failure ops email)) (\<lambda>_.
     abind (change_work (audit_record act user_id ip [])) (\<lambda>_.
     abind (commit_security_event ae) (\<lambda>_. apure (Inl err))))"

lemma reject_raises: "\<not> is_ok (fst (reject_over ae ops email act uid ip e st))"
  by (auto simp: reject_over_def abind_def apure_def change_work_def on_work_def on_store_def commit_security_event_def split: sum.splits prod.splits)

definition success_over ::
    "auth \<Rightarrow> 'q throttle_ops \<Rightarrow> auth_inputs \<Rightarrow> string \<Rightarrow> string \<Rightarrow> string option \<Rightarrow> user_row \<Rightarrow> (session \<times> 'q, exn, token_pair) action" where
  "success_over ae ops inp email password ip u =
     abind (on_store (to_success ops email)) (\<lambda>_.
     abind (if hasher_needs_rehash (at_argon ae) (us_password_hash u)
            then change_work (user_update (us_id u)
                   (\<lambda>v. v\<lparr>us_password_hash := hasher_hash (at_argon ae) (ai_salt inp) password\<rparr>))
            else apure (Inr ())) (\<lambda>_.
     abind (change_work (audit_record ''auth.login'' (Some (us_id u)) ip [])) (\<lambda>_.
       apure (Inr (issue_pair (at_jwt ae) (at_tokens ae) (ai_now inp) (ai_jtis inp)
         (us_id u) (us_role u) (us_token_generation u))))))"

definition acatch :: "('s, exn, 'a) action \<Rightarrow> (exn \<Rightarrow> ('s, exn, 'a) action) \<Rightarrow> ('s, exn, 'a) action" where
  "acatch m h = (\<lambda>s. case m s of (Inl e, s') \<Rightarrow> h e s' | (Inr a, s') \<Rightarrow> (Inr a, s'))"

definition factor_over ::
    "auth \<Rightarrow> 'q throttle_ops \<Rightarrow> auth_inputs \<Rightarrow> string \<Rightarrow> string option \<Rightarrow> string option \<Rightarrow> user_row \<Rightarrow> (session \<times> 'q, exn, unit) action" where
  "factor_over ae ops inp email totp_code ip u =
     (if \<not> us_totp_enabled u then apure (Inr ())
      else if totp_code \<in> {None, Some []} then apure (Inl (AppExn (mk_error TwoFactorRequiredError None [])))
      else acatch (consume_totp ae inp u (the totp_code)) (\<lambda>e.
        if is_app AuthenticationError e then reject_over ae ops email ''auth.2fa_failed'' (Some (us_id u)) ip e else apure (Inl e)))"

definition user_over ::
    "auth \<Rightarrow> 'q throttle_ops \<Rightarrow> auth_inputs \<Rightarrow> string \<Rightarrow> string \<Rightarrow> string option \<Rightarrow> string option \<Rightarrow> user_row \<Rightarrow> (session \<times> 'q, exn, token_pair) action" where
  "user_over ae ops inp email password totp_code ip u =
     abind (apure (hasher_verify (at_argon ae) (us_password_hash u) password)) (\<lambda>ok.
       if \<not> ok then reject_over ae ops email ''auth.login_failed'' (Some (us_id u)) ip (auth_error ''Invalid email or password.'')
       else if \<not> us_is_active u
       then reject_over ae ops email ''auth.login_disabled'' (Some (us_id u)) ip (auth_error ''This account is disabled.'')
       else abind (factor_over ae ops inp email totp_code ip u) (\<lambda>_. success_over ae ops inp email password ip u))"

definition locked_over :: "auth \<Rightarrow> 'q throttle_ops \<Rightarrow> string \<Rightarrow> string option \<Rightarrow> (session \<times> 'q, exn, token_pair) action" where
  "locked_over ae ops email ip =
     abind (change_work (audit_record ''auth.locked_out'' None ip [])) (\<lambda>_.
     abind (commit_security_event ae) (\<lambda>_.
     abind (on_store (to_retry_after ops email)) (\<lambda>ra.
       apure (Inl (AppExn (mk_error AccountLockedError None [(''retry_after'', VInt ra)]))))))"

definition open_over ::
    "auth \<Rightarrow> 'q throttle_ops \<Rightarrow> auth_inputs \<Rightarrow> string \<Rightarrow> string \<Rightarrow> string option \<Rightarrow> string option \<Rightarrow> (session \<times> 'q, exn, token_pair) action" where
  "open_over ae ops inp email password totp_code ip =
     abind (read_work (\<lambda>d. Inr (user_get_by_email email d))) (\<lambda>found.
       case found of
         None \<Rightarrow>
           abind (apure (hasher_verify (at_argon ae) (at_decoy ae) password)) (\<lambda>_.
             reject_over ae ops email ''auth.login_failed'' None ip (auth_error ''Invalid email or password.''))
       | Some u \<Rightarrow> user_over ae ops inp email password totp_code ip u)"

definition authenticate_over ::
    "auth \<Rightarrow> 'q throttle_ops \<Rightarrow> auth_inputs \<Rightarrow> string \<Rightarrow> string \<Rightarrow> string option \<Rightarrow> string option \<Rightarrow> (session \<times> 'q, exn, token_pair) action" where
  "authenticate_over ae ops inp email0 password totp_code ip =
     (let email = py_lower email0
      in abind (on_store (to_is_locked ops email)) (\<lambda>locked.
         if locked then locked_over ae ops email ip else open_over ae ops inp email password totp_code ip))"

section \<open>Over the throttle in memory\<close>

text \<open>The same action with the revoked identifiers beside the throttle.\<close>

definition beside :: "(session \<times> throttle, exn, 'a) action \<Rightarrow> (auth_state, exn, 'a) action" where
  "beside m = (\<lambda>(s, (th, js)). case m (s, th) of (r, (s', th')) \<Rightarrow> (r, (s', (th', js))))"

named_theorems beside_simps

lemma beside_bind [beside_simps]: "beside (abind m f) = abind (beside m) (\<lambda>a. beside (f a))"
  by (auto simp: beside_def abind_def fun_eq_iff split: prod.splits sum.splits)

lemma beside_catch [beside_simps]: "beside (acatch m h) = acatch (beside m) (\<lambda>e. beside (h e))"
  by (auto simp: beside_def acatch_def fun_eq_iff split: prod.splits sum.splits)

lemma beside_if [beside_simps]:
  "beside (if b then m else m') = (if b then beside m else beside m')"
  "beside (case x of None \<Rightarrow> m | Some y \<Rightarrow> f y) = (case x of None \<Rightarrow> beside m | Some y \<Rightarrow> beside (f y))"
  by (simp_all split: option.split)

lemma beside_pure [beside_simps]:
  "beside (apure r) = apure r" "beside (change_work f) = change_work f" "beside (read_work g) = read_work g"
  "beside (commit_security_event ae) = commit_security_event ae"
  by (auto simp: beside_def apure_def change_work_def read_work_def on_work_def commit_security_event_def fun_eq_iff split: prod.splits)

lemma beside_store [beside_simps]:
  "beside (on_store (to_is_locked (memory_throttle now) i)) = with_throttle (is_locked now i)"
  "beside (on_store (to_retry_after (memory_throttle now) i)) = with_throttle (\<lambda>th. (retry_after now i th, th))"
  "beside (on_store (to_failure (memory_throttle now) i)) = with_throttle (\<lambda>th. ((), throttle_failure now i th))"
  "beside (on_store (to_success (memory_throttle now) i)) = with_throttle (\<lambda>th. ((), throttle_success i th))"
  by (auto simp: beside_def on_store_def memory_throttle_def with_throttle_def fun_eq_iff split: prod.splits)

lemma beside_consume [beside_simps]: "beside (consume_totp ae inp u code) = consume_totp ae inp u code"
  by (simp add: consume_totp_def beside_simps cong: option.case_cong if_cong)

lemma beside_steps [beside_simps]:
  "beside (reject_over ae (memory_throttle (ai_mono inp)) email act uid ip e) = reject_login ae inp email act uid ip e"
  "beside (success_over ae (memory_throttle (ai_mono inp)) inp email password ip u) = login_success ae inp email password ip u"
  by (simp_all add: reject_over_def reject_login_def success_over_def login_success_def beside_simps)

lemma beside_factor [beside_simps]:
  "beside (factor_over ae (memory_throttle (ai_mono inp)) inp email totp_code ip u) = second_factor ae inp email totp_code ip u"
  unfolding factor_over_def second_factor_def
  by (simp add: beside_simps cong: if_cong) (auto simp: acatch_def apure_def fun_eq_iff split: sum.splits prod.splits)

lemma authenticate_over_memory:
  "beside (authenticate_over ae (memory_throttle (ai_mono inp)) inp email password totp_code ip) = authenticate ae inp email password totp_code ip"
  by (simp add: authenticate_over_def authenticate_def locked_over_def open_over_def user_over_def authenticate_user_def [abs_def]
      Let_def beside_simps cong: option.case_cong if_cong)

section \<open>Refinement between throttles\<close>

text \<open>
  An action over one store refines an action over another: from related stores they give the same result
  and session, and leave stores in the relation for results or in the one for errors.
\<close>

definition refines ::
    "('q \<Rightarrow> 'p \<Rightarrow> bool) \<Rightarrow> ('q \<Rightarrow> 'p \<Rightarrow> bool) \<Rightarrow> ('q \<Rightarrow> 'p \<Rightarrow> bool) \<Rightarrow> (session \<times> 'q, exn, 'a) action \<Rightarrow> (session \<times> 'p, exn, 'a) action \<Rightarrow> bool" where
  "refines R R' E m m' \<longleftrightarrow> (\<forall>s q p. R q p \<longrightarrow>
     (case (m (s, q), m' (s, p)) of ((x, (s1, q1)), (y, (s2, p2))) \<Rightarrow> x = y \<and> s1 = s2 \<and> (if is_ok x then R' q1 p2 else E q1 p2)))"

named_theorems refinesI

lemma refines_bind [refinesI]:
  assumes "refines R R1 E m m'" "\<And>a. refines R1 R' E (f a) (f' a)"
  shows "refines R R' E (abind m f) (abind m' f')"
  unfolding refines_def
proof (intro allI impI)
  fix s q p assume "R q p"
  obtain x s1 q1 y s2 p1 where m: "m (s, q) = (x, (s1, q1))" "m' (s, p) = (y, (s2, p1))" by (metis prod_cases3)
  have eq: "y = x" "s2 = s1" and post: "if is_ok x then R1 q1 p1 else E q1 p1"
    using assms(1) \<open>R q p\<close> unfolding refines_def by (auto simp: m dest!: spec [of _ s] spec [of _ q] spec [of _ p])
  show "case (abind m f (s, q), abind m' f' (s, p)) of ((x, (s1, q1)), (y, (s2, p2))) \<Rightarrow>
      x = y \<and> s1 = s2 \<and> (if is_ok x then R' q1 p2 else E q1 p2)"
  proof (cases x)
    case (Inr a)
    then have "R1 q1 p1" using post by simp
    then show ?thesis using assms(2) [of a] unfolding refines_def by (simp add: abind_def m eq Inr)
  qed (use post in \<open>simp add: abind_def m eq\<close>)
qed

lemma refines_catch [refinesI]:
  assumes "refines R R' E' m m'" "\<And>e. refines E' R' E (h e) (h' e)"
  shows "refines R R' E (acatch m h) (acatch m' h')"
  unfolding refines_def
proof (intro allI impI)
  fix s q p assume "R q p"
  obtain x s1 q1 y s2 p1 where m: "m (s, q) = (x, (s1, q1))" "m' (s, p) = (y, (s2, p1))" by (metis prod_cases3)
  have eq: "y = x" "s2 = s1" and post: "if is_ok x then R' q1 p1 else E' q1 p1"
    using assms(1) \<open>R q p\<close> unfolding refines_def by (auto simp: m dest!: spec [of _ s] spec [of _ q] spec [of _ p])
  show "case (acatch m h (s, q), acatch m' h' (s, p)) of ((x, (s1, q1)), (y, (s2, p2))) \<Rightarrow>
      x = y \<and> s1 = s2 \<and> (if is_ok x then R' q1 p2 else E q1 p2)"
  proof (cases x)
    case (Inl e)
    then have "E' q1 p1" using post by simp
    then show ?thesis using assms(2) [of e] unfolding refines_def by (simp add: acatch_def m eq Inl)
  qed (use post in \<open>simp add: acatch_def m eq\<close>)
qed

lemma refines_pure [refinesI]:
  "(\<And>q p a. r = Inr a \<Longrightarrow> R q p \<Longrightarrow> R' q p) \<Longrightarrow> (\<And>q p e. r = Inl e \<Longrightarrow> R q p \<Longrightarrow> E q p) \<Longrightarrow> refines R R' E (apure r) (apure r)"
  by (cases r) (simp_all add: refines_def apure_def)

lemma refines_work [refinesI]:
  "(\<And>q p. R q p \<Longrightarrow> R' q p) \<Longrightarrow> refines R R' E (change_work f) (change_work f)"
  "(\<And>q p. R q p \<Longrightarrow> R' q p) \<Longrightarrow> refines R R' E (commit_security_event ae) (commit_security_event ae)"
  "(\<And>q p. R q p \<Longrightarrow> R' q p) \<Longrightarrow> refines R R' E (read_work (\<lambda>d. Inr (g d))) (read_work (\<lambda>d. Inr (g d)))"
  by (simp_all add: refines_def change_work_def read_work_def on_work_def commit_security_event_def)

lemma refines_if [refinesI]:
  "(b \<Longrightarrow> refines R R' E m m') \<Longrightarrow> (\<not> b \<Longrightarrow> refines R R' E n n') \<Longrightarrow> refines R R' E (if b then m else n) (if b then m' else n')"
  "refines R R' E m m' \<Longrightarrow> (\<And>y. x = Some y \<Longrightarrow> refines R R' E (f y) (f' y))
    \<Longrightarrow> refines R R' E (case x of None \<Rightarrow> m | Some y \<Rightarrow> f y) (case x of None \<Rightarrow> m' | Some y \<Rightarrow> f' y)"
  by (simp_all split: option.split)

lemma refines_store:
  assumes "\<And>q p. R q p \<Longrightarrow> fst (a q) = fst (b p) \<and> (if is_ok (fst (a q)) then R' (snd (a q)) (snd (b p)) else E (snd (a q)) (snd (b p)))"
  shows "refines R R' E (on_store a) (on_store b)"
  using assms by (simp add: refines_def on_store_def case_prod_unfold)

lemma refines_weaken: "refines R R' E m m' \<Longrightarrow> (\<And>q p. E q p \<Longrightarrow> E' q p) \<Longrightarrow> refines R R' E' m m'"
  unfolding refines_def by (fastforce split: prod.splits if_splits)

lemma refines_raises: "refines R R' E m m' \<Longrightarrow> (\<And>st. \<not> is_ok (fst (m st))) \<Longrightarrow> refines R R1 E m m'"
  by (simp add: refines_def case_prod_unfold) metis

definition same_answer :: "('q \<Rightarrow> 'p \<Rightarrow> bool) \<Rightarrow> ('q \<Rightarrow> 'p \<Rightarrow> bool) \<Rightarrow> (exn + 'a) \<times> (db \<times> 'q) \<Rightarrow> (exn + 'a) \<times> (db \<times> 'p) \<Rightarrow> bool" where
  "same_answer R E x y \<longleftrightarrow> fst x = fst y \<and> fst (snd x) = fst (snd y) \<and> (if is_ok (fst x) then R (snd (snd x)) (snd (snd y)) else E (snd (snd x)) (snd (snd y)))"

lemma refines_session:
  assumes "refines R R' E m m'" "R q p"
  shows "same_answer R' E (with_session dm m (d, q)) (with_session dm m' (d, p))"
proof -
  let ?s = "\<lparr>ss_committed = d, ss_work = d\<rparr>"
  obtain x s1 q1 y s2 p1 where m: "m (?s, q) = (x, (s1, q1))" "m' (?s, p) = (y, (s2, p1))" by (metis prod_cases3)
  have "y = x" "s2 = s1" "if is_ok x then R' q1 p1 else E q1 p1"
    using assms unfolding refines_def by (auto simp: m dest!: spec [of _ ?s] spec [of _ q] spec [of _ p])
  then show ?thesis by (simp add: same_answer_def with_session_def m split: sum.split)
qed

text \<open>
  The contract of a throttle with respect to another: related stores give the same answers, before a
  login (\<open>before\<close>), after its first question (\<open>asked\<close>), when it has succeeded (\<open>admitted\<close>)
  and when it has ended in an error (\<open>turned_away\<close>).
\<close>

locale throttle_refinement =
  fixes ops :: "'q throttle_ops" and ref :: "'p throttle_ops" and ids :: "string set"
    and before asked admitted turned_away :: "'q \<Rightarrow> 'p \<Rightarrow> bool"
  assumes asks: "i \<in> ids \<Longrightarrow> before q p \<Longrightarrow> fst (to_is_locked ops i q) = fst (to_is_locked ref i p)
      \<and> asked (snd (to_is_locked ops i q)) (snd (to_is_locked ref i p))"
    and retries: "i \<in> ids \<Longrightarrow> asked q p \<Longrightarrow> fst (to_retry_after ops i q) = fst (to_retry_after ref i p)
      \<and> turned_away (snd (to_retry_after ops i q)) (snd (to_retry_after ref i p))"
    and fails: "i \<in> ids \<Longrightarrow> asked q p \<Longrightarrow> fst (to_failure ops i q) = fst (to_failure ref i p)
      \<and> turned_away (snd (to_failure ops i q)) (snd (to_failure ref i p))"
    and succeeds: "i \<in> ids \<Longrightarrow> asked q p \<Longrightarrow> fst (to_success ops i q) = fst (to_success ref i p)
      \<and> (if is_ok (fst (to_success ops i q)) then admitted (snd (to_success ops i q)) (snd (to_success ref i p))
         else turned_away (snd (to_success ops i q)) (snd (to_success ref i p)))"
    and passes: "asked q p \<Longrightarrow> turned_away q p"
begin

lemma failure_refines: "i \<in> ids \<Longrightarrow> refines asked turned_away turned_away (on_store (to_failure ops i)) (on_store (to_failure ref i))"
  using fails by (intro refines_store) simp

lemma retry_refines: "i \<in> ids \<Longrightarrow> refines asked turned_away turned_away (on_store (to_retry_after ops i)) (on_store (to_retry_after ref i))"
  using retries by (intro refines_store) simp

lemma reject_refines: "i \<in> ids \<Longrightarrow> refines asked R turned_away (reject_over ae ops i act uid ip e) (reject_over ae ref i act uid ip e)"
  unfolding reject_over_def
  by (rule refines_bind [OF failure_refines]) (simp, (intro refinesI; assumption?; simp)+)

lemma success_refines: "i \<in> ids \<Longrightarrow> refines asked admitted turned_away (success_over ae ops inp i pw ip u) (success_over ae ref inp i pw ip u)"
  unfolding success_over_def
  by (intro refines_bind [where ?R1.0 = admitted] refines_store succeeds refines_work refines_pure refines_if) simp_all

lemma consume_refines: "refines asked asked asked (consume_totp ae inp u code) (consume_totp ae inp u code)"
  unfolding consume_totp_def by (intro refinesI; (assumption)?)

lemma factor_refines: "i \<in> ids \<Longrightarrow> refines asked asked turned_away (factor_over ae ops inp i code ip u) (factor_over ae ref inp i code ip u)"
  unfolding factor_over_def
  by (intro refines_if refines_catch [OF consume_refines] refines_pure reject_refines) (auto intro: passes)

lemma user_refines: "i \<in> ids \<Longrightarrow> refines asked admitted turned_away (user_over ae ops inp i pw code ip u) (user_over ae ref inp i pw code ip u)"
  unfolding user_over_def
  by (intro refines_bind [where ?R1.0 = asked] refines_pure refines_if reject_refines factor_refines success_refines) (auto intro: passes)

lemma open_refines: "i \<in> ids \<Longrightarrow> refines asked admitted turned_away (open_over ae ops inp i pw code ip) (open_over ae ref inp i pw code ip)"
  unfolding open_over_def
  by (intro refines_bind [where ?R1.0 = asked] refines_work refines_pure refines_if reject_refines user_refines) (auto intro: passes)

lemma locked_refines: "i \<in> ids \<Longrightarrow> refines asked R turned_away (locked_over ae ops i ip) (locked_over ae ref i ip)"
  unfolding locked_over_def
  by (rule refines_bind [where ?R1.0 = asked], (rule refines_work, assumption),
      rule refines_bind [where ?R1.0 = asked], (rule refines_work, assumption),
      rule refines_bind [OF retry_refines]) (simp, rule refines_pure, simp_all)

lemma authenticate_refines:
  assumes "py_lower email \<in> ids"
  shows "refines before admitted turned_away (authenticate_over ae ops inp email pw code ip) (authenticate_over ae ref inp email pw code ip)"
proof -
  have "refines before asked turned_away (on_store (to_is_locked ops (py_lower email))) (on_store (to_is_locked ref (py_lower email)))"
    by (rule refines_weaken [OF refines_store [where R' = asked and E = asked] passes]) (use asks assms in simp)
  then show ?thesis unfolding authenticate_over_def Let_def
    by (rule refines_bind) (intro refines_if locked_refines open_refines assms)
qed

end

section \<open>The shared throttle\<close>

text \<open>
  The reference remembers for every identity what \<open>observe\<close> makes of its own failures and
  successes; it has no keys, no expiry and no server.
\<close>

definition locked_at :: "rat \<Rightarrow> attack \<Rightarrow> bool" where
  "locked_at t a = (case ak_locked_until a of None \<Rightarrow> False | Some d \<Rightarrow> t < d)"

definition wait_at :: "(rat \<Rightarrow> rat \<Rightarrow> int) \<Rightarrow> rat \<Rightarrow> attack \<Rightarrow> int" where
  "wait_at left t a = (case ak_locked_until a of None \<Rightarrow> 0 | Some d \<Rightarrow> if t < d then max 0 (left t d) else 0)"

definition reference_throttle ::
    "(rat \<Rightarrow> int \<Rightarrow> rat) \<Rightarrow> (rat \<Rightarrow> rat \<Rightarrow> int) \<Rightarrow> int \<Rightarrow> int \<Rightarrow> rat \<Rightarrow> rat \<Rightarrow> rat \<Rightarrow> (string \<Rightarrow> attack) throttle_ops" where
  "reference_throttle until left limit lockout t1 t2 t3 =
     \<lparr>to_is_locked = (\<lambda>i att. (Inr (locked_at t1 (att (normalise i))), att)),
      to_retry_after = (\<lambda>i att. (Inr (wait_at left t2 (att (normalise i))), att)),
      to_failure = (\<lambda>i att. (Inr (), att(normalise i := observe until limit lockout i (Failed t2 t3 i) (att (normalise i))))),
      to_success = (\<lambda>i att. (Inr (), att(normalise i := no_attack)))\<rparr>"

definition digests_apart :: "string set \<Rightarrow> bool" where
  "digests_apart ids \<longleftrightarrow> (\<forall>i \<in> ids. \<forall>j \<in> ids. digest i = digest j \<longleftrightarrow> normalise i = normalise j)"

definition tracks :: "('r \<Rightarrow> keyspace) \<Rightarrow> string set \<Rightarrow> rat \<Rightarrow> 'r \<Rightarrow> (string \<Rightarrow> attack) \<Rightarrow> bool" where
  "tracks view ids t r att \<longleftrightarrow> (\<forall>i \<in> ids. keys_hold t (view r) i (att (normalise i)))"

lemma keys_hold_later: "keys_hold t ks i a \<Longrightarrow> t \<le> t' \<Longrightarrow> keys_hold t' ks i a"
  by (simp add: keys_hold_def)

lemma tracks_later: "tracks view ids t r att \<Longrightarrow> t \<le> t' \<Longrightarrow> tracks view ids t' r att"
  by (auto simp: tracks_def intro: keys_hold_later)

lemma observe_failed_cong:
  "normalise i = normalise j \<Longrightarrow> observe until limit L i (Failed t t' j) a = observe until limit L j (Failed t t' j) a"
  by (simp add: observe_def)

context redis_server
begin

lemma failure_answers: "fst (redis_failure (new_redis_throttle exec limit L) t t' i r) = Inr ()"
proof -
  let ?cs = "[Incr (fail_key i), Expire (fail_key i) L]"
  obtain out r1 where run: "exec t ?cs r = (Inr out, r1)" using answers by blast
  obtain n m where out: "out = [n, m]" using replies [OF run] count_pair [of until left t "fail_key i" L "view r"] by auto
  obtain v r2 where "one_command exec t' (Set_ex (lock_key i) 1 (max L 1)) r1 = (Inr v, r2)" using run_one by blast
  then show ?thesis by (simp add: redis_failure_def new_redis_throttle_def run out first_reply_def abind_def apure_def)
qed

lemma success_answers: "fst (redis_success (new_redis_throttle exec limit L) t i r) = Inr ()"
  using run_one [of t "Del [fail_key i, lock_key i]" r]
  by (auto simp: redis_success_def new_redis_throttle_def abind_def apure_def)

lemma tracks_event:
  assumes "tracks view ids t0 r att" "digests_apart ids" "event_identity e \<in> ids" "t0 \<le> event_start e" "event_start e \<le> event_end e" "0 < L"
  shows "tracks view ids (event_end e) (apply_event (new_redis_throttle exec limit L) e r)
    (att(normalise (event_identity e) := observe until limit L (event_identity e) e (att (normalise (event_identity e)))))"
  unfolding tracks_def
proof
  fix i assume i: "i \<in> ids"
  let ?j = "event_identity e"
  have "keys_hold (event_end e) (view (apply_event (new_redis_throttle exec limit L) e r)) i (observe until limit L i e (att (normalise i)))"
    using assms i by (intro event_holds) (auto simp: tracks_def digests_apart_def)
  moreover have "observe until limit L i e (att (normalise i)) = (att(normalise ?j := observe until limit L ?j e (att (normalise ?j)))) (normalise i)"
    by (cases "normalise ?j = normalise i") (auto simp: observe_def split: throttle_event.splits)
  ultimately show "keys_hold (event_end e) (view (apply_event (new_redis_throttle exec limit L) e r)) i
      ((att(normalise ?j := observe until limit L ?j e (att (normalise ?j)))) (normalise i))" by simp
qed

end

locale shared_login = redis_server exec view until left
  for exec :: "'r redis_exec" and view until left +
  fixes ids :: "string set" and limit lockout :: int and t0 t1 t2 t3 :: rat
  assumes apart: "digests_apart ids" and lockout: "0 < lockout" and times: "t0 \<le> t1" "t1 \<le> t2" "t2 \<le> t3"

sublocale shared_login \<subseteq> login: throttle_refinement
  "shared_throttle (new_redis_throttle exec limit lockout) t1 t2 t3" "reference_throttle until left limit lockout t1 t2 t3" ids
  "tracks view ids t0" "tracks view ids t1" "tracks view ids t3" "tracks view ids t3"
proof (unfold_locales, goal_cases)
  case (1 i r att)
  then have "keys_hold t0 (view r) i (att (normalise i))" by (simp add: tracks_def)
  then show ?case
    using locked_iff [OF _ times(1)] tracks_event [OF 1(2) apart, of "Asked t1 i" lockout limit] 1(1) lockout times(1)
    by (simp add: shared_throttle_def reference_throttle_def locked_at_def apply_event_def observe_def)
next
  case (2 i r att)
  then have "keys_hold t1 (view r) i (att (normalise i))" by (simp add: tracks_def)
  moreover have "tracks view ids t2 (snd (redis_retry_after (new_redis_throttle exec limit lockout) t2 i r)) att"
    using 2(2) unfolding tracks_def by (auto intro: keys_hold_same [OF _ retry_state times(2)])
  ultimately show ?case using retry_answer [OF _ times(2)] tracks_later [OF _ times(3)]
    by (simp add: shared_throttle_def reference_throttle_def wait_at_def)
next
  case (3 i r att)
  then show ?case using tracks_event [OF 3(2) apart, of "Failed t2 t3 i" lockout limit] failure_answers lockout times
    by (simp add: shared_throttle_def reference_throttle_def apply_event_def)
next
  case (4 i r att)
  then show ?case using tracks_event [OF 4(2) apart, of "Succeeded t2 i" lockout limit] success_answers lockout times tracks_later [OF _ times(3)]
    by (simp add: shared_throttle_def reference_throttle_def apply_event_def observe_def)
next
  case (5 r att)
  then show ?case using times by (auto intro: tracks_later)
qed

context shared_login
begin

lemma login_follows:
  assumes "tracks view ids t0 r att" "py_lower email \<in> ids"
  shows "same_answer (tracks view ids t3) (tracks view ids t3)
    (with_session dm (authenticate_over ae (shared_throttle (new_redis_throttle exec limit lockout) t1 t2 t3) inp email pw code ip) (d, r))
    (with_session dm (authenticate_over ae (reference_throttle until left limit lockout t1 t2 t3) inp email pw code ip) (d, att))"
  by (rule refines_session [where R = "tracks view ids t0", OF login.authenticate_refines [OF assms(2)] assms(1)])

end

interpretation one_login: shared_login local_exec "\<lambda>ks. ks" "\<lambda>t s. t + of_int s" "\<lambda>t d. \<lfloor>d - t\<rfloor>" "{i}" limit 300 t t t t
  for i limit t
  by unfold_locales (simp_all add: digests_apart_def)

section \<open>Sequences of logins\<close>

record login_request =
  lq_inputs :: auth_inputs
  lq_email :: string
  lq_password :: string
  lq_totp_code :: "string option"
  lq_ip :: "string option"
  lq_asked :: rat
  lq_then :: rat
  lq_last :: rat

definition serve_login :: "auth \<Rightarrow> (login_request \<Rightarrow> 'q throttle_ops) \<Rightarrow> login_request \<Rightarrow> (db \<times> 'q, exn, token_pair) action" where
  "serve_login ae ops rq = with_session (at_dbms ae)
     (authenticate_over ae (ops rq) (lq_inputs rq) (lq_email rq) (lq_password rq) (lq_totp_code rq) (lq_ip rq))"

primrec serve_logins :: "(login_request \<Rightarrow> ('s, exn, token_pair) action) \<Rightarrow> login_request list \<Rightarrow> 's \<Rightarrow> (exn + token_pair) list \<times> 's" where
  "serve_logins serve [] st = ([], st)"
| "serve_logins serve (rq # rqs) st =
     (case serve rq st of (r, st1) \<Rightarrow> case serve_logins serve rqs st1 of (rs, st2) \<Rightarrow> (r # rs, st2))"

definition shared_for :: "'r redis_exec \<Rightarrow> int \<Rightarrow> int \<Rightarrow> login_request \<Rightarrow> 'r throttle_ops" where
  "shared_for ex limit lockout rq = shared_throttle (new_redis_throttle ex limit lockout) (lq_asked rq) (lq_then rq) (lq_last rq)"

definition reference_for ::
    "(rat \<Rightarrow> int \<Rightarrow> rat) \<Rightarrow> (rat \<Rightarrow> rat \<Rightarrow> int) \<Rightarrow> int \<Rightarrow> int \<Rightarrow> login_request \<Rightarrow> (string \<Rightarrow> attack) throttle_ops" where
  "reference_for until left limit lockout rq = reference_throttle until left limit lockout (lq_asked rq) (lq_then rq) (lq_last rq)"

fun requests_ordered :: "rat \<Rightarrow> login_request list \<Rightarrow> bool" where
  "requests_ordered t [] = True"
| "requests_ordered t (rq # rqs) \<longleftrightarrow> t \<le> lq_asked rq \<and> lq_asked rq \<le> lq_then rq \<and> lq_then rq \<le> lq_last rq \<and> requests_ordered (lq_last rq) rqs"

text \<open>
  The reference service is the service of one process (\<open>authenticate\<close>) on a throttle with nothing
  recorded, and a lock beside it: while the identity is locked a login is turned away, whatever the
  password, and audited; otherwise the lock observes whether the service recorded a failure or
  admitted the user.
\<close>

definition reference_login ::
    "(rat \<Rightarrow> int \<Rightarrow> rat) \<Rightarrow> (rat \<Rightarrow> rat \<Rightarrow> int) \<Rightarrow> int \<Rightarrow> int \<Rightarrow> auth \<Rightarrow> login_request \<Rightarrow> (db \<times> (string \<Rightarrow> attack), exn, token_pair) action" where
  "reference_login until left limit lockout ae rq = (\<lambda>(d, att).
     let email = py_lower (lq_email rq); k = normalise email
     in if locked_at (lq_asked rq) (att k)
        then (Inl (AppExn (mk_error AccountLockedError None [(''retry_after'', VInt (wait_at left (lq_then rq) (att k)))])),
              (store_db (at_dbms ae) (audit_record ''auth.locked_out'' None (lq_ip rq) [] d), att))
        else case with_session (at_dbms ae) (authenticate ae (lq_inputs rq) (lq_email rq) (lq_password rq) (lq_totp_code rq) (lq_ip rq))
                 (d, (new_throttle limit lockout, [])) of (r, (d', (th, _))) \<Rightarrow>
          (r, (d', if is_ok r then att(k := no_attack)
                   else if dict_get (th_entries th) k = None then att
                   else att(k := observe until limit lockout email (Failed (lq_then rq) (lq_last rq) email) (att k)))))"

lemma locked_out_over_reference:
  assumes "locked_at (lq_asked rq) (att (normalise (py_lower (lq_email rq))))"
  shows "serve_login ae (reference_for until left limit lockout) rq (d, att) = reference_login until left limit lockout ae rq (d, att)"
  using assms
  by (simp add: serve_login_def reference_for_def reference_throttle_def authenticate_over_def locked_over_def Let_def with_session_def
      reference_login_def abind_def apure_def on_store_def change_work_def on_work_def commit_security_event_def session_commit_def session_rollback_def)

lemma unlocked_refinement:
  assumes "\<not> locked_at t1 (att (normalise i))" "t1 \<le> t2"
  shows "throttle_refinement (reference_throttle until left limit lockout t1 t2 t3) (memory_throttle now) {i}
    (\<lambda>a th. a = att \<and> th = new_throttle limit lockout) (\<lambda>a th. a = att \<and> th = new_throttle limit lockout)
    (\<lambda>a th. a = att(normalise i := no_attack))
    (\<lambda>a th. a = (if dict_get (th_entries th) (normalise i) = None then att
      else att(normalise i := observe until limit lockout i (Failed t2 t3 i) (att (normalise i)))))"
proof -
  have "wait_at left t2 (att (normalise i)) = 0" using assms by (auto simp: locked_at_def wait_at_def split: option.splits)
  then show ?thesis using assms
    by unfold_locales
      (auto simp: reference_throttle_def memory_throttle_def new_throttle_def is_locked_def retry_after_def throttle_failure_def Let_def)
qed

lemma with_session_beside:
  "with_session dm (beside m) (d, (th, js)) = (case with_session dm m (d, th) of (r, (d', th')) \<Rightarrow> (r, (d', (th', js))))"
  by (auto simp: with_session_def beside_def split: prod.splits sum.splits)

lemma serve_login_reference:
  assumes "lq_asked rq \<le> lq_then rq"
  shows "serve_login ae (reference_for until left limit lockout) rq (d, att) = reference_login until left limit lockout ae rq (d, att)"
proof (cases "locked_at (lq_asked rq) (att (normalise (py_lower (lq_email rq))))")
  case False
  let ?m = "authenticate_over ae (memory_throttle (ai_mono (lq_inputs rq))) (lq_inputs rq) (lq_email rq) (lq_password rq) (lq_totp_code rq) (lq_ip rq)"
  let ?x = "serve_login ae (reference_for until left limit lockout) rq (d, att)" and ?y = "with_session (at_dbms ae) ?m (d, new_throttle limit lockout)"
  let ?i = "py_lower (lq_email rq)"
  have same: "same_answer (\<lambda>a th. a = att(normalise ?i := no_attack))
      (\<lambda>a th. a = (if dict_get (th_entries th) (normalise ?i) = None then att
        else att(normalise ?i := observe until limit lockout ?i (Failed (lq_then rq) (lq_last rq) ?i) (att (normalise ?i))))) ?x ?y"
    unfolding serve_login_def reference_for_def
    by (rule refines_session [where R = "\<lambda>a th. a = att \<and> th = new_throttle limit lockout",
        OF throttle_refinement.authenticate_refines [OF unlocked_refinement [where att = att and i = ?i, OF False assms]]]) simp_all
  obtain r d' th where y: "?y = (r, (d', th))" by (metis prod_cases3)
  have run: "with_session (at_dbms ae) (authenticate ae (lq_inputs rq) (lq_email rq) (lq_password rq) (lq_totp_code rq) (lq_ip rq))
      (d, (new_throttle limit lockout, [])) = (r, (d', (th, [])))"
    using with_session_beside [of "at_dbms ae" ?m d "new_throttle limit lockout" "[]"] by (simp add: authenticate_over_memory y)
  obtain r' d'' att' where x: "?x = (r', (d'', att'))" by (metis prod_cases3)
  show ?thesis using same False unfolding x y by (simp add: same_answer_def run reference_login_def Let_def split: if_splits)
qed (rule locked_out_over_reference)

lemma serve_logins_refine:
  assumes "redis_server ex view until left" "digests_apart ids" "0 < lockout"
    and "requests_ordered t0 rqs" "\<forall>rq \<in> set rqs. py_lower (lq_email rq) \<in> ids" "tracks view ids t0 r att"
  shows "fst (serve_logins (serve_login ae (shared_for ex limit lockout)) rqs (d, r)) = fst (serve_logins (reference_login until left limit lockout ae) rqs (d, att))
    \<and> fst (snd (serve_logins (serve_login ae (shared_for ex limit lockout)) rqs (d, r))) = fst (snd (serve_logins (reference_login until left limit lockout ae) rqs (d, att)))"
  using assms(4-6)
proof (induction rqs arbitrary: t0 d r att)
  case (Cons rq rqs)
  let ?shared = "serve_login ae (shared_for ex limit lockout) rq (d, r)" and ?ref = "reference_login until left limit lockout ae rq (d, att)"
  have "shared_login ex view until left ids lockout t0 (lq_asked rq) (lq_then rq) (lq_last rq)"
    using assms(1-3) Cons.prems by (simp add: shared_login_def shared_login_axioms_def)
  note one = shared_login.login_follows [OF this Cons.prems(3)]
  have step: "fst ?shared = fst ?ref" "fst (snd ?shared) = fst (snd ?ref)" "tracks view ids (lq_last rq) (snd (snd ?shared)) (snd (snd ?ref))"
    using one [of "lq_email rq"] Cons.prems(1,2)
    by (simp_all add: serve_login_reference [symmetric] serve_login_def shared_for_def reference_for_def same_answer_def)
  obtain x d' r' where s: "?shared = (x, (d', r'))" by (metis prod_cases3)
  obtain att' where f: "?ref = (x, (d', att'))" using step(1,2) by (metis s fst_conv prod.collapse snd_conv)
  show ?case using Cons.IH [of "lq_last rq" r' att' d'] Cons.prems step(3) by (simp add: s f case_prod_unfold)
qed simp

section \<open>Properties\<close>

text \<open>C23: logins across replicas follow a reference. Whatever sequence of logins the replicas handle over a
  shared Redis throttle, with any passwords and codes and any outcomes, every login is answered, and the
  database changed, exactly as by the service of one process with a lock per identity beside it, which
  locks for the lockout period once the limit of failures in a row is reached and then turns every login
  away, as far as the digests of the addresses differ. This holds over every server that keeps what its
  documentation promises.\<close>

theorem shared_logins_follow_reference:
  assumes "redis_server ex view until left" "0 < lockout" "requests_ordered t0 rqs" "digests_apart (set (map (\<lambda>rq. py_lower (lq_email rq)) rqs))"
    and "\<forall>u \<ge> t0. \<forall>rq \<in> set rqs. alive u (view r (fail_key (py_lower (lq_email rq)))) = None \<and> alive u (view r (lock_key (py_lower (lq_email rq)))) = None"
    and "serve_logins (serve_login ae (shared_for ex limit lockout)) rqs (d, r) = (answers, (d', r'))"
  shows "\<exists>att. serve_logins (reference_login until left limit lockout ae) rqs (d, \<lambda>_. no_attack) = (answers, (d', att))"
proof -
  have "tracks view (set (map (\<lambda>rq. py_lower (lq_email rq)) rqs)) t0 r (\<lambda>_. no_attack)"
    using assms(5) by (auto simp: tracks_def keys_hold_def no_attack_def)
  from serve_logins_refine [OF assms(1,4,2,3) _ this, of ae limit d] show ?thesis
    by (auto simp: assms(6)) (metis prod.collapse)
qed

definition ex_login :: "string \<Rightarrow> rat \<Rightarrow> login_request" where
  "ex_login password t = \<lparr>lq_inputs = ex_auth_inputs 60, lq_email = ''Eve@x.io'', lq_password = password, lq_totp_code = Some ''2'', lq_ip = None,
     lq_asked = t, lq_then = t, lq_last = t\<rparr>"

theorem shared_logins_follow_reference_witness:
  "map is_ok (fst (serve_logins (serve_login ex_auth (shared_for local_exec 2 300))
     [ex_login ''pw'' 1, ex_login ''a'' 2, ex_login ''b'' 3, ex_login ''pw'' 4] (ex_user_db, \<lambda>_. None))) = [True, False, False, False]"
proof -
  let ?rqs = "[ex_login ''pw'' 1, ex_login ''a'' 2, ex_login ''b'' 3, ex_login ''pw'' 4]"
  obtain answers d' r' where run: "serve_logins (serve_login ex_auth (shared_for local_exec 2 300)) ?rqs (ex_user_db, \<lambda>_. None) = (answers, (d', r'))"
    by (metis prod_cases3)
  have "\<exists>att. serve_logins (reference_login (\<lambda>t s. t + of_int s) (\<lambda>t d. \<lfloor>d - t\<rfloor>) 2 300 ex_auth) ?rqs (ex_user_db, \<lambda>_. no_attack) = (answers, (d', att))"
    by (rule shared_logins_follow_reference [OF local_redis.redis_server_axioms _ _ _ _ run, of 0])
      (simp_all add: ex_login_def digests_apart_def alive_def)
  moreover have "map is_ok (fst (serve_logins (reference_login (\<lambda>t s. t + of_int s) (\<lambda>t d. \<lfloor>d - t\<rfloor>) 2 300 ex_auth) ?rqs (ex_user_db, \<lambda>_. no_attack)))
      = [True, False, False, False]" by code_simp
  ultimately show ?thesis unfolding run by auto
qed

lemma refresh_needs_answer:
  assumes "\<And>j. \<exists>e r'. redis_is_revoked ex t j r = (Inl e, r')"
  shows "\<exists>e r'. with_session dm (refresh_over ae (shared_tokens ex) inp t token) (d, r) = (Inl e, (d, r'))"
proof -
  let ?s = "\<lparr>ss_committed = d, ss_work = d\<rparr>"
  obtain x where x: "refresh_lookup ae inp token (?s, r) = (x, (?s, r))"
    by (cases "decode_token (at_jwt ae) (at_tokens ae) (ai_now inp) token (Some Refresh)")
      (auto simp: refresh_lookup_def abind_def apure_def read_work_def on_work_def)
  show ?thesis
  proof (cases x)
    case (Inr cu)
    obtain e r' where "redis_is_revoked ex t (tc_jti (fst cu)) r = (Inl e, r')" using assms by blast
    then show ?thesis by (simp add: refresh_over_def refresh_from_def shared_tokens_def on_store_def abind_def with_session_def x Inr session_rollback_def)
  qed (simp add: refresh_over_def abind_def with_session_def x session_rollback_def)
qed

text \<open>C28: an unreachable store lets nobody in. While the shared server answers every command with an error,
  a login ends in an error and so does the exchange of a refresh token, whatever the credentials; both
  leave the database as it was.\<close>

theorem unreachable_store_refuses:
  assumes "\<And>t cs. \<exists>e. fst (ex t cs r) = Inl e"
  shows "\<exists>e r' e' r''. serve_login ae (shared_for ex limit lockout) rq (d, r) = (Inl e, (d, r'))
    \<and> with_session (at_dbms ae) (refresh_over ae (shared_tokens ex) inp t token) (d, r) = (Inl e', (d, r''))"
proof -
  obtain e r' where locked: "redis_is_locked (new_redis_throttle ex limit lockout) (lq_asked rq) (py_lower (lq_email rq)) r = (Inl e, r')"
    using unreachable_fails_closed [where ex = ex and r = r, OF assms] by (metis prod.collapse)
  have "\<exists>e r'. redis_is_revoked ex t j r = (Inl e, r')" for j using unreachable_fails_closed [where ex = ex and r = r, OF assms] by (metis prod.collapse)
  then have "\<exists>e r'. with_session (at_dbms ae) (refresh_over ae (shared_tokens ex) inp t token) (d, r) = (Inl e, (d, r'))"
    by (rule refresh_needs_answer)
  moreover have "serve_login ae (shared_for ex limit lockout) rq (d, r) = (Inl e, (d, r'))"
    by (simp add: serve_login_def shared_for_def shared_throttle_def authenticate_over_def Let_def with_session_def abind_def on_store_def
        locked session_rollback_def)
  ultimately show ?thesis by blast
qed

definition lost_connection :: "keyspace redis_exec" where
  "lost_connection t cs ks = (Inl (PyExn ''ConnectionError'' ''Connection refused''), ks)"

theorem unreachable_store_refuses_witness:
  "\<exists>e r' e' r''. serve_login ex_auth (shared_for lost_connection 5 300) (ex_login ''pw'' 1) (ex_user_db, \<lambda>_. None) = (Inl e, (ex_user_db, r'))
    \<and> with_session (at_dbms ex_auth) (refresh_over ex_auth (shared_tokens lost_connection) (ex_auth_inputs 5) 5 ex_token) (ex_user_db, \<lambda>_. None)
      = (Inl e', (ex_user_db, r''))"
  by (rule unreachable_store_refuses) (simp add: lost_connection_def)

section \<open>Logging out\<close>

definition logout_over :: "auth \<Rightarrow> 'r token_ops \<Rightarrow> auth_inputs \<Rightarrow> rat \<Rightarrow> string \<Rightarrow> (session \<times> 'r, exn, unit) action" where
  "logout_over ae ops inp t token =
     (case decode_token (at_jwt ae) (at_tokens ae) (ai_now inp) token (Some Refresh) of
        Inl _ \<Rightarrow> apure (Inr ())
      | Inr claims \<Rightarrow>
          abind (on_store (tk_revoke ops t (tc_jti claims) (remaining_ttl (ai_now inp) (tc_expires_at claims)))) (\<lambda>_.
            change_work (audit_record ''auth.logout'' (Some (tc_subject claims)) None [])))"

lemma logout_over_memory:
  "logout ae inp token (s, (th, js)) =
    (case logout_over ae memory_tokens inp (ai_mono inp) token (s, js) of (r, (s', js')) \<Rightarrow> (r, (s', (th, js'))))"
  by (auto simp: logout_def logout_over_def memory_tokens_def on_store_def abind_def apure_def with_jtis_def change_work_def on_work_def
      split: sum.splits prod.splits)

text \<open>What other requests do to the store: revoke identifiers and ask for them.\<close>

definition token_traffic :: "'r redis_exec \<Rightarrow> (rat \<times> string \<times> int option) list \<Rightarrow> 'r \<Rightarrow> 'r" where
  "token_traffic ex = fold (\<lambda>(t, j, ttl) r. case ttl of None \<Rightarrow> snd (redis_is_revoked ex t j r) | Some n \<Rightarrow> snd (redis_revoke ex t j n r))"

context redis_server
begin

lemma token_traffic_run: "token_traffic exec es r = tokens.run es r"
  by (induction es arbitrary: r) (auto simp: token_traffic_def split: option.split)

lemma revoked_after:
  assumes "t \<le> u" "u < t + of_int ttl" "\<forall>e \<in> set es. fst e \<le> u \<and> (fst (snd e) \<noteq> j \<or> snd (snd e) = None)"
  shows "fst (redis_is_revoked exec u j (token_traffic exec es (snd (redis_revoke exec t j ttl r)))) = Inr True"
proof -
  have "of_int ttl \<le> (of_int (max ttl 1) :: rat)" by simp
  then have "u < t + of_int (max ttl 1)" using assms(2) by linarith
  also have "\<dots> \<le> until t (max ttl 1)" by (rule until_bounds) simp
  finally show ?thesis using tokens.revoked_from [where s = r and ttl = ttl, OF _ assms(1,3)] by (simp add: token_traffic_run)
qed

lemma revoke_answers: "fst (redis_revoke exec t j ttl r) = Inr ()"
  using run_one [of t "Set_ex (revoked_key j) 1 (max ttl 1)" r] by (auto simp: redis_revoke_def abind_def apure_def)

end

lemma revoked_refresh_refused:
  assumes "fst (redis_is_revoked ex u (tc_jti c) r) = Inr True"
    and "\<And>c'. decode_token (at_jwt ae) (at_tokens ae) (ai_now inp) token (Some Refresh) = Inr c' \<Longrightarrow> c' = c"
  shows "\<not> is_ok (fst (with_session dm (refresh_over ae (shared_tokens ex) inp u token) (d, r)))"
proof -
  let ?s = "\<lparr>ss_committed = d, ss_work = d\<rparr>"
  obtain x where x: "refresh_lookup ae inp token (?s, r) = (x, (?s, r))"
    by (cases "decode_token (at_jwt ae) (at_tokens ae) (ai_now inp) token (Some Refresh)")
      (auto simp: refresh_lookup_def abind_def apure_def read_work_def on_work_def)
  show ?thesis
  proof (cases x)
    case (Inr cu)
    then have "fst cu = c" using lookup_claims [of ae inp token "(?s, r)" cu] assms(2) by (simp add: x)
    moreover obtain r' where "redis_is_revoked ex u (tc_jti c) r = (Inr True, r')" using assms(1) by (metis prod.collapse)
    ultimately show ?thesis
      by (simp add: refresh_over_def refresh_from_def refresh_settle_def shared_tokens_def on_store_def abind_def apure_def with_session_def x Inr
          change_work_def on_work_def)
  qed (simp add: refresh_over_def abind_def with_session_def x)
qed



end
