(* ===== verification/Client_Lifecycle.thy ===== *)
theory Client_Lifecycle
  imports Errors
begin

text \<open>
  The network clients behind the adapters: a client is built when it is first needed
  (\<^verbatim>\<open>CcxtAdapter.client\<close>), kept in the adapter and released by \<^verbatim>\<open>close\<close>, to which a paper
  adapter delegates (\<^verbatim>\<open>app/exchange/ccxt_adapter.py\<close>, \<^verbatim>\<open>paper.py\<close>). Every service
  closes its adapter in a \<^verbatim>\<open>finally\<close> clause (\<^verbatim>\<open>account_service.py\<close>,
  \<^verbatim>\<open>market_service.py\<close>). Whether building or closing raises is up to the library, an argument here.
\<close>

section \<open>Clients\<close>

record clients =
  nc_next :: nat
  nc_open :: "nat list"

type_synonym holder = "nat option \<times> clients"

definition client :: "exn option \<Rightarrow> (holder, exn, nat) action" where
  "client failure = (\<lambda>(slot, nc). case slot of
       Some c \<Rightarrow> (Inr c, (slot, nc))
     | None \<Rightarrow> (case failure of
         Some e \<Rightarrow> (Inl e, (slot, nc))
       | None \<Rightarrow> (Inr (nc_next nc), (Some (nc_next nc), nc\<lparr>nc_next := nc_next nc + 1, nc_open := nc_next nc # nc_open nc\<rparr>))))"

definition ccxt_close :: "(nat \<Rightarrow> exn option) \<Rightarrow> (holder, exn, unit) action" where
  "ccxt_close failure = (\<lambda>(slot, nc). case slot of
       None \<Rightarrow> (Inr (), (slot, nc))
     | Some c \<Rightarrow> (case failure c of
         Some e \<Rightarrow> (Inl e, (slot, nc))
       | None \<Rightarrow> (Inr (), (None, nc\<lparr>nc_open := remove1 c (nc_open nc)\<rparr>))))"

text \<open>A market-data source of a paper adapter may have no \<^verbatim>\<open>close\<close>.\<close>

definition paper_close :: "(holder, exn, unit) action option \<Rightarrow> (holder, exn, unit) action" where
  "paper_close market_close = (case market_close of None \<Rightarrow> apure (Inr ()) | Some act \<Rightarrow> act)"

text \<open>\<^verbatim>\<open>try: ... finally: ...\<close>: an exception of the last part replaces the outcome of the first.\<close>

definition finally_do :: "('s, 'e, 'a) action \<Rightarrow> ('s, 'e, unit) action \<Rightarrow> ('s, 'e, 'a) action" where
  "finally_do body fin s = (case body s of (r, s') \<Rightarrow> (case fin s' of (Inl e, s'') \<Rightarrow> (Inl e, s'') | (Inr _, s'') \<Rightarrow> (r, s'')))"

text \<open>
  The two places where adapters live: \<^verbatim>\<open>adapter_session\<close>, which saves the ledger on the way out,
  and the public market adapters. A new adapter has no client.
\<close>

definition adapter_scope ::
    "(holder, exn, unit) action \<Rightarrow> (holder, exn, unit) action \<Rightarrow> (holder, exn, 'a) action \<Rightarrow> (clients, exn, 'a) action" where
  "adapter_scope save shut body nc =
     (case finally_do body (finally_do save shut) (None, nc) of (r, (_, nc')) \<Rightarrow> (r, nc'))"

definition market_scope :: "(holder, exn, unit) action \<Rightarrow> (holder, exn, 'a) action \<Rightarrow> (clients, exn, 'a) action" where
  "market_scope shut body nc = (case finally_do body shut (None, nc) of (r, (_, nc')) \<Rightarrow> (r, nc'))"

section \<open>No client is left open\<close>

inductive touches :: "holder \<Rightarrow> holder \<Rightarrow> bool" where
  touches: "touches st (snd (client failure st))"

text \<open>Code that reaches the network only through \<^verbatim>\<open>self.client\<close>, whatever else it does or raises.\<close>

definition only_client :: "(holder, exn, 'a) action \<Rightarrow> bool" where
  "only_client act \<longleftrightarrow> (\<forall>st. touches\<^sup>*\<^sup>* st (snd (act st)))"

definition holds_at_most :: "clients \<Rightarrow> holder \<Rightarrow> bool" where
  "holds_at_most nc st \<longleftrightarrow> st = (None, nc) \<or> (\<exists>nc'. st = (Some (nc_next nc), nc') \<and> nc_open nc' = nc_next nc # nc_open nc)"

lemma touches_holds: "touches st st' \<Longrightarrow> holds_at_most nc st \<Longrightarrow> holds_at_most nc st'"
  by (auto simp: holds_at_most_def client_def elim!: touches.cases split: option.splits)

lemma only_client_holds: "only_client act \<Longrightarrow> holds_at_most nc st \<Longrightarrow> holds_at_most nc (snd (act st))"
proof -
  have "touches\<^sup>*\<^sup>* st st' \<Longrightarrow> holds_at_most nc st \<Longrightarrow> holds_at_most nc st'" for st'
    by (induction rule: rtranclp_induct) (auto intro: touches_holds)
  then show "only_client act \<Longrightarrow> holds_at_most nc st \<Longrightarrow> ?thesis" unfolding only_client_def by blast
qed

lemma only_client_bind: "only_client m \<Longrightarrow> (\<And>a. only_client (f a)) \<Longrightarrow> only_client (abind m f)"
  unfolding only_client_def by (metis (no_types, lifting) abind_cases rtranclp_trans snd_conv)

lemma only_client_basic [simp]: "only_client (apure r)" "only_client (client failure)"
  by (auto simp: only_client_def intro: touches)

lemma close_releases:
  assumes "holds_at_most nc st" "\<And>c. failure c = None"
  shows "fst (ccxt_close failure st) = Inr () \<and> nc_open (snd (snd (ccxt_close failure st))) = nc_open nc"
  using assms by (auto simp: holds_at_most_def ccxt_close_def)

text \<open>Closing is idempotent, as the interface of the adapters demands.\<close>

lemma close_idempotent:
  "ccxt_close failure st = (Inr (), st') \<Longrightarrow> ccxt_close failure st' = (Inr (), st')"
  by (auto simp: ccxt_close_def split: prod.splits option.splits)

text \<open>
  Whatever the body of a session does with its adapter, whether it returns or raises and whether the
  ledger can be saved, the clients open afterwards are those that were open before, provided closing a
  client does not raise; the same holds of the public market adapters.
\<close>

theorem clients_always_closed:
  assumes "only_client body" "only_client save" "\<And>c. failure c = None"
  shows "nc_open (snd (adapter_scope save (paper_close (Some (ccxt_close failure))) body nc)) = nc_open nc
    \<and> nc_open (snd (adapter_scope save (ccxt_close failure) body nc)) = nc_open nc
    \<and> nc_open (snd (market_scope (ccxt_close failure) body nc)) = nc_open nc"
proof -
  obtain r st where b: "body (None, nc) = (r, st)" by (meson surj_pair)
  obtain r' st' where s: "save st = (r', st')" by (meson surj_pair)
  have st: "holds_at_most nc st" using only_client_holds [OF assms(1), of nc "(None, nc)"] by (simp add: b holds_at_most_def)
  then have st': "holds_at_most nc st'" using only_client_holds [OF assms(2), of nc st] by (simp add: s)
  obtain x y where c: "ccxt_close failure st = (Inr (), (x, y))" "nc_open y = nc_open nc"
    using close_releases [where failure = failure, OF st assms(3)] by (cases "ccxt_close failure st") auto
  obtain x' y' where c': "ccxt_close failure st' = (Inr (), (x', y'))" "nc_open y' = nc_open nc"
    using close_releases [where failure = failure, OF st' assms(3)] by (cases "ccxt_close failure st'") auto
  show ?thesis using c c' by (cases r') (simp_all add: adapter_scope_def market_scope_def paper_close_def finally_do_def b s)
qed

text \<open>A request that needs its client twice builds one, and leaves none.\<close>

lemma clients_always_closed_example:
  "adapter_scope (apure (Inr ())) (ccxt_close (\<lambda>_. None)) (abind (client None) (\<lambda>a. abind (client None) (\<lambda>b. apure (Inr (a, b)))))
     \<lparr>nc_next = 7, nc_open = [3]\<rparr> = (Inr (7, 7), \<lparr>nc_next = 8, nc_open = [3]\<rparr>)"
  by code_simp

end
