(* ===== verification/Key_Generation.thy ===== *)
theory Key_Generation
  imports Security "HOL-Library.Word"
begin

text \<open>
  The script that prints fresh secrets (\<^verbatim>\<open>app/scripts/gen_keys.py\<close>,
  \<^verbatim>\<open>generate_master_key\<close> in \<^verbatim>\<open>app/security/crypto.py\<close>) and the way back: its output as the
  environment file that the settings read. Random bytes are arguments; Python's URL-safe base64 is written
  out. Fernet's key generator and the reader of the environment file are parameters, with what they
  document as the locales \<open>key_source\<close> and \<open>env_file\<close>.
\<close>

section \<open>URL-safe base64\<close>

definition b64_alphabet :: string where
  "b64_alphabet = ''ABCDEFGHIJKLMNOPQRSTUVWXYZabcdefghijklmnopqrstuvwxyz0123456789-_''"

definition b64_char :: "nat \<Rightarrow> char" where
  "b64_char n = b64_alphabet ! n"

fun b64_encode :: "8 word list \<Rightarrow> string" where
  "b64_encode [] = []"
| "b64_encode [a] = [b64_char (unat a div 4), b64_char (unat a mod 4 * 16), CHR ''='', CHR ''='']"
| "b64_encode [a, b] = [b64_char (unat a div 4), b64_char (unat a mod 4 * 16 + unat b div 16), b64_char (unat b mod 16 * 4), CHR ''='']"
| "b64_encode (a # b # c # bs) =
     [b64_char (unat a div 4), b64_char (unat a mod 4 * 16 + unat b div 16), b64_char (unat b mod 16 * 4 + unat c div 64), b64_char (unat c mod 64)]
     @ b64_encode bs"

text \<open>\<^verbatim>\<open>secrets.token_urlsafe\<close> on the bytes it draws.\<close>

definition token_urlsafe :: "8 word list \<Rightarrow> string" where
  "token_urlsafe bs = rev (dropWhile (\<lambda>c. c = CHR ''='') (rev (b64_encode bs)))"

section \<open>The script\<close>

definition generate_master_key :: "(8 word list \<Rightarrow> string) \<Rightarrow> 8 word list \<Rightarrow> string" where
  "generate_master_key generate rnd = generate rnd"

definition gen_keys_main :: "(8 word list \<Rightarrow> string) \<Rightarrow> 8 word list \<Rightarrow> 8 word list \<Rightarrow> string list" where
  "gen_keys_main generate rnd rnd' =
     [''# Add these to your .env (keep them secret!)'',
      ''MASTER_ENCRYPTION_KEY='' @ generate_master_key generate rnd,
      ''JWT_SECRET_KEY='' @ token_urlsafe rnd']"

text \<open>The two settings that the lines of the script set.\<close>

definition load_env :: "(string, string) dict \<Rightarrow> settings \<Rightarrow> settings" where
  "load_env env st = st
     \<lparr>master_encryption_key := (case dict_get env ''MASTER_ENCRYPTION_KEY'' of None \<Rightarrow> master_encryption_key st | Some v \<Rightarrow> v),
      jwt_secret_key := (case dict_get env ''JWT_SECRET_KEY'' of None \<Rightarrow> jwt_secret_key st | Some v \<Rightarrow> v)\<rparr>"

section \<open>Base64\<close>

lemma b64_alphabet_facts: "length b64_alphabet = 64" "distinct b64_alphabet" "CHR ''='' \<notin> set b64_alphabet" "CHR '','' \<notin> set b64_alphabet"
  "list_all (\<lambda>c. \<not> is_space c) b64_alphabet"
  by code_simp+

lemma b64_char_inj: "m < 64 \<Longrightarrow> n < 64 \<Longrightarrow> b64_char m = b64_char n \<longleftrightarrow> m = n"
  by (simp add: b64_char_def nth_eq_iff_index_eq b64_alphabet_facts)

lemma b64_char_in: "n < 64 \<Longrightarrow> b64_char n \<in> set b64_alphabet"
  by (simp add: b64_char_def b64_alphabet_facts)

lemma byte_bound: "unat (a :: 8 word) < 256"
  using unsigned_less [of a] by simp

lemma sextets:
  "unat (a :: 8 word) div 4 < 64" "unat a mod 4 * 16 < 64" "unat a mod 4 * 16 + unat (b :: 8 word) div 16 < 64"
  "unat b mod 16 * 4 < 64" "unat b mod 16 * 4 + unat (c :: 8 word) div 64 < 64" "unat c mod 64 < 64"
  using byte_bound [of a] byte_bound [of b] byte_bound [of c] by linarith+

lemma b64_chars: "set (b64_encode bs) \<subseteq> insert (CHR ''='') (set b64_alphabet)"
  by (induction bs rule: b64_encode.induct) (auto simp: b64_char_in sextets)

lemma b64_length: "length (b64_encode bs) = 4 * ((length bs + 2) div 3)"
proof (induction bs rule: b64_encode.induct)
  case (4 a b c bs)
  have "(length (a # b # c # bs) + 2) div 3 = Suc ((length bs + 2) div 3)" by simp
  then show ?case using 4 by simp
qed simp_all

lemma b64_unpadded: "length bs mod 3 = 0 \<Longrightarrow> set (b64_encode bs) \<subseteq> set b64_alphabet"
  by (induction bs rule: b64_encode.induct) (auto simp: b64_char_in sextets)

lemma byte_eq: "unat (a :: 8 word) div n = unat a' div n \<Longrightarrow> unat a mod n = unat a' mod n \<Longrightarrow> a = a'"
  by (metis div_mult_mod_eq unsigned_word_eqI)

lemma shares_eq:
  fixes k m m' x x' :: nat
  assumes "k * m + x = k * m' + x'" "x < k" "x' < k"
  shows "m = m' \<and> x = x'"
proof -
  have quotient: "y < k \<Longrightarrow> (k * n + y) div k = n" for n y by simp
  have "m = m'" using quotient [OF assms(2), of m] quotient [OF assms(3), of m'] assms(1) by simp
  then show ?thesis using assms(1) by simp
qed

lemma second_sextet:
  assumes "unat (a :: 8 word) mod 4 * 16 + unat (b :: 8 word) div 16 = unat (a' :: 8 word) mod 4 * 16 + unat (b' :: 8 word) div 16"
  shows "unat a mod 4 = unat a' mod 4" "unat b div 16 = unat b' div 16"
proof -
  have "unat b div 16 < 16" "unat b' div 16 < 16" using byte_bound [of b] byte_bound [of b'] by linarith+
  then show "unat a mod 4 = unat a' mod 4" "unat b div 16 = unat b' div 16"
    using shares_eq [of 16 "unat a mod 4" "unat b div 16" "unat a' mod 4" "unat b' div 16"] assms by (simp_all add: mult.commute)
qed

lemma third_sextet:
  assumes "unat (b :: 8 word) mod 16 * 4 + unat (c :: 8 word) div 64 = unat (b' :: 8 word) mod 16 * 4 + unat (c' :: 8 word) div 64"
  shows "unat b mod 16 = unat b' mod 16" "unat c div 64 = unat c' div 64"
proof -
  have "unat c div 64 < 4" "unat c' div 64 < 4" using byte_bound [of c] byte_bound [of c'] by linarith+
  then show "unat b mod 16 = unat b' mod 16" "unat c div 64 = unat c' div 64"
    using shares_eq [of 4 "unat b mod 16" "unat c div 64" "unat b' mod 16" "unat c' div 64"] assms by (simp_all add: mult.commute)
qed

lemma bytes_eq:
  assumes "unat (a :: 8 word) mod 4 * 16 + unat (b :: 8 word) div 16 = unat (a' :: 8 word) mod 4 * 16 + unat (b' :: 8 word) div 16"
    and "unat a div 4 = unat a' div 4"
  shows "a = a'" and "unat b mod 16 = unat b' mod 16 \<Longrightarrow> b = b'"
    and "unat b mod 16 * 4 + unat (c :: 8 word) div 64 = unat b' mod 16 * 4 + unat (c' :: 8 word) div 64 \<Longrightarrow> b = b'"
    and "unat b mod 16 * 4 + unat c div 64 = unat b' mod 16 * 4 + unat c' div 64 \<Longrightarrow> unat c mod 64 = unat c' mod 64 \<Longrightarrow> c = c'"
  using assms second_sextet third_sextet by (metis byte_eq)+

text \<open>Nothing of the random bytes is lost.\<close>

lemma b64_inj: "length bs = length bs' \<Longrightarrow> b64_encode bs = b64_encode bs' \<Longrightarrow> bs = bs'"
proof (induction bs arbitrary: bs' rule: b64_encode.induct)
  case (2 a)
  then show ?case by (auto simp: length_Suc_conv eq_commute [of "Suc _"] b64_char_inj sextets intro!: byte_eq [where n = 4])
next
  case (3 a b)
  then show ?case by (auto simp: length_Suc_conv eq_commute [of "Suc _"] b64_char_inj sextets intro: bytes_eq(1,2))
next
  case (4 a b c bs)
  obtain a' b' c' cs where bs': "bs' = a' # b' # c' # cs" "length cs = length bs"
    using "4.prems"(1) by (auto simp: length_Suc_conv eq_commute [of "Suc _"])
  have "b64_encode bs = b64_encode cs" "a = a'" "b = b'" "c = c'"
    using "4.prems"(2) by (auto simp: bs' b64_char_inj sextets intro: bytes_eq)
  then show ?case using "4.IH" bs' by simp
qed simp

lemma dropWhile_none: "(\<And>c. c \<in> set xs \<Longrightarrow> \<not> P c) \<Longrightarrow> dropWhile P xs = xs"
  by (cases xs) auto

lemma token_urlsafe_unpadded:
  assumes "length bs mod 3 = 0"
  shows "token_urlsafe bs = b64_encode bs"
proof -
  have "dropWhile (\<lambda>c. c = CHR ''='') (rev (b64_encode bs)) = rev (b64_encode bs)"
    using b64_unpadded [OF assms] b64_alphabet_facts(3) by (intro dropWhile_none) auto
  then show ?thesis by (simp add: token_urlsafe_def)
qed

lemma b64_plain: "c \<in> set (b64_encode bs) \<Longrightarrow> c \<noteq> CHR '','' \<and> \<not> is_space c"
proof -
  have "\<not> is_space (CHR ''='')" by code_simp
  then show "c \<in> set (b64_encode bs) \<Longrightarrow> c \<noteq> CHR '','' \<and> \<not> is_space c"
    using b64_chars [of bs] b64_alphabet_facts(4,5) by (auto simp: list_all_iff)
qed

lemma b64_comma_list: "bs \<noteq> [] \<Longrightarrow> comma_list (b64_encode bs) = [b64_encode bs]"
proof -
  assume "bs \<noteq> []"
  have "dropWhile is_space (b64_encode bs) = b64_encode bs" "dropWhile is_space (rev (b64_encode bs)) = rev (b64_encode bs)"
    using b64_plain [of _ bs] by (intro dropWhile_none; simp)+
  then have "py_strip (b64_encode bs) = b64_encode bs" by (simp add: py_strip_def)
  moreover have "b64_encode bs \<noteq> []" using \<open>bs \<noteq> []\<close> by (cases bs rule: b64_encode.cases) simp_all
  moreover have "CHR '','' \<notin> set (b64_encode bs)" using b64_plain by blast
  ultimately show ?thesis by (simp add: comma_list_def split_on_no_sep)
qed

section \<open>Fernet and the environment file\<close>

text \<open>A Fernet key is the URL-safe base64 of 32 random bytes, and every such text is a key.\<close>

locale key_source =
  fixes fe :: fernet_lib and generate :: "8 word list \<Rightarrow> string"
  assumes generates: "length rnd = 32 \<Longrightarrow> generate rnd = b64_encode rnd"
    and accepts: "length rnd = 32 \<Longrightarrow> fn_valid_key fe (b64_encode rnd)"
begin

lemma generated_key: "length rnd = 32 \<Longrightarrow> comma_list (generate rnd) = [generate rnd] \<and> new_secret_cipher fe [generate rnd] = Inr \<lparr>sc_keys = [generate rnd]\<rparr>"
  using b64_comma_list [of rnd] by (cases rnd) (auto simp: generates accepts new_secret_cipher_def)

end

text \<open>A comment is skipped; a name, an equals sign and an unquoted value of base64 characters give the value.\<close>

locale env_file =
  fixes read :: "string list \<Rightarrow> (string, string) dict"
  assumes no_lines: "read [] = []"
    and skipped: "read ((CHR ''#'' # c) # ls) = read ls"
    and assigned: "list_all (\<lambda>c. c \<in> set b64_alphabet) n \<Longrightarrow> list_all (\<lambda>c. c = CHR ''='' \<or> c \<in> set b64_alphabet) v
      \<Longrightarrow> read ((n @ CHR ''='' # v) # ls) = (n, v) # read ls"
begin

lemma script_read:
  assumes "list_all (\<lambda>c. c = CHR ''='' \<or> c \<in> set b64_alphabet) (generate rnd)" "list_all (\<lambda>c. c = CHR ''='' \<or> c \<in> set b64_alphabet) (token_urlsafe rnd')"
  shows "read (gen_keys_main generate rnd rnd') = [(''MASTER_ENCRYPTION_KEY'', generate rnd), (''JWT_SECRET_KEY'', token_urlsafe rnd')]"
proof -
  have names: "list_all (\<lambda>c. c \<in> set b64_alphabet) ''MASTER_ENCRYPTION_KEY''" "list_all (\<lambda>c. c \<in> set b64_alphabet) ''JWT_SECRET_KEY''" by code_simp+
  show ?thesis using assigned [OF names(1) assms(1)] assigned [OF names(2) assms(2)]
    by (simp add: gen_keys_main_def generate_master_key_def skipped no_lines)
qed

end

definition plain_read :: "string list \<Rightarrow> (string, string) dict" where
  "plain_read ls = List.map_filter (\<lambda>l. if l = [] \<or> hd l = CHR ''#'' then None
     else Some (takeWhile (\<lambda>c. c \<noteq> CHR ''='') l, tl (dropWhile (\<lambda>c. c \<noteq> CHR ''='') l))) ls"

interpretation plain: env_file plain_read
proof
  fix n v :: string and ls
  assume n: "list_all (\<lambda>c. c \<in> set b64_alphabet) n"
  have "CHR ''#'' \<notin> set b64_alphabet" by code_simp
  then have "n = [] \<or> hd n \<noteq> CHR ''#''" using n by (cases n) auto
  moreover have "c \<in> set n \<Longrightarrow> c \<noteq> CHR ''=''" for c using n b64_alphabet_facts(3) by (auto simp: list_all_iff)
  then have "takeWhile (\<lambda>c. c \<noteq> CHR ''='') (n @ CHR ''='' # v) = n" "dropWhile (\<lambda>c. c \<noteq> CHR ''='') (n @ CHR ''='' # v) = CHR ''='' # v"
    by (simp_all add: takeWhile_append dropWhile_append)
  ultimately show "plain_read ((n @ CHR ''='' # v) # ls) = (n, v) # plain_read ls"
    by (cases n) (simp_all add: plain_read_def List.map_filter_simps)
qed (simp_all add: plain_read_def List.map_filter_simps)

interpretation ex_keys: key_source ex_fernet b64_encode
proof
  fix rnd :: "8 word list"
  assume "length rnd = 32"
  then show "fn_valid_key ex_fernet (b64_encode rnd)" using b64_length [of rnd] by (auto simp: ex_fernet_def)
qed simp

section \<open>Properties\<close>

lemma b64_listed: "list_all (\<lambda>c. c = CHR ''='' \<or> c \<in> set b64_alphabet) (b64_encode bs)"
  using b64_chars [of bs] by (auto simp: list_all_iff)

text \<open>The printed secrets start production. Whatever random bytes the script draws, its output as the
  environment file gives settings with which production starts, provided debugging is off and no wildcard
  origin is configured: the cipher uses exactly the printed key, tokens are signed with exactly the printed
  secret of 64 characters, and other random bytes give other secrets.\<close>

theorem printed_secrets_start_production:
  assumes "key_source fe generate" "env_file read" "length rnd = 32" "length rnd' = 48"
    and "st' = load_env (read (gen_keys_main generate rnd rnd')) st" "\<not> app_debug st" "''*'' \<notin> set (cors_origins st)"
  shows "validate_runtime st' = Inr () \<and> get_secret_cipher fe st' g = Inr \<lparr>sc_keys = [generate_master_key generate rnd]\<rparr>
    \<and> (\<exists>ts. get_token_service st' g' = Inr ts \<and> tv_secret ts = token_urlsafe rnd') \<and> length (token_urlsafe rnd') = 64
    \<and> (\<forall>r. length r = 48 \<longrightarrow> token_urlsafe r = token_urlsafe rnd' \<longrightarrow> r = rnd')
    \<and> (\<forall>r. length r = 32 \<longrightarrow> generate_master_key generate r = generate_master_key generate rnd \<longrightarrow> r = rnd)"
proof -
  note key = key_source.generated_key [OF assms(1,3)] and gen = key_source.generates [OF assms(1)]
  have tok: "length r = 48 \<Longrightarrow> token_urlsafe r = b64_encode r" for r by (simp add: token_urlsafe_unpadded)
  have len: "length (token_urlsafe rnd') = 64" using tok [OF assms(4)] assms(4) by (simp add: b64_length)
  have "st' = st\<lparr>master_encryption_key := generate rnd, jwt_secret_key := token_urlsafe rnd'\<rparr>"
    unfolding assms(5) using gen [OF assms(3)] tok [OF assms(4)] by (subst env_file.script_read [OF assms(2)]) (simp_all add: b64_listed load_env_def)
  then have st': "encryption_keys st' = [generate rnd]" "jwt_secret_key st' = token_urlsafe rnd'" "app_debug st' = app_debug st" "cors_origins st' = cors_origins st"
    using key by (simp_all add: encryption_keys_def)
  have "token_urlsafe rnd' \<noteq> []" using len by auto
  then have "validate_runtime st' = Inr ()" "\<exists>ts. get_token_service st' g' = Inr ts \<and> tv_secret ts = token_urlsafe rnd'"
    using assms(6,7) len by (simp_all add: validate_runtime_def unsafe_reasons_def st' get_token_service_def new_token_service_def)
  moreover have "get_secret_cipher fe st' g = Inr \<lparr>sc_keys = [generate rnd]\<rparr>" using key by (simp add: get_secret_cipher_def st')
  ultimately show ?thesis using len b64_inj tok assms(3,4) gen by (simp add: generate_master_key_def)
qed

theorem printed_secrets_start_production_witness:
  "validate_runtime (load_env (plain_read (gen_keys_main b64_encode (replicate 32 255) (replicate 48 7)))
     (default_settings\<lparr>app_env := Production, app_debug := False\<rparr>)) = Inr ()"
proof -
  let ?st = "default_settings\<lparr>app_env := Production, app_debug := False\<rparr>"
  have "\<not> app_debug ?st" "''*'' \<notin> set (cors_origins ?st)" by (simp_all add: default_settings_def)
  from printed_secrets_start_production [OF ex_keys.key_source_axioms plain.env_file_axioms _ _ refl this, of "replicate 32 255" "replicate 48 7"]
  show ?thesis by simp
qed

end
