(* ===== verification/Spec2Isabelle.thy ===== *)
theory Spec2Isabelle
  imports Application Indicator_Properties Ledger_Concurrency Migration_Properties Column_Bounds Shared_Login Client_Lifecycle Key_Generation
begin

text \<open>
  Verification of the Multi-Platform Cryptocurrency Trading Hub.

  \<^bold>\<open>The program.\<close> The hub is an HTTP service (\<^verbatim>\<open>src/app\<close>). A request passes a stack of
  middleware (\<^verbatim>\<open>main.py\<close>, \<^verbatim>\<open>api/middleware.py\<close>), reaches a route
  (\<^verbatim>\<open>api/v1\<close>) whose dependencies (\<^verbatim>\<open>api/deps.py\<close>) authenticate the caller, check a
  permission and build the services, and runs one service operation (\<^verbatim>\<open>services\<close>) in a
  database transaction (\<^verbatim>\<open>database/session.py\<close>, \<^verbatim>\<open>repositories\<close>). Trading goes
  through an adapter (\<^verbatim>\<open>exchange\<close>) that either simulates an exchange on a ledger kept in the
  database or calls a real one through the ccxt library behind a circuit breaker
  (\<^verbatim>\<open>core/resilience.py\<close>); a factory decides which, by the server's policy. Background jobs
  (\<^verbatim>\<open>workers\<close>) share the services.

  \<^bold>\<open>How it is modelled.\<close> Errors are the left summand of a result (\<open>exn\<close>: an application
  error with its class, or a Python exception by name). An operation with state is an action
  \<open>'s \<Rightarrow> (exn + 'a) \<times> 's\<close> that returns the state also when it raises, as Python keeps what
  was written before an exception. Dictionaries are association lists in insertion order. Decimal
  numbers are rationals rounded to 28 digits after every operation, floating-point numbers are
  rationals rounded to 53 bits, both half to even (\<open>Numerics\<close>; overflow, underflow, infinities and
  NaN are outside the model). Clock readings, random identifiers, salts and nonces are arguments.
  Strings are lists of 8-bit characters with the ASCII behaviour of the string methods. Third-party
  code is a parameter: the ccxt library, Fernet, Argon2, JWT, pyotp, the numeric columns and cascades
  of the database, Redis, structlog, the C library's \<open>pow\<close>, validation of e-mail addresses, the
  framework's bearer header, route matching and CORS. What a theorem needs of them is a named
  hypothesis (\<open>fernet_laws\<close>, \<open>jwt_laws\<close>, \<open>read_only\<close>, \<open>numeric_idem\<close>,
  \<open>redis_server\<close>, \<open>structlog_documented\<close>, \<open>pow_ok\<close>, \<open>cors_ok\<close>), with a concrete
  instance in a witness. So are the database server, Alembic and SQLAlchemy where their behaviour
  matters: \<open>read_committed\<close> (isolation of transactions), \<open>ddl_server\<close>, \<open>migration_tool\<close>,
  \<open>table_creator\<close> (data definition), which compare them with the documented behaviour written out
  as \<open>txn_step\<close>, \<open>apply_ddl\<close>, \<open>upgrade_head\<close>, \<open>class_ddl\<close>. No definition uses fuel: every loop of the program is structural recursion
  or has a measure.

  \<^bold>\<open>Theories.\<close>
  \<^item> \<open>Prelude\<close>: results and actions, dictionaries, string methods, the invariant interface.
  \<^item> \<open>Numerics\<close>: decimal and floating-point arithmetic with its error bounds.
  \<^item> \<open>Errors\<close>: \<^verbatim>\<open>core/exceptions.py\<close> and the handlers of \<^verbatim>\<open>api/errors.py\<close>.
  \<^item> \<open>Models\<close>: \<^verbatim>\<open>trading/enums.py\<close>, \<^verbatim>\<open>exchange/models.py\<close>,
    \<^verbatim>\<open>analytics/models.py\<close>.
  \<^item> \<open>Risk\<close>: \<^verbatim>\<open>trading/risk.py\<close>; sized positions stay within their limits up to one part in
    $10^{26}$, profits never favour both sides.
  \<^item> \<open>Paper\<close>, \<open>Paper_Reservations\<close>, \<open>Paper_Trading\<close>: the simulated exchange
    \<^verbatim>\<open>exchange/paper.py\<close>; the ledger invariant of every operation, reservations that back the
    resting orders over any sequence of operations, acceptance exactly when funded, conservation of
    value by fills, cancelling as the inverse of resting.
  \<^item> \<open>Resilience\<close>: circuit breaker as a state machine with concurrent calls, and retries.
  \<^item> \<open>Ccxt\<close>, \<open>Factory\<close>: the live adapter with its answers parsed as the code does, the registry,
    and the factory that enforces the policy.
  \<^item> \<open>Settings\<close>, \<open>Security\<close>: configuration, secret cipher, password hasher, roles, one-time
    passwords, signed tokens.
  \<^item> \<open>Auth_Stores\<close>, \<open>Sha256\<close>, \<open>Redis_Stores\<close>: login throttle and token revocation, in memory and
    in Redis. The interfaces are the locales \<open>login_throttle\<close>, \<open>revocation_store\<close>,
    \<open>token_store\<close>; the server's contract is \<open>redis_server\<close>, from which the Redis token store
    gets the interface by a sublocale.
  \<^item> \<open>Database\<close>, \<open>Accounts\<close>: tables, repositories, the unit of work, account and portfolio service.
  \<^item> \<open>Trading_Service\<close>, \<open>Trading_Properties\<close>: placing and cancelling orders; roll-back on every
    error, refinement of the ledger by the database, no live orders in paper mode, paging.
  \<^item> \<open>Auth_Service\<close>, \<open>Auth_Properties\<close>: registration, login, refresh, two-factor operations; when
    login succeeds, audit of refusals, single use of codes and refresh tokens, revocation of a family.
  \<^item> \<open>Ledger_Concurrency\<close>: orders on one paper account as interleaved transactions (\<open>txn_step\<close>) of any
    database server with the contract \<open>read_committed\<close>; where every asset has its row they serialise and never deadlock, while two
    first purchases of an asset can lose one of them.
  \<^item> \<open>Session_Races\<close>: the exchange of refresh tokens over either token store, divided at its
    suspension points (\<open>exchange_step\<close>); in memory a token is exchanged once under every
    interleaving, in the shared store two requests can exchange it; two concurrent logins can use one
    code; concurrent guesses at a password exceed the limit by at most those under way together.
  \<^item> \<open>Shared_Login\<close>: login and logout with their stores as interfaces. A contract between two throttles
    (\<open>throttle_refinement\<close>) carries over to logins; the shared throttle keeps it with respect to a
    reference, so that replicas answer every sequence of logins like the service of one process with a
    lock per identity beside it. An unreachable store lets nobody in, and a logout ends a session on
    every replica.
  \<^item> \<open>Key_Generation\<close>: \<^verbatim>\<open>scripts/gen_keys.py\<close> with Python's URL-safe base64; production starts
    with the secrets it prints, and distinct random bytes give distinct secrets.
  \<^item> \<open>Client_Lifecycle\<close>: the network clients of the adapters, which are closed on every exit of the
    scopes that use them.
  \<^item> \<open>Migrations\<close>, \<open>Migration_Properties\<close>, \<open>Column_Bounds\<close>: the Alembic revisions as commands on a
    database with data, the columns of the mapped classes (\<^verbatim>\<open>models\<close>, \<^verbatim>\<open>database/base.py\<close>);
    on any server and tools with the documented behaviour the revisions build the schema of the classes,
    undo each other and keep the data, and stored texts are compared with the widths of their columns.
  \<^item> \<open>Indicators\<close>, \<open>Market_Service\<close>, \<open>Indicator_Properties\<close>: \<^verbatim>\<open>analytics/indicators.py\<close>
    and the market-data service; alignment of every series, ranges, the running mean. The range
    results hold for at most $2^{50}$ candles, which keeps the compensated sum non-negative.
  \<^item> \<open>Client_Address\<close>, \<open>Middleware\<close>: the address of a caller behind proxies (with the part of
    Python's \<^verbatim>\<open>ipaddress\<close> it uses), request context, headers, and the rate limiter as a refinement
    of a sliding window that never forgets.
  \<^item> \<open>Schemas\<close>, \<open>Api\<close>, \<open>Api_Properties\<close>: request constraints, responses and every route with its
    access rule; calls that are not permitted have no effect, tenants are isolated.
  \<^item> \<open>Workers\<close>, \<open>Logging\<close>: background jobs with the cached engine and its event loop; redaction.
  \<^item> \<open>Application\<close>: dependencies, start-up, pages and the whole stack as a step relation on
    requests; a user's holdings change only through requests with that user's token.

  \<^bold>\<open>Not modelled.\<close> Pure input and output (sockets, the HTTP and SQL drivers), JSON
  coding and the framework's routing, the choice of threads, logging calls inside the services, the
  offline mode of the migrations, the configuration object of the task queue, package exports, the dashboard
  page and its script. In \<open>Application\<close> the services run on the stores in memory; login, logout and
  the exchange of tokens are modelled over both kinds of store (\<open>Session_Races\<close>,
  \<open>Shared_Login\<close>), and the two-factor operations use neither. A request is one atomic step of a
  deployment, and one operation sees one reading of each clock, except where interleavings at
  suspension points are modelled: the circuit breaker, the rate limiter (which has none), the round trips
  of the shared throttle, the ledger transactions, the token exchanges and password guesses.
\<close>

end
